(* ===== verification/Prelude.thy ===== *)
theory Prelude
  imports Complex_Main
    "HOL-Library.State_Monad"
    "HOL-Library.Finite_Map"
    "HOL-Library.Char_ord"
    "HOL-Library.List_Lexorder"
begin

text \<open>
  Shared vocabulary of the development: Go error values and their wrapping chain, the outcome of a
  Go call (a value, an error or a panic), the monad of calls that read and change the world outside
  the controller, the little string formatting the source uses in its messages, and the generic
  lemmas and theorem collections the component theories rely on.
\<close>

section \<open>Theorem collections\<close>

named_theorems run_simps \<open>what running a monadic expression from a given world yields\<close>
named_theorems returns_intros \<open>introduction rules for the result of a successful call\<close>
named_theorems preserves_intros \<open>introduction rules for calls that keep a property of the world\<close>

section \<open>Go errors\<close>

text \<open>
  The error values the source tells apart. The first three are made by the libraries the source
  calls (an API server answer with reason NotFound or Conflict, the Helm storage driver's
  \<open>ErrReleaseNotFound\<close>); \<open>Errorf\<close> is any other error that wraps nothing, \<open>Wrapf\<close> an
  error made by \<open>fmt.Errorf("prefix: %w", err)\<close>, \<open>Joined\<close> the result of \<open>errors.Join\<close>.
  \<open>RuntimeConfigError\<close> and \<open>PhaseError\<close> are the two error types declared in the repository.
\<close>

datatype gerr =
    NotFound string
  | Conflict string
  | ReleaseNotFound
  | RuntimeConfigError string
  | Errorf string
  | Wrapf string gerr
  | PhaseError string gerr
  | Joined "gerr list"

text \<open>\<open>strings.Join\<close>.\<close>

fun join_strings :: "string \<Rightarrow> string list \<Rightarrow> string" where
  "join_strings sep [] = []"
| "join_strings sep [s] = s"
| "join_strings sep (s # t # ss) = s @ sep @ join_strings sep (t # ss)"

text \<open>
  The text of an error. \<open>PhaseError\<close> follows its \<open>Error\<close> method in
  \<^verbatim>\<open>internal/upgrade/phase.go\<close>, \<open>RuntimeConfigError\<close> the one in
  \<^verbatim>\<open>internal/upgrade/config.go\<close>.
\<close>

fun err_msg :: "gerr \<Rightarrow> string" where
  "err_msg (NotFound m) = m"
| "err_msg (Conflict m) = m"
| "err_msg ReleaseNotFound = ''release: not found''"
| "err_msg (RuntimeConfigError m) = m"
| "err_msg (Errorf m) = m"
| "err_msg (Wrapf p e) = p @ '': '' @ err_msg e"
| "err_msg (PhaseError p e) = p @ '' upgrade failed: '' @ err_msg e"
| "err_msg (Joined es) = join_strings [CHR 0x0A] (map err_msg es)"

fun first_some :: "'a option list \<Rightarrow> 'a option" where
  "first_some [] = None"
| "first_some (None # xs) = first_some xs"
| "first_some (Some x # xs) = Some x"

text \<open>
  \<open>errors.AsType\<close> walks the chain that \<open>Unwrap\<close> gives: through \<open>%w\<close> and
  \<open>errors.Join\<close>, but not through a \<open>PhaseError\<close>, which has no \<open>Unwrap\<close> method.
\<close>

fun as_runtime_config_error :: "gerr \<Rightarrow> string option" where
  "as_runtime_config_error (RuntimeConfigError m) = Some m"
| "as_runtime_config_error (Wrapf _ e) = as_runtime_config_error e"
| "as_runtime_config_error (Joined es) = first_some (map as_runtime_config_error es)"
| "as_runtime_config_error _ = None"

fun as_phase_error :: "gerr \<Rightarrow> (string \<times> gerr) option" where
  "as_phase_error (PhaseError p e) = Some (p, e)"
| "as_phase_error (Wrapf _ e) = as_phase_error e"
| "as_phase_error (Joined es) = first_some (map as_phase_error es)"
| "as_phase_error _ = None"

text \<open>\<open>apierrors.IsNotFound\<close>, \<open>apierrors.IsConflict\<close> and
  \<open>errors.Is(err, ErrReleaseNotFound)\<close> on the error of a client call.\<close>

fun is_not_found :: "gerr \<Rightarrow> bool" where
  "is_not_found (NotFound _) = True"
| "is_not_found (Wrapf _ e) = is_not_found e"
| "is_not_found _ = False"

fun is_conflict :: "gerr \<Rightarrow> bool" where
  "is_conflict (Conflict _) = True"
| "is_conflict (Wrapf _ e) = is_conflict e"
| "is_conflict _ = False"

fun is_release_not_found :: "gerr \<Rightarrow> bool" where
  "is_release_not_found ReleaseNotFound = True"
| "is_release_not_found (Wrapf _ e) = is_release_not_found e"
| "is_release_not_found _ = False"

section \<open>Outcomes of a call\<close>

text \<open>
  A Go call returns a value, returns an error, or panics (a nil dereference, an index out of range).
  A panic is not an error: no \<open>if err != nil\<close> sees it.
\<close>

datatype 'a outcome = Ok 'a | Err gerr | Panic string

definition obind :: "'a outcome \<Rightarrow> ('a \<Rightarrow> 'b outcome) \<Rightarrow> 'b outcome" where
  "obind r f = (case r of Ok a \<Rightarrow> f a | Err e \<Rightarrow> Err e | Panic p \<Rightarrow> Panic p)"

definition owrap :: "string \<Rightarrow> 'a outcome \<Rightarrow> 'a outcome" where
  "owrap p r = (case r of Ok a \<Rightarrow> Ok a | Err e \<Rightarrow> Err (Wrapf p e) | Panic q \<Rightarrow> Panic q)"

lemma obind_simps [simp]:
  "obind (Ok a) f = f a" "obind (Err e) f = Err e" "obind (Panic p) f = Panic p"
  by (simp_all add: obind_def)

lemma owrap_simps [simp]:
  "owrap p (Ok a) = Ok a" "owrap p (Err e) = Err (Wrapf p e)" "owrap p (Panic q) = Panic q"
  by (simp_all add: owrap_def)

lemma obind_eq_Ok_iff: "obind r f = Ok b \<longleftrightarrow> (\<exists>a. r = Ok a \<and> f a = Ok b)"
  by (cases r) auto

lemma owrap_eq_Ok_iff [simp]: "owrap p r = Ok a \<longleftrightarrow> r = Ok a"
  by (cases r) auto

lemma owrap_eq_Err_iff: "owrap p r = Err e \<longleftrightarrow> (\<exists>e'. r = Err e' \<and> e = Wrapf p e')"
  by (cases r) auto

section \<open>Calls that act on the world\<close>

text \<open>
  A call of the Kubernetes or Helm client reads and changes a world \<open>'w\<close> that the controller does
  not own. The world is a type variable throughout, so every theorem holds whatever other
  controllers do between two calls: their actions are part of what the next call's function does.
\<close>

type_synonym ('w, 'a) io = "('w, 'a outcome) state"

definition ok :: "'a \<Rightarrow> ('w, 'a) io" where
  "ok a = State_Monad.return (Ok a)"

definition raise :: "gerr \<Rightarrow> ('w, 'a) io" where
  "raise e = State_Monad.return (Err e)"

definition panic :: "string \<Rightarrow> ('w, 'a) io" where
  "panic p = State_Monad.return (Panic p)"

definition pure_call :: "'a outcome \<Rightarrow> ('w, 'a) io" where
  "pure_call r = State_Monad.return r"

text \<open>\<open>x, err := m; if err != nil { h err } ; f x\<close>; a panic leaves both branches.\<close>

definition handle :: "('w, 'a) io \<Rightarrow> (gerr \<Rightarrow> ('w, 'b) io) \<Rightarrow> ('a \<Rightarrow> ('w, 'b) io) \<Rightarrow> ('w, 'b) io" where
  "handle m h f =
     State_Monad.bind m (\<lambda>r. case r of Ok a \<Rightarrow> f a | Err e \<Rightarrow> h e | Panic p \<Rightarrow> panic p)"

text \<open>\<open>x, err := m; if err != nil { return err } ; f x\<close>.\<close>

definition attempt :: "('w, 'a) io \<Rightarrow> ('a \<Rightarrow> ('w, 'b) io) \<Rightarrow> ('w, 'b) io" where
  "attempt m f = handle m raise f"

text \<open>\<open>fmt.Errorf("p: %w", err)\<close> around the error of a call.\<close>

definition wrap :: "string \<Rightarrow> ('w, 'a) io \<Rightarrow> ('w, 'a) io" where
  "wrap p m = handle m (\<lambda>e. raise (Wrapf p e)) ok"

lemma run_ok [simp, run_simps]: "run_state (ok a) w = (Ok a, w)"
  by (simp add: ok_def)

lemma run_raise [simp, run_simps]: "run_state (raise e) w = (Err e, w)"
  by (simp add: raise_def)

lemma run_panic [simp, run_simps]: "run_state (panic p) w = (Panic p, w)"
  by (simp add: panic_def)

lemma run_pure_call [simp, run_simps]: "run_state (pure_call r) w = (r, w)"
  by (simp add: pure_call_def)

lemma run_handle [run_simps]:
  "run_state (handle m h f) w =
     (case run_state m w of (r, w') \<Rightarrow>
        (case r of Ok a \<Rightarrow> run_state (f a) w' | Err e \<Rightarrow> run_state (h e) w' | Panic p \<Rightarrow> (Panic p, w')))"
  by (auto simp: handle_def split: prod.splits outcome.splits)

lemma run_attempt [run_simps]:
  "run_state (attempt m f) w =
     (case run_state m w of (r, w') \<Rightarrow>
        (case r of Ok a \<Rightarrow> run_state (f a) w' | Err e \<Rightarrow> (Err e, w') | Panic p \<Rightarrow> (Panic p, w')))"
  by (auto simp: attempt_def run_handle split: prod.splits outcome.splits)

lemma run_wrap [run_simps]:
  "run_state (wrap p m) w = (case run_state m w of (r, w') \<Rightarrow> (owrap p r, w'))"
  by (auto simp: wrap_def run_handle split: prod.splits outcome.splits)

text \<open>What a call returns when it succeeds, whatever the world.\<close>

definition returns :: "('w, 'a) io \<Rightarrow> ('a \<Rightarrow> bool) \<Rightarrow> bool" where
  "returns m P \<longleftrightarrow> (\<forall>w a w'. run_state m w = (Ok a, w') \<longrightarrow> P a)"

lemma returnsI: "(\<And>w a w'. run_state m w = (Ok a, w') \<Longrightarrow> P a) \<Longrightarrow> returns m P"
  by (auto simp: returns_def)

lemma returnsD: "returns m P \<Longrightarrow> run_state m w = (Ok a, w') \<Longrightarrow> P a"
  by (auto simp: returns_def)

lemma returns_mono: "returns m P \<Longrightarrow> (\<And>a. P a \<Longrightarrow> Q a) \<Longrightarrow> returns m Q"
  by (auto simp: returns_def)

lemma returns_trivial: "returns m (\<lambda>_. True)"
  by (simp add: returns_def)

lemma returns_ok [returns_intros]: "P a \<Longrightarrow> returns (ok a) P"
  by (simp add: returns_def)

lemma returns_raise [returns_intros]: "returns (raise e) P"
  by (simp add: returns_def)

lemma returns_panic [returns_intros]: "returns (panic p) P"
  by (simp add: returns_def)

lemma returns_handle:
  "returns m Q \<Longrightarrow> (\<And>e. returns (h e) P) \<Longrightarrow> (\<And>a. Q a \<Longrightarrow> returns (f a) P) \<Longrightarrow> returns (handle m h f) P"
  by (fastforce simp: returns_def run_handle split: prod.splits outcome.splits)

lemma returns_handle_any [returns_intros]:
  "(\<And>e. returns (h e) P) \<Longrightarrow> (\<And>a. returns (f a) P) \<Longrightarrow> returns (handle m h f) P"
  by (rule returns_handle [OF returns_trivial])

lemma returns_attempt:
  "returns m Q \<Longrightarrow> (\<And>a. Q a \<Longrightarrow> returns (f a) P) \<Longrightarrow> returns (attempt m f) P"
  unfolding attempt_def by (rule returns_handle [where Q = Q]) (auto intro: returns_raise)

lemma returns_attempt_any [returns_intros]:
  "(\<And>a. returns (f a) P) \<Longrightarrow> returns (attempt m f) P"
  by (rule returns_attempt [OF returns_trivial])

lemma returns_wrap [returns_intros]: "returns m P \<Longrightarrow> returns (wrap p m) P"
  unfolding wrap_def by (rule returns_handle [where Q = P]) (auto intro: returns_intros)

lemma returns_if [returns_intros]:
  "(c \<Longrightarrow> returns m P) \<Longrightarrow> (\<not> c \<Longrightarrow> returns n P) \<Longrightarrow> returns (if c then m else n) P"
  by simp

text \<open>Calls that keep a property of the world.\<close>

definition preserves :: "('w, 'a) state \<Rightarrow> ('w \<Rightarrow> bool) \<Rightarrow> bool" where
  "preserves m I \<longleftrightarrow> (\<forall>w. I w \<longrightarrow> I (snd (run_state m w)))"

lemma preservesI: "(\<And>w a w'. I w \<Longrightarrow> run_state m w = (a, w') \<Longrightarrow> I w') \<Longrightarrow> preserves m I"
  by (auto simp: preserves_def prod_eq_iff)

lemma preservesD: "preserves m I \<Longrightarrow> run_state m w = (a, w') \<Longrightarrow> I w \<Longrightarrow> I w'"
  by (metis preserves_def snd_conv)

lemma preserves_simple [preserves_intros]:
  "preserves (ok a) I" "preserves (raise e) I" "preserves (panic p) I" "preserves (pure_call r) I"
  by (simp_all add: preserves_def)

lemma preserves_handle [preserves_intros]:
  "preserves m I \<Longrightarrow> (\<And>e. preserves (h e) I) \<Longrightarrow> (\<And>a. preserves (f a) I) \<Longrightarrow> preserves (handle m h f) I"
  unfolding preserves_def run_handle by (fastforce split: prod.splits outcome.splits)

lemma preserves_attempt [preserves_intros]:
  "preserves m I \<Longrightarrow> (\<And>a. preserves (f a) I) \<Longrightarrow> preserves (attempt m f) I"
  unfolding attempt_def by (intro preserves_intros)

lemma preserves_wrap [preserves_intros]: "preserves m I \<Longrightarrow> preserves (wrap p m) I"
  unfolding wrap_def by (intro preserves_intros)

section \<open>Formatting\<close>

definition digit :: "nat \<Rightarrow> char" where
  "digit d = char_of (48 + d)"

text \<open>\<open>%d\<close> of a non-negative integer.\<close>

fun decimal :: "nat \<Rightarrow> string" where
  "decimal n = (if n < 10 then [digit n] else decimal (n div 10) @ [digit (n mod 10)])"

declare decimal.simps [simp del]

text \<open>\<open>%d\<close> of an integer.\<close>

definition decimal_int :: "int \<Rightarrow> string" where
  "decimal_int i = (if i < 0 then ''-'' @ decimal (nat (- i)) else decimal (nat i))"

definition hex_digit :: "nat \<Rightarrow> char" where
  "hex_digit d = (if d < 10 then char_of (48 + d) else char_of (87 + d))"

text \<open>
  \<open>%q\<close>: double quotes around the text, with the quote, the backslash and the control characters
  escaped. Bytes from 128 on are left as they are, as Go leaves printable UTF-8.
\<close>

definition quote_char :: "char \<Rightarrow> string" where
  "quote_char c =
     (let n = (of_char c :: nat) in
      if n = 34 \<or> n = 92 then [CHR 0x5C, c]
      else if n = 7 then [CHR 0x5C, CHR ''a'']
      else if n = 8 then [CHR 0x5C, CHR ''b'']
      else if n = 9 then [CHR 0x5C, CHR ''t'']
      else if n = 10 then [CHR 0x5C, CHR ''n'']
      else if n = 11 then [CHR 0x5C, CHR ''v'']
      else if n = 12 then [CHR 0x5C, CHR ''f'']
      else if n = 13 then [CHR 0x5C, CHR ''r'']
      else if n < 32 \<or> n = 127 then [CHR 0x5C, CHR ''x'', hex_digit (n div 16), hex_digit (n mod 16)]
      else [c])"

definition go_quote :: "string \<Rightarrow> string" where
  "go_quote s = [CHR 0x22] @ concat (map quote_char s) @ [CHR 0x22]"

text \<open>\<open>strings.HasPrefix\<close>, \<open>strings.TrimPrefix\<close>, \<open>strings.TrimSuffix\<close>,
  \<open>strings.Contains\<close>.\<close>

fun has_prefix :: "string \<Rightarrow> string \<Rightarrow> bool" where
  "has_prefix s [] = True"
| "has_prefix [] (p # ps) = False"
| "has_prefix (c # s) (p # ps) = (c = p \<and> has_prefix s ps)"

definition trim_prefix :: "string \<Rightarrow> string \<Rightarrow> string" where
  "trim_prefix s p = (if has_prefix s p then drop (length p) s else s)"

definition trim_suffix :: "string \<Rightarrow> string \<Rightarrow> string" where
  "trim_suffix s p =
     (if has_prefix (rev s) (rev p) then take (length s - length p) s else s)"

lemma has_prefix_iff: "has_prefix s p \<longleftrightarrow> (\<exists>t. s = p @ t)"
  by (induction s p rule: has_prefix.induct) auto

lemma trim_suffix_append [simp]: "trim_suffix (s @ p) p = s"
  by (auto simp: trim_suffix_def has_prefix_iff)

lemma trim_prefix_append [simp]: "trim_prefix (p @ s) p = s"
  by (auto simp: trim_prefix_def has_prefix_iff)

section \<open>Lists\<close>

lemma length_dropWhile_less [termination_simp]: "length (dropWhile P xs) < Suc (length xs)"
  by (simp add: le_imp_less_Suc length_dropWhile_le)

lemma dropWhile_eq_self: "xs = [] \<or> \<not> P (hd xs) \<Longrightarrow> dropWhile P xs = xs"
  by (cases xs) auto

lemma hd_dropWhile_not: "dropWhile P xs \<noteq> [] \<Longrightarrow> \<not> P (hd (dropWhile P xs))"
  by (rule hd_dropWhile)

end
