(* ===== verification/Release_API.thy ===== *)
theory Release_API
  imports Prelude
begin

text \<open>
  The Release resource, after \<^verbatim>\<open>api/v1alpha1/release_types.go\<close>: label keys, condition types
  and reasons, the spec and status structs, and \<open>SanitizeVersion\<close>, which turns a version into
  the suffix of a Kubernetes name or the value of a label.
\<close>

section \<open>Constants\<close>

definition ReleaseNameLabel :: string where
  "ReleaseNameLabel = ''lifecycle.suse.com/release''"

definition ReleaseVersionLabel :: string where
  "ReleaseVersionLabel = ''lifecycle.suse.com/version''"

definition ConditionApplied :: string where
  "ConditionApplied = ''Applied''"

definition ConditionManifestResolved :: string where
  "ConditionManifestResolved = ''ManifestResolved''"

definition ConditionLCMUpgraded :: string where
  "ConditionLCMUpgraded = ''LCMUpgraded''"

definition ConditionOSUpgraded :: string where
  "ConditionOSUpgraded = ''OSUpgraded''"

definition ConditionKubernetesUpgraded :: string where
  "ConditionKubernetesUpgraded = ''KubernetesUpgraded''"

definition ConditionHelmChartsUpgraded :: string where
  "ConditionHelmChartsUpgraded = ''HelmChartsUpgraded''"

definition UpgradePending :: string where
  "UpgradePending = ''Pending''"

definition UpgradeInProgress :: string where
  "UpgradeInProgress = ''InProgress''"

definition UpgradeSkipped :: string where
  "UpgradeSkipped = ''Skipped''"

definition UpgradeSucceeded :: string where
  "UpgradeSucceeded = ''Succeeded''"

definition UpgradeFailed :: string where
  "UpgradeFailed = ''Failed''"

definition PlanComplete :: string where
  "PlanComplete = ''PlanComplete''"

definition K8sPackagedComponentsAvailable :: string where
  "K8sPackagedComponentsAvailable = ''PackagedComponentsAvailable''"

lemmas condition_types =
  ConditionApplied_def ConditionManifestResolved_def ConditionLCMUpgraded_def
  ConditionOSUpgraded_def ConditionKubernetesUpgraded_def ConditionHelmChartsUpgraded_def

lemmas upgrade_states =
  UpgradePending_def UpgradeInProgress_def UpgradeSkipped_def UpgradeSucceeded_def
  UpgradeFailed_def PlanComplete_def K8sPackagedComponentsAvailable_def

lemma upgrade_states_distinct [simp]:
  "distinct [UpgradePending, UpgradeInProgress, UpgradeSkipped, UpgradeSucceeded, UpgradeFailed,
     PlanComplete, K8sPackagedComponentsAvailable]"
  by (simp add: upgrade_states)

lemma condition_types_distinct [simp]:
  "distinct [ConditionApplied, ConditionManifestResolved, ConditionLCMUpgraded,
     ConditionOSUpgraded, ConditionKubernetesUpgraded, ConditionHelmChartsUpgraded]"
  by (simp add: condition_types)

lemma upgrade_states_neq [simp]:
  "UpgradePending \<noteq> UpgradeInProgress" "UpgradePending \<noteq> UpgradeSkipped"
  "UpgradePending \<noteq> UpgradeSucceeded" "UpgradePending \<noteq> UpgradeFailed"
  "UpgradePending \<noteq> PlanComplete" "UpgradePending \<noteq> K8sPackagedComponentsAvailable"
  "UpgradeInProgress \<noteq> UpgradePending" "UpgradeInProgress \<noteq> UpgradeSkipped"
  "UpgradeInProgress \<noteq> UpgradeSucceeded" "UpgradeInProgress \<noteq> UpgradeFailed"
  "UpgradeInProgress \<noteq> PlanComplete" "UpgradeInProgress \<noteq> K8sPackagedComponentsAvailable"
  "UpgradeSkipped \<noteq> UpgradePending" "UpgradeSkipped \<noteq> UpgradeInProgress"
  "UpgradeSkipped \<noteq> UpgradeSucceeded" "UpgradeSkipped \<noteq> UpgradeFailed"
  "UpgradeSkipped \<noteq> PlanComplete" "UpgradeSkipped \<noteq> K8sPackagedComponentsAvailable"
  "UpgradeSucceeded \<noteq> UpgradePending" "UpgradeSucceeded \<noteq> UpgradeInProgress"
  "UpgradeSucceeded \<noteq> UpgradeSkipped" "UpgradeSucceeded \<noteq> UpgradeFailed"
  "UpgradeSucceeded \<noteq> PlanComplete" "UpgradeSucceeded \<noteq> K8sPackagedComponentsAvailable"
  "UpgradeFailed \<noteq> UpgradePending" "UpgradeFailed \<noteq> UpgradeInProgress"
  "UpgradeFailed \<noteq> UpgradeSkipped" "UpgradeFailed \<noteq> UpgradeSucceeded"
  "UpgradeFailed \<noteq> PlanComplete" "UpgradeFailed \<noteq> K8sPackagedComponentsAvailable"
  "PlanComplete \<noteq> UpgradePending" "PlanComplete \<noteq> UpgradeInProgress"
  "PlanComplete \<noteq> UpgradeSkipped" "PlanComplete \<noteq> UpgradeSucceeded"
  "PlanComplete \<noteq> UpgradeFailed" "PlanComplete \<noteq> K8sPackagedComponentsAvailable"
  "K8sPackagedComponentsAvailable \<noteq> UpgradePending" "K8sPackagedComponentsAvailable \<noteq> UpgradeInProgress"
  "K8sPackagedComponentsAvailable \<noteq> UpgradeSkipped" "K8sPackagedComponentsAvailable \<noteq> UpgradeSucceeded"
  "K8sPackagedComponentsAvailable \<noteq> UpgradeFailed" "K8sPackagedComponentsAvailable \<noteq> PlanComplete"
  by (simp_all add: upgrade_states)

lemma condition_types_neq [simp]:
  "ConditionApplied \<noteq> ConditionManifestResolved" "ConditionApplied \<noteq> ConditionLCMUpgraded"
  "ConditionApplied \<noteq> ConditionOSUpgraded" "ConditionApplied \<noteq> ConditionKubernetesUpgraded"
  "ConditionApplied \<noteq> ConditionHelmChartsUpgraded" "ConditionManifestResolved \<noteq> ConditionApplied"
  "ConditionManifestResolved \<noteq> ConditionLCMUpgraded" "ConditionManifestResolved \<noteq> ConditionOSUpgraded"
  "ConditionManifestResolved \<noteq> ConditionKubernetesUpgraded" "ConditionManifestResolved \<noteq> ConditionHelmChartsUpgraded"
  "ConditionLCMUpgraded \<noteq> ConditionApplied" "ConditionLCMUpgraded \<noteq> ConditionManifestResolved"
  "ConditionLCMUpgraded \<noteq> ConditionOSUpgraded" "ConditionLCMUpgraded \<noteq> ConditionKubernetesUpgraded"
  "ConditionLCMUpgraded \<noteq> ConditionHelmChartsUpgraded" "ConditionOSUpgraded \<noteq> ConditionApplied"
  "ConditionOSUpgraded \<noteq> ConditionManifestResolved" "ConditionOSUpgraded \<noteq> ConditionLCMUpgraded"
  "ConditionOSUpgraded \<noteq> ConditionKubernetesUpgraded" "ConditionOSUpgraded \<noteq> ConditionHelmChartsUpgraded"
  "ConditionKubernetesUpgraded \<noteq> ConditionApplied" "ConditionKubernetesUpgraded \<noteq> ConditionManifestResolved"
  "ConditionKubernetesUpgraded \<noteq> ConditionLCMUpgraded" "ConditionKubernetesUpgraded \<noteq> ConditionOSUpgraded"
  "ConditionKubernetesUpgraded \<noteq> ConditionHelmChartsUpgraded" "ConditionHelmChartsUpgraded \<noteq> ConditionApplied"
  "ConditionHelmChartsUpgraded \<noteq> ConditionManifestResolved" "ConditionHelmChartsUpgraded \<noteq> ConditionLCMUpgraded"
  "ConditionHelmChartsUpgraded \<noteq> ConditionOSUpgraded" "ConditionHelmChartsUpgraded \<noteq> ConditionKubernetesUpgraded"
  by (simp_all add: condition_types)

section \<open>The resource\<close>

text \<open>
  A pointer field is an \<open>option\<close>; the raw bytes of an inline JSON value are a string; a Kubernetes
  condition carries the fields the controller writes and reads. \<open>LastTransitionTime\<close> is a number
  the condition library sets.
\<close>

datatype condition_status = ConditionTrue | ConditionFalse | ConditionUnknown

record condition =
  cond_type :: string
  cond_status :: condition_status
  cond_generation :: int
  cond_reason :: string
  cond_message :: string
  cond_transition :: nat

record SecretValueSource =
  svs_name :: string
  svs_keys :: "string list"

record ChartConfig =
  cc_chart :: string
  cc_values :: "string option"
  cc_secret_ref :: "SecretValueSource option"

record ReleaseSpec =
  spec_version :: string
  spec_registry :: string
  spec_disable_drain :: bool
  spec_component_config :: "ChartConfig list option"

record ReleaseStatus =
  status_version :: string
  status_conditions :: "condition list"
  status_observed_generation :: int

record Release =
  rel_name :: string
  rel_namespace :: string
  rel_generation :: int
  rel_spec :: ReleaseSpec
  rel_status :: ReleaseStatus

section \<open>SanitizeVersion\<close>

text \<open>
  \<open>strings.ToLower\<close> on the bytes of a UTF-8 string, as far as \<open>SanitizeVersion\<close> can see it. Only
  two characters outside ASCII have an ASCII lower case: the Kelvin sign (bytes E2 84 AA) and the
  dotted capital I (C4 B0). Every other byte from 128 on stays outside ASCII, so the expression
  below replaces it whatever its lower case is.
\<close>

definition lower_byte :: "char \<Rightarrow> char" where
  "lower_byte c =
     (let n = (of_char c :: nat) in if 65 \<le> n \<and> n \<le> 90 then char_of (n + 32) else c)"

fun to_lower :: "string \<Rightarrow> string" where
  "to_lower [] = []"
| "to_lower (c # cs) =
     (if of_char c = (226 :: nat) \<and> take 2 cs = [CHR 0x84, CHR 0xAA]
      then CHR ''k'' # to_lower (drop 2 cs)
      else if of_char c = (196 :: nat) \<and> take 1 cs = [CHR 0xB0]
      then CHR ''i'' # to_lower (drop 1 cs)
      else lower_byte c # to_lower cs)"

text \<open>The class \<^verbatim>\<open>[a-z0-9-]\<close> of the regular expression.\<close>

definition name_char :: "char \<Rightarrow> bool" where
  "name_char c =
     (let n = (of_char c :: nat) in (97 \<le> n \<and> n \<le> 122) \<or> (48 \<le> n \<and> n \<le> 57) \<or> n = 45)"

text \<open>\<open>ReplaceAllString\<close> of \<^verbatim>\<open>[^a-z0-9-]+\<close>: each maximal run of other characters
  becomes one dash.\<close>

fun dash_runs :: "string \<Rightarrow> string" where
  "dash_runs [] = []"
| "dash_runs (c # cs) =
     (if name_char c then c # dash_runs cs
      else CHR ''-'' # dash_runs (dropWhile (\<lambda>d. \<not> name_char d) cs))"

text \<open>\<open>strings.Trim(s, "-")\<close>.\<close>

definition is_dash :: "char \<Rightarrow> bool" where
  "is_dash c \<longleftrightarrow> c = CHR ''-''"

definition trim_dashes :: "string \<Rightarrow> string" where
  "trim_dashes s = rev (dropWhile is_dash (rev (dropWhile is_dash s)))"

definition SanitizeVersion :: "string \<Rightarrow> string" where
  "SanitizeVersion v = trim_dashes (dash_runs (to_lower v))"

subsection \<open>Lemmas\<close>

lemma name_char_dash [simp]: "name_char CHR ''-''"
  by (simp add: name_char_def)

lemma set_dash_runs: "c \<in> set (dash_runs s) \<Longrightarrow> name_char c"
  by (induction s rule: dash_runs.induct) (auto split: if_splits)

lemma dash_runs_id: "(\<forall>c \<in> set s. name_char c) \<Longrightarrow> dash_runs s = s"
  by (induction s) auto

lemma length_dash_runs: "length (dash_runs s) \<le> length s"
proof (induction s rule: dash_runs.induct)
  case (2 c cs)
  then show ?case
    using length_dropWhile_le [of "\<lambda>d. \<not> name_char d" cs] by auto
qed simp

lemma length_to_lower: "length (to_lower s) \<le> length s"
  by (induction s rule: to_lower.induct) auto

lemma lower_byte_name_char: "name_char c \<Longrightarrow> lower_byte c = c"
  by (auto simp: name_char_def lower_byte_def Let_def)

lemma to_lower_id: "(\<forall>c \<in> set s. name_char c) \<Longrightarrow> to_lower s = s"
  by (induction s) (auto simp: lower_byte_name_char name_char_def Let_def)

lemma set_trim_dashes: "set (trim_dashes s) \<subseteq> set s"
  unfolding trim_dashes_def by (auto dest!: set_dropWhileD)

lemma length_trim_dashes: "length (trim_dashes s) \<le> length s"
  unfolding trim_dashes_def
  using length_dropWhile_le [of is_dash s]
    length_dropWhile_le [of is_dash "rev (dropWhile is_dash s)"] by simp

lemma trim_dashes_id:
  "s = [] \<or> \<not> is_dash (hd s) \<and> \<not> is_dash (last s) \<Longrightarrow> trim_dashes s = s"
  by (auto simp: trim_dashes_def dropWhile_eq_self hd_rev)

lemma last_trim_dashes: "trim_dashes s \<noteq> [] \<Longrightarrow> \<not> is_dash (last (trim_dashes s))"
  unfolding trim_dashes_def using hd_dropWhile_not [of is_dash "rev (dropWhile is_dash s)"]
  by (simp add: last_rev)

lemma hd_trim_dashes: "trim_dashes s \<noteq> [] \<Longrightarrow> \<not> is_dash (hd (trim_dashes s))"
proof -
  assume ne: "trim_dashes s \<noteq> []"
  let ?u = "dropWhile is_dash s"
  obtain xs where u: "rev ?u = xs @ dropWhile is_dash (rev ?u)"
    by (metis takeWhile_dropWhile_id)
  then have "?u = trim_dashes s @ rev xs"
    unfolding trim_dashes_def by (metis rev_append rev_rev_ident)
  then have "hd (trim_dashes s) = hd ?u" and "?u \<noteq> []"
    using ne by (metis hd_append, auto)
  then show ?thesis
    using hd_dropWhile_not [of is_dash s] by simp
qed

subsection \<open>Properties\<close>

text \<open>A sanitized version can stand in a label value or an object name: it has only lower case
  letters, digits and dashes, neither starts nor ends with a dash, and is not longer than the version.\<close>

theorem SanitizeVersion_label_safe:
  "set (SanitizeVersion v) \<subseteq> {c. name_char c} \<and> length (SanitizeVersion v) \<le> length v
     \<and> (SanitizeVersion v \<noteq> [] \<longrightarrow>
          hd (SanitizeVersion v) \<noteq> CHR ''-'' \<and> last (SanitizeVersion v) \<noteq> CHR ''-'')"
proof -
  have "set (SanitizeVersion v) \<subseteq> {c. name_char c}"
    using set_trim_dashes set_dash_runs unfolding SanitizeVersion_def by blast
  moreover have "length (SanitizeVersion v) \<le> length v"
    unfolding SanitizeVersion_def
    using length_trim_dashes length_dash_runs length_to_lower le_trans by metis
  ultimately show ?thesis
    using hd_trim_dashes last_trim_dashes unfolding SanitizeVersion_def is_dash_def by blast
qed

theorem SanitizeVersion_label_safe_witness:
  "SanitizeVersion ''V1.3+rke2r1.'' = ''v1-3-rke2r1''
     \<and> hd (SanitizeVersion ''V1.3+rke2r1.'') \<noteq> CHR ''-''"
proof -
  have e: "SanitizeVersion ''V1.3+rke2r1.'' = ''v1-3-rke2r1''" by code_simp
  then have "SanitizeVersion ''V1.3+rke2r1.'' \<noteq> []" by simp
  then show ?thesis using e SanitizeVersion_label_safe [of "''V1.3+rke2r1.''"] by blast
qed

text \<open>The versions that sanitizing leaves as they are are exactly the label-safe ones, so
  sanitizing twice is sanitizing once.\<close>

theorem SanitizeVersion_fixed:
  "(SanitizeVersion v = v \<longleftrightarrow>
      set v \<subseteq> {c. name_char c} \<and> (v = [] \<or> hd v \<noteq> CHR ''-'' \<and> last v \<noteq> CHR ''-''))
   \<and> SanitizeVersion (SanitizeVersion v) = SanitizeVersion v"
proof -
  have fixed: "SanitizeVersion u = u \<longleftrightarrow>
      set u \<subseteq> {c. name_char c} \<and> (u = [] \<or> hd u \<noteq> CHR ''-'' \<and> last u \<noteq> CHR ''-'')" for u
  proof
    assume "SanitizeVersion u = u"
    then show "set u \<subseteq> {c. name_char c} \<and> (u = [] \<or> hd u \<noteq> CHR ''-'' \<and> last u \<noteq> CHR ''-'')"
      using set_trim_dashes set_dash_runs hd_trim_dashes last_trim_dashes
      unfolding SanitizeVersion_def is_dash_def by (metis (no_types) mem_Collect_eq subsetD subsetI)
  next
    assume safe: "set u \<subseteq> {c. name_char c} \<and> (u = [] \<or> hd u \<noteq> CHR ''-'' \<and> last u \<noteq> CHR ''-'')"
    then have "\<forall>c \<in> set u. name_char c" by auto
    with safe show "SanitizeVersion u = u"
      by (simp add: SanitizeVersion_def to_lower_id dash_runs_id trim_dashes_id is_dash_def)
  qed
  have "set (SanitizeVersion v) \<subseteq> {c. name_char c}"
    using set_trim_dashes set_dash_runs unfolding SanitizeVersion_def by blast
  then show ?thesis
    using fixed hd_trim_dashes last_trim_dashes unfolding SanitizeVersion_def is_dash_def by blast
qed

end
