(* ===== verification/Helm_Values.thy ===== *)
theory Helm_Values
  imports Prelude
begin

text \<open>
  Chart values, after \<^verbatim>\<open>internal/helm/values.go\<close>: the value sources \<open>MergeHelmValues\<close>
  accepts, their conversion to a map, and the recursive merge. The YAML and JSON codecs are
  parameters (the record \<open>codec\<close>): the source only calls them.
\<close>

section \<open>Values\<close>

text \<open>
  A Go \<open>any\<close> as the decoders produce it. YAML decoding keeps integers, JSON decoding makes every
  number a floating-point value; a Go map is a finite map, so two maps with the same entries are
  equal.
\<close>

datatype gval =
    VNull
  | VBool bool
  | VInt int
  | VFloat rat
  | VStr string
  | VList "gval list"
  | VMap "(string, gval) fmap"

type_synonym gmap = "(string, gval) fmap"

fun is_map :: "gval \<Rightarrow> bool" where
  "is_map (VMap _) = True"
| "is_map _ = False"

text \<open>The four codec functions; a decoder yields \<open>None\<close> for a document that leaves the map nil.\<close>

record codec =
  yaml_unmarshal :: "string \<Rightarrow> gmap option outcome"
  yaml_marshal :: "gmap \<Rightarrow> string outcome"
  json_unmarshal :: "string \<Rightarrow> gmap option outcome"
  json_marshal :: "gmap \<Rightarrow> string outcome"

section \<open>mergeMaps\<close>

text \<open>
  The value stored under a key: \<open>v\<close> is the incoming value, \<open>old\<close> what the output holds under
  that key. Two maps are merged recursively, anything else is overwritten.
\<close>

primrec merge_value :: "gval \<Rightarrow> gval option \<Rightarrow> gval" where
  "merge_value VNull old = VNull"
| "merge_value (VBool b) old = VBool b"
| "merge_value (VInt i) old = VInt i"
| "merge_value (VFloat q) old = VFloat q"
| "merge_value (VStr s) old = VStr s"
| "merge_value (VList vs) old = VList vs"
| "merge_value (VMap inner) old =
     (case old of
        Some (VMap out_inner) \<Rightarrow>
          VMap (fmadd out_inner
            (fmmap_keys (\<lambda>k f. f (fmlookup out_inner k)) (fmmap merge_value inner)))
      | _ \<Rightarrow> VMap inner)"

definition mergeMaps :: "gmap \<Rightarrow> gmap \<Rightarrow> gmap" where
  "mergeMaps m1 m2 = fmadd m1 (fmmap_keys (\<lambda>k v. merge_value v (fmlookup m1 k)) m2)"

text \<open>
  One turn of the loop \<open>for k, v := range m2\<close>, on the output map built so far. \<open>mergeMaps\<close> is
  this loop over the entries of \<open>m2\<close> in any order (\<open>mergeMaps_loop\<close> below).
\<close>

definition merge_step :: "gmap \<Rightarrow> string \<times> gval \<Rightarrow> gmap" where
  "merge_step out kv =
     (case kv of (k, v) \<Rightarrow>
        (case v of
           VMap inner \<Rightarrow>
             (case fmlookup out k of
                Some (VMap out_inner) \<Rightarrow> fmupd k (VMap (mergeMaps out_inner inner)) out
              | _ \<Rightarrow> fmupd k v out)
         | _ \<Rightarrow> fmupd k v out))"

lemma merge_value_map:
  "merge_value (VMap inner) (Some (VMap out_inner)) = VMap (mergeMaps out_inner inner)"
proof -
  have "fmmap_keys (\<lambda>k f. f (fmlookup out_inner k)) (fmmap merge_value inner)
      = fmmap_keys (\<lambda>k v. merge_value v (fmlookup out_inner k)) inner"
    by (rule fmap_ext) (simp add: option.map_comp comp_def)
  then show ?thesis by (simp add: mergeMaps_def)
qed

lemma merge_value_cases:
  "merge_value v old =
     (case (v, old) of
        (VMap inner, Some (VMap out_inner)) \<Rightarrow> VMap (mergeMaps out_inner inner)
      | _ \<Rightarrow> v)"
  by (cases v) (auto simp: merge_value_map simp del: merge_value.simps(7)
      split: option.split gval.split, auto split: option.splits gval.splits)

lemma merge_value_not_map [simp]: "\<not> is_map v \<Longrightarrow> merge_value v old = v"
  by (cases v) auto

lemma merge_value_None [simp]: "merge_value v None = v"
  by (cases v) auto

lemma fmlookup_mergeMaps:
  "fmlookup (mergeMaps m1 m2) k =
     (case fmlookup m2 k of None \<Rightarrow> fmlookup m1 k | Some v \<Rightarrow> Some (merge_value v (fmlookup m1 k)))"
  by (auto simp: mergeMaps_def fmlookup_dom_iff split: option.splits)

lemma mergeMaps_empty_right [simp]: "mergeMaps m fmempty = m"
  by (rule fmap_ext) (simp add: fmlookup_mergeMaps)

lemma mergeMaps_empty_left [simp]: "mergeMaps fmempty m = m"
  by (rule fmap_ext) (simp add: fmlookup_mergeMaps split: option.splits)

lemma merge_step_eq: "merge_step out (k, v) = fmupd k (merge_value v (fmlookup out k)) out"
  by (auto simp: merge_step_def merge_value_cases split: gval.splits option.splits)

lemma fmlookup_fold_merge_step:
  "distinct (map fst kvs) \<Longrightarrow>
     fmlookup (foldl merge_step m kvs) k =
       (case map_of kvs k of None \<Rightarrow> fmlookup m k | Some v \<Rightarrow> Some (merge_value v (fmlookup m k)))"
proof (induction kvs arbitrary: m)
  case Nil
  then show ?case by simp
next
  case (Cons kv kvs)
  obtain k' v' where kv: "kv = (k', v')" by (cases kv)
  have "map_of kvs k' = None"
    using Cons.prems kv by (simp add: map_of_eq_None_iff)
  then show ?case
    using Cons.IH [of "merge_step m (k', v')"] Cons.prems
    by (auto simp: kv merge_step_eq split: option.splits)
qed

lemma mergeMaps_loop_aux:
  assumes "distinct (map fst kvs)"
  shows "foldl merge_step m1 kvs = mergeMaps m1 (fmap_of_list kvs)"
  by (rule fmap_ext)
    (simp add: fmlookup_fold_merge_step [OF assms] fmlookup_mergeMaps fmlookup_of_list)

section \<open>MergeHelmValues\<close>

datatype value_source =
    NilSource
  | StringSource string
  | BytesSource string
  | MapSource "gmap option"
  | JSONSource "string option"
  | OtherSource string

text \<open>A nil map ranges over no entries and copies as the empty map.\<close>

definition entries :: "gmap option \<Rightarrow> gmap" where
  "entries m = (case m of None \<Rightarrow> fmempty | Some x \<Rightarrow> x)"

lemma entries_simps [simp]: "entries None = fmempty" "entries (Some m) = m"
  by (simp_all add: entries_def)

fun toValuesMap :: "codec \<Rightarrow> value_source \<Rightarrow> gmap outcome" where
  "toValuesMap C NilSource = Ok fmempty"
| "toValuesMap C (StringSource s) =
     (if s \<noteq> [] then
        obind (owrap ''unmarshaling chart values from string'' (yaml_unmarshal C s)) (\<lambda>m. Ok (entries m))
      else Ok fmempty)"
| "toValuesMap C (BytesSource s) =
     (if s \<noteq> [] then
        obind (owrap ''unmarshaling chart values from byte slice'' (yaml_unmarshal C s)) (\<lambda>m. Ok (entries m))
      else Ok fmempty)"
| "toValuesMap C (MapSource m) = Ok (entries m)"
| "toValuesMap C (JSONSource None) = Ok fmempty"
| "toValuesMap C (JSONSource (Some raw)) =
     (if raw \<noteq> [] then
        obind (owrap ''unmarshaling chart values from JSON'' (json_unmarshal C raw)) (\<lambda>m. Ok (entries m))
      else Ok fmempty)"
| "toValuesMap C (OtherSource t) = Err (Errorf (''unexpected type '' @ t @ '' of source values''))"

fun merge_sources :: "codec \<Rightarrow> gmap \<Rightarrow> value_source list \<Rightarrow> gmap outcome" where
  "merge_sources C merged [] = Ok merged"
| "merge_sources C merged (v # vs) =
     obind (owrap ''converting to values map'' (toValuesMap C v))
       (\<lambda>valuesMap. merge_sources C (mergeMaps merged valuesMap) vs)"

text \<open>The result \<open>None\<close> is the nil map the function returns when nothing was merged.\<close>

definition MergeHelmValues :: "codec \<Rightarrow> value_source list \<Rightarrow> gmap option outcome" where
  "MergeHelmValues C sources =
     obind (merge_sources C fmempty sources) (\<lambda>m. Ok (if m = fmempty then None else Some m))"

section \<open>What a merge means along a path\<close>

text \<open>The value reached by following a path of keys through nested maps.\<close>

fun lookup_path :: "gval \<Rightarrow> string list \<Rightarrow> gval option" where
  "lookup_path v [] = Some v"
| "lookup_path v (k # ks) =
     (case v of VMap m \<Rightarrow> (case fmlookup m k of None \<Rightarrow> None | Some u \<Rightarrow> lookup_path u ks) | _ \<Rightarrow> None)"

text \<open>
  The incoming map leaves a path alone: along it, the incoming value is a map at every step until a
  key it does not define.
\<close>

fun leaves_alone :: "gmap \<Rightarrow> string list \<Rightarrow> bool" where
  "leaves_alone m [] = False"
| "leaves_alone m (k # ks) =
     (case fmlookup m k of None \<Rightarrow> True | Some (VMap inner) \<Rightarrow> leaves_alone inner ks | Some _ \<Rightarrow> False)"

lemma lookup_path_leaves_alone: "leaves_alone m ks \<Longrightarrow> lookup_path (VMap m) ks = None"
proof (induction m ks rule: leaves_alone.induct)
  case (2 m k ks)
  then show ?case by (cases ks) (auto split: option.splits gval.splits)
qed simp

lemma lookup_path_merge_leaf:
  assumes "lookup_path (VMap m2) ks = Some v" and "\<not> is_map v"
  shows "lookup_path (VMap (mergeMaps m1 m2)) ks = Some v"
  using assms
proof (induction ks arbitrary: m1 m2)
  case Nil
  then show ?case by auto
next
  case (Cons k ks)
  then obtain u where u: "fmlookup m2 k = Some u" and path: "lookup_path u ks = Some v"
    by (auto split: option.splits)
  show ?case
  proof (cases "ks = [] \<or> \<not> (\<exists>inner out_inner. u = VMap inner \<and> fmlookup m1 k = Some (VMap out_inner))")
    case True
    then have "merge_value u (fmlookup m1 k) = u"
      using path Cons.prems(2) by (auto simp: merge_value_cases split: gval.splits option.splits)
    then show ?thesis using u path by (simp add: fmlookup_mergeMaps)
  next
    case False
    then obtain inner out_inner
      where "u = VMap inner" and "fmlookup m1 k = Some (VMap out_inner)" by auto
    then show ?thesis
      using u path Cons.IH [of inner out_inner] Cons.prems(2)
      by (simp add: fmlookup_mergeMaps merge_value_map del: merge_value.simps)
  qed
qed

lemma lookup_path_merge_alone:
  assumes "leaves_alone m2 ks"
  shows "lookup_path (VMap (mergeMaps m1 m2)) ks = lookup_path (VMap m1) ks"
  using assms
proof (induction ks arbitrary: m1 m2)
  case Nil
  then show ?case by simp
next
  case (Cons k ks)
  show ?case
  proof (cases "fmlookup m2 k")
    case None
    then show ?thesis by (simp add: fmlookup_mergeMaps)
  next
    case (Some u)
    with Cons.prems obtain inner where u: "u = VMap inner" and alone: "leaves_alone inner ks"
      by (auto split: gval.splits)
    have ks: "ks \<noteq> []" using alone by auto
    then obtain k' ks' where ks': "ks = k' # ks'" by (cases ks) auto
    show ?thesis
    proof (cases "\<exists>out_inner. fmlookup m1 k = Some (VMap out_inner)")
      case True
      then show ?thesis
        using Some u Cons.IH [OF alone]
        by (auto simp: fmlookup_mergeMaps merge_value_map simp del: merge_value.simps)
    next
      case False
      then have "merge_value u (fmlookup m1 k) = u"
        by (auto simp: merge_value_cases split: gval.splits option.splits)
      then show ?thesis
        using False Some u lookup_path_leaves_alone [OF alone] ks'
        by (auto simp: fmlookup_mergeMaps split: option.splits gval.splits)
    qed
  qed
qed

section \<open>Properties\<close>

text \<open>C39. \<open>mergeMaps\<close> does not depend on the order in which Go walks the map: the loop over the
  entries of the second map gives the same result in every order.\<close>

theorem mergeMaps_any_order:
  assumes "distinct (map fst kvs)" and "fmap_of_list kvs = m2"
  shows "foldl merge_step m1 kvs = mergeMaps m1 m2"
  using mergeMaps_loop_aux [OF assms(1)] assms(2) by simp

theorem mergeMaps_any_order_witness:
  "foldl merge_step (fmap_of_list [(''b'', VMap (fmap_of_list [(''x'', VInt 1)]))])
       [(''a'', VInt 2), (''b'', VMap (fmap_of_list [(''y'', VInt 3)]))]
     = mergeMaps (fmap_of_list [(''b'', VMap (fmap_of_list [(''x'', VInt 1)]))])
         (fmap_of_list [(''b'', VMap (fmap_of_list [(''y'', VInt 3)])), (''a'', VInt 2)])"
  by (rule mergeMaps_any_order) (simp, rule fmap_ext, auto simp: fmlookup_of_list)

text \<open>
  C37. Later value sources take precedence: a scalar or list that the last source sets at some path
  is in the merged values at that path, and a path the last source leaves alone keeps what the
  earlier sources give it.
\<close>

theorem MergeHelmValues_precedence:
  assumes "MergeHelmValues C sources = Ok before" and "toValuesMap C source = Ok new"
  shows "\<exists>merged. MergeHelmValues C (sources @ [source]) = Ok merged
     \<and> (\<forall>ks v. lookup_path (VMap new) ks = Some v \<longrightarrow> \<not> is_map v \<longrightarrow>
          lookup_path (VMap (entries merged)) ks = Some v)
     \<and> (\<forall>ks. leaves_alone new ks \<longrightarrow>
          lookup_path (VMap (entries merged)) ks = lookup_path (VMap (entries before)) ks)"
proof -
  have "merge_sources C m sources = Ok b \<Longrightarrow>
      merge_sources C m (sources @ [source]) = Ok (mergeMaps b new)" for m b
    using assms(2) by (induction sources arbitrary: m) (auto simp: obind_eq_Ok_iff)
  moreover obtain b where "merge_sources C fmempty sources = Ok b" and "entries before = b"
    using assms(1) by (auto simp: MergeHelmValues_def obind_eq_Ok_iff split: if_splits)
  ultimately obtain merged where "MergeHelmValues C (sources @ [source]) = Ok merged"
    and "entries merged = mergeMaps b new" and "entries before = b"
    by (simp add: MergeHelmValues_def)
  then show ?thesis
    by (intro exI [of _ merged]) (simp add: lookup_path_merge_leaf lookup_path_merge_alone)
qed

theorem MergeHelmValues_precedence_witness:
  "\<forall>C. \<exists>merged. MergeHelmValues C
        [MapSource (Some (fmap_of_list [(''a'', VInt 1), (''b'', VInt 2)])),
         MapSource (Some (fmap_of_list [(''b'', VInt 3)]))] = Ok merged
     \<and> lookup_path (VMap (entries merged)) [''b''] = Some (VInt 3)
     \<and> lookup_path (VMap (entries merged)) [''a''] = Some (VInt 1)"
proof
  fix C
  let ?m = "fmap_of_list [(''a'', VInt 1), (''b'', VInt 2)]"
  have "fmlookup ?m ''a'' \<noteq> fmlookup fmempty ''a''" by (simp add: fmlookup_of_list)
  then have "?m \<noteq> fmempty" by metis
  then have h: "MergeHelmValues C [MapSource (Some ?m)] = Ok (Some ?m)"
    by (simp add: MergeHelmValues_def)
  let ?n = "fmap_of_list [(''b'', VInt 3)]"
  obtain merged where m: "MergeHelmValues C ([MapSource (Some ?m)] @ [MapSource (Some ?n)]) = Ok merged"
    and leaf: "\<forall>ks v. lookup_path (VMap (entries (Some ?n))) ks = Some v \<longrightarrow> \<not> is_map v \<longrightarrow>
          lookup_path (VMap (entries merged)) ks = Some v"
    and alone: "\<forall>ks. leaves_alone (entries (Some ?n)) ks \<longrightarrow>
          lookup_path (VMap (entries merged)) ks = lookup_path (VMap (entries (Some ?m))) ks"
    using MergeHelmValues_precedence [OF h toValuesMap.simps(4) [of C "Some ?n"]] by blast
  have "lookup_path (VMap (entries merged)) [''b''] = Some (VInt 3)"
    by (rule leaf [rule_format]) (simp_all add: fmlookup_of_list)
  moreover have "lookup_path (VMap (entries merged)) [''a''] = Some (VInt 1)"
    using alone [rule_format, of "[''a'']"] by (simp add: fmlookup_of_list)
  ultimately show "\<exists>merged. MergeHelmValues C [MapSource (Some ?m), MapSource (Some ?n)] = Ok merged
     \<and> lookup_path (VMap (entries merged)) [''b''] = Some (VInt 3)
     \<and> lookup_path (VMap (entries merged)) [''a''] = Some (VInt 1)"
    using m by (intro exI [of _ merged] conjI) (simp_all only: append_Cons append_Nil)
qed

lemma first_bad_Cons:
  "(\<exists>xs y ys. a # as = xs @ y # ys \<and> list_all P xs \<and> Q y) \<longleftrightarrow>
     Q a \<or> P a \<and> (\<exists>xs y ys. as = xs @ y # ys \<and> list_all P xs \<and> Q y)"
proof
  assume "\<exists>xs y ys. a # as = xs @ y # ys \<and> list_all P xs \<and> Q y"
  then obtain xs y ys where "a # as = xs @ y # ys" "list_all P xs" "Q y" by blast
  then show "Q a \<or> P a \<and> (\<exists>xs y ys. as = xs @ y # ys \<and> list_all P xs \<and> Q y)"
    by (cases xs) auto
next
  assume "Q a \<or> P a \<and> (\<exists>xs y ys. as = xs @ y # ys \<and> list_all P xs \<and> Q y)"
  then consider "Q a" | xs y ys where "P a" "as = xs @ y # ys" "list_all P xs" "Q y" by blast
  then show "\<exists>xs y ys. a # as = xs @ y # ys \<and> list_all P xs \<and> Q y"
  proof cases
    case 1
    then have "a # as = [] @ a # as \<and> list_all P [] \<and> Q a" by simp
    then show ?thesis by blast
  next
    case 2
    then have "a # as = (a # xs) @ y # ys \<and> list_all P (a # xs) \<and> Q y" by simp
    then show ?thesis by blast
  qed
qed

text \<open>Merging fails exactly when some source cannot be converted, with the error of the first
  such source.\<close>

theorem MergeHelmValues_error:
  "MergeHelmValues C sources = Err e \<longleftrightarrow>
     (\<exists>before bad rest. sources = before @ bad # rest
        \<and> list_all (\<lambda>s. \<exists>m. toValuesMap C s = Ok m) before
        \<and> (\<exists>e'. toValuesMap C bad = Err e' \<and> e = Wrapf ''converting to values map'' e'))"
proof -
  have "merge_sources C m sources = Err e \<longleftrightarrow>
     (\<exists>before bad rest. sources = before @ bad # rest
        \<and> list_all (\<lambda>s. \<exists>m. toValuesMap C s = Ok m) before
        \<and> (\<exists>e'. toValuesMap C bad = Err e' \<and> e = Wrapf ''converting to values map'' e'))" for m
  proof (induction sources arbitrary: m)
    case (Cons s sources)
    show ?case
      unfolding first_bad_Cons by (cases "toValuesMap C s") (auto simp: Cons.IH)
  qed simp
  moreover have "MergeHelmValues C sources = Err e \<longleftrightarrow> merge_sources C fmempty sources = Err e"
    by (cases "merge_sources C fmempty sources") (auto simp: MergeHelmValues_def)
  ultimately show ?thesis by (rule trans [rotated])
qed

end
