(* ===== verification/Upgrade_Config.thy ===== *)
theory Upgrade_Config
  imports Release_API Helm_Values
begin

text \<open>
  The upgrade configuration, after \<^verbatim>\<open>internal/upgrade/config.go\<close>: the structs that describe a
  whole upgrade, and the functions that build them from a resolved release manifest and the
  configuration a user gives in the Release resource. The manifest types of the elemental library
  and its image reference parser are modelled by the fields the source reads and by a parameter.
\<close>

section \<open>Manifest data\<close>

datatype dependency_type = DependencyTypeHelm | DependencyTypeOther string

record HelmChartDependency =
  dep_name :: string
  dep_type :: dependency_type

record HelmChart =
  hc_name :: string
  hc_chart :: string
  hc_version :: string
  hc_repository :: string
  hc_namespace :: string
  hc_values :: "gmap option"
  hc_depends_on :: "HelmChartDependency list"

record HelmRepository =
  repo_name :: string
  repo_url :: string

record Helm =
  helm_charts :: "HelmChart list"
  helm_repositories :: "HelmRepository list"

record ManifestKubernetes =
  mk_image :: string
  mk_version :: string

text \<open>\<open>core_os_image\<close> is \<open>Components.OperatingSystem.Image.Base\<close>; \<open>None\<close> is a nil
  \<open>OperatingSystem\<close> pointer.\<close>

record CoreManifest =
  core_os_image :: "string option"
  core_kubernetes :: "ManifestKubernetes option"
  core_helm :: "Helm option"

record SolutionManifest =
  solution_helm :: "Helm option"

record ResolvedManifest =
  rm_core :: "CoreManifest option"
  rm_solution :: "SolutionManifest option"

text \<open>What the source reads of a parsed tag reference: \<open>TagStr()\<close> and \<open>Context().Name()\<close>.\<close>

record ImageTag =
  tag_str :: string
  tag_context_name :: string

section \<open>Configuration structs\<close>

record DrainOpts =
  drain_control_plane :: bool
  drain_worker :: bool

record OSConfig =
  os_image :: string
  os_version :: string
  os_drain_opts :: "DrainOpts option"

record KubernetesConfig =
  k8s_image :: string
  k8s_version :: string
  k8s_drain_opts :: "DrainOpts option"

record RuntimeSecretValueSource =
  rsvs_name :: string
  rsvs_keys :: "string list"

record RuntimeHelmChartConfig =
  rc_values :: "string option"
  rc_secret_ref :: "RuntimeSecretValueSource option"

record HelmChartConfig =
  hcc_chart :: HelmChart
  hcc_repository :: "HelmRepository option"
  hcc_runtime :: RuntimeHelmChartConfig

record RuntimeConfig =
  rtc_drain_opts :: "DrainOpts option"
  rtc_helm_charts :: "(string, RuntimeHelmChartConfig) fmap"

record NamespacedName =
  nn_namespace :: string
  nn_name :: string

record Config =
  cfg_release :: NamespacedName
  cfg_release_version :: string
  cfg_os :: "OSConfig option"
  cfg_kubernetes :: "KubernetesConfig option"
  cfg_helm_charts :: "HelmChartConfig list"

definition no_runtime_config :: RuntimeHelmChartConfig where
  "no_runtime_config = \<lparr>rc_values = None, rc_secret_ref = None\<rparr>"

section \<open>BuildHelmChartConfig\<close>

text \<open>\<open>coreRepos\<close> and \<open>solutionRepos\<close>: a repository listed later under the same name wins.\<close>

definition repo_map :: "HelmRepository list \<Rightarrow> string \<Rightarrow> HelmRepository option" where
  "repo_map repos = foldl (\<lambda>m r. m(repo_name r \<mapsto> r)) Map.empty repos"

type_synonym build_state = "HelmChartConfig list \<times> string fset"

text \<open>One turn of the loop over the charts of a manifest: the state is the configurations built so
  far and the runtime charts not yet matched.\<close>

definition add_chart ::
  "(string \<Rightarrow> HelmRepository option) \<Rightarrow> (string, RuntimeHelmChartConfig) fmap \<Rightarrow> build_state
     \<Rightarrow> HelmChart \<Rightarrow> build_state" where
  "add_chart repos runtimeConfigs st chart =
     (let config = \<lparr>hcc_chart = chart, hcc_repository = repos (hc_repository chart),
                    hcc_runtime = no_runtime_config\<rparr>
      in case fmlookup runtimeConfigs (hc_chart chart) of
           Some rc \<Rightarrow> (fst st @ [config\<lparr>hcc_runtime := rc\<rparr>], snd st |-| {|hc_chart chart|})
         | None \<Rightarrow> (fst st @ [config], snd st))"

definition add_charts ::
  "Helm option \<Rightarrow> (string, RuntimeHelmChartConfig) fmap \<Rightarrow> build_state \<Rightarrow> build_state" where
  "add_charts helm runtimeConfigs st =
     (case helm of
        None \<Rightarrow> st
      | Some h \<Rightarrow> foldl (add_chart (repo_map (helm_repositories h)) runtimeConfigs) st (helm_charts h))"

text \<open>The nil slice returned when there is no chart is the empty list.\<close>

definition BuildHelmChartConfig ::
  "Helm option \<Rightarrow> Helm option \<Rightarrow> (string, RuntimeHelmChartConfig) fmap
     \<Rightarrow> HelmChartConfig list outcome" where
  "BuildHelmChartConfig core solution runtimeConfigs =
     (let (chartConfig, unprocessed) =
        add_charts solution runtimeConfigs
          (add_charts core runtimeConfigs ([], fmdom runtimeConfigs))
      in if unprocessed \<noteq> {||}
         then Err (RuntimeConfigError
                (''Unknown chart references: '' @ join_strings '', '' (sorted_list_of_fset unprocessed)))
         else Ok chartConfig)"

section \<open>NewConfig\<close>

text \<open>\<open>name.NewTag\<close> with weak validation is the parameter \<open>new_tag\<close>. A nil pointer the source
  dereferences without a check panics.\<close>

definition NewConfig ::
  "(string \<Rightarrow> ImageTag outcome) \<Rightarrow> ResolvedManifest option \<Rightarrow> string \<Rightarrow> NamespacedName
     \<Rightarrow> RuntimeConfig option \<Rightarrow> Config outcome" where
  "NewConfig new_tag manifest releaseVersion releaseNN runtimeConfig =
     (case manifest of
        None \<Rightarrow> Err (Errorf ''manifest is nil'')
      | Some m \<Rightarrow>
     (case rm_core m of
        None \<Rightarrow> Err (Errorf ''core platform manifest is required'')
      | Some core \<Rightarrow>
     (case core_os_image core of
        None \<Rightarrow> Panic ''nil operating system''
      | Some base \<Rightarrow>
     obind (owrap (''parsing OS image '' @ go_quote base) (new_tag base)) (\<lambda>ref.
     (case runtimeConfig of
        None \<Rightarrow> Panic ''nil runtime config''
      | Some rt \<Rightarrow>
     (case core_kubernetes core of
        None \<Rightarrow> Panic ''nil kubernetes''
      | Some k8s \<Rightarrow>
     (let solutionCharts =
        (case rm_solution m of None \<Rightarrow> None | Some s \<Rightarrow> solution_helm s)
      in obind
           (owrap ''parsing helm chart configuration''
             (BuildHelmChartConfig (core_helm core) solutionCharts (rtc_helm_charts rt)))
           (\<lambda>charts.
             Ok \<lparr>cfg_release = releaseNN,
                 cfg_release_version = releaseVersion,
                 cfg_os = Some \<lparr>os_image = base, os_version = tag_str ref,
                                os_drain_opts = rtc_drain_opts rt\<rparr>,
                 cfg_kubernetes = Some \<lparr>k8s_image = mk_image k8s, k8s_version = mk_version k8s,
                                        k8s_drain_opts = rtc_drain_opts rt\<rparr>,
                 cfg_helm_charts = charts\<rparr>))))))))"

section \<open>What the loops compute\<close>

definition chart_config_of ::
  "Helm \<Rightarrow> (string, RuntimeHelmChartConfig) fmap \<Rightarrow> HelmChart \<Rightarrow> HelmChartConfig" where
  "chart_config_of h rcs chart =
     \<lparr>hcc_chart = chart,
      hcc_repository = find (\<lambda>r. repo_name r = hc_repository chart) (rev (helm_repositories h)),
      hcc_runtime = (case fmlookup rcs (hc_chart chart) of Some rc \<Rightarrow> rc | None \<Rightarrow> no_runtime_config)\<rparr>"

definition chart_configs_of ::
  "Helm option \<Rightarrow> (string, RuntimeHelmChartConfig) fmap \<Rightarrow> HelmChartConfig list" where
  "chart_configs_of helm rcs =
     (case helm of None \<Rightarrow> [] | Some h \<Rightarrow> map (chart_config_of h rcs) (helm_charts h))"

definition chart_refs :: "Helm option \<Rightarrow> string fset" where
  "chart_refs helm = (case helm of None \<Rightarrow> {||} | Some h \<Rightarrow> fset_of_list (map hc_chart (helm_charts h)))"

lemma repo_map_eq_aux:
  "foldl (\<lambda>m r. m(repo_name r \<mapsto> r)) m0 repos n =
     (case find (\<lambda>r. repo_name r = n) (rev repos) of None \<Rightarrow> m0 n | Some r \<Rightarrow> Some r)"
  by (induction repos rule: rev_induct) auto

lemma repo_map_eq: "repo_map repos n = find (\<lambda>r. repo_name r = n) (rev repos)"
  unfolding repo_map_def repo_map_eq_aux by (simp split: option.split)

lemma add_chart_eq:
  "add_chart (repo_map (helm_repositories h)) rcs (cs, un) chart =
     (cs @ [chart_config_of h rcs chart],
      if hc_chart chart |\<in>| fmdom rcs then un |-| {|hc_chart chart|} else un)"
  by (auto simp: add_chart_def chart_config_of_def repo_map_eq fmdom_notI Let_def
      split: option.split intro: fmdomI)

lemma add_charts_loop:
  "un |\<subseteq>| fmdom rcs \<Longrightarrow>
     foldl (add_chart (repo_map (helm_repositories h)) rcs) (cs, un) charts =
       (cs @ map (chart_config_of h rcs) charts, un |-| fset_of_list (map hc_chart charts))"
proof (induction charts arbitrary: cs un)
  case Nil
  then show ?case by simp
next
  case (Cons chart charts)
  let ?step = "add_chart (repo_map (helm_repositories h)) rcs"
  have "hc_chart chart |\<notin>| fmdom rcs \<Longrightarrow> un |-| {|hc_chart chart|} = un"
    using Cons.prems by blast
  then have step: "?step (cs, un) chart = (cs @ [chart_config_of h rcs chart], un |-| {|hc_chart chart|})"
    by (simp add: add_chart_eq)
  have sub: "un |-| {|hc_chart chart|} |\<subseteq>| fmdom rcs"
    using Cons.prems by blast
  have "un |-| {|hc_chart chart|} |-| fset_of_list (map hc_chart charts)
      = un |-| fset_of_list (map hc_chart (chart # charts))"
    by auto
  then show ?case
    by (simp only: foldl_Cons step Cons.IH [OF sub] list.map append_assoc append_Cons append_Nil)
qed

lemma add_charts_eq:
  "un |\<subseteq>| fmdom rcs \<Longrightarrow>
     add_charts helm rcs (cs, un) = (cs @ chart_configs_of helm rcs, un |-| chart_refs helm)"
  by (cases helm) (auto simp: add_charts_def chart_configs_of_def chart_refs_def add_charts_loop)

lemma BuildHelmChartConfig_eq:
  "BuildHelmChartConfig core solution rcs =
     (let unknown = fmdom rcs |-| chart_refs core |-| chart_refs solution in
      if unknown = {||} then Ok (chart_configs_of core rcs @ chart_configs_of solution rcs)
      else Err (RuntimeConfigError
             (''Unknown chart references: '' @ join_strings '', '' (sorted_list_of_fset unknown))))"
proof -
  have "fmdom rcs |-| chart_refs core |\<subseteq>| fmdom rcs" by auto
  then show ?thesis
    by (simp add: BuildHelmChartConfig_def add_charts_eq Let_def)
qed

section \<open>Properties\<close>

text \<open>
  C40. The charts to reconcile are those of the core manifest followed by those of the solution, each
  with the last repository of its manifest that has its repository name and with the user's
  configuration of that chart; when the user configures a chart that neither manifest has, the
  result is a runtime configuration error naming exactly those charts, in sorted order.
\<close>

theorem BuildHelmChartConfig_spec:
  "BuildHelmChartConfig core solution rcs =
     (if fmdom rcs |\<subseteq>| chart_refs core |\<union>| chart_refs solution
      then Ok (chart_configs_of core rcs @ chart_configs_of solution rcs)
      else Err (RuntimeConfigError (''Unknown chart references: ''
             @ join_strings '', '' (sorted_list_of_fset
                 (fmdom rcs |-| (chart_refs core |\<union>| chart_refs solution))))))"
proof -
  have "fmdom rcs |-| chart_refs core |-| chart_refs solution
      = fmdom rcs |-| (chart_refs core |\<union>| chart_refs solution)" by blast
  moreover have "fmdom rcs |-| (chart_refs core |\<union>| chart_refs solution) = {||} \<longleftrightarrow>
      fmdom rcs |\<subseteq>| chart_refs core |\<union>| chart_refs solution" by blast
  ultimately show ?thesis by (simp add: BuildHelmChartConfig_eq Let_def)
qed

text \<open>
  Building the configuration reports a mistake of the user (a \<open>RuntimeConfigError\<close>, which the
  controller turns into the terminal reason ConfigInvalid) exactly when the user configured an
  unknown chart; errors of the manifest itself are not reported as such.
\<close>

theorem NewConfig_runtime_error:
  assumes "rm_core m = Some core" and "core_os_image core = Some base"
    and "core_kubernetes core = Some k8s"
    and "\<And>s e. new_tag s = Err e \<Longrightarrow> as_runtime_config_error e = None"
  shows "(\<exists>e. NewConfig new_tag (Some m) v nn (Some rt) = Err e \<and> as_runtime_config_error e \<noteq> None) \<longleftrightarrow>
     (\<exists>tag. new_tag base = Ok tag)
       \<and> \<not> fmdom (rtc_helm_charts rt) |\<subseteq>| chart_refs (core_helm core)
            |\<union>| chart_refs (Option.bind (rm_solution m) solution_helm)"
proof -
  have "(case rm_solution m of None \<Rightarrow> None | Some s \<Rightarrow> solution_helm s)
      = Option.bind (rm_solution m) solution_helm"
    by (cases "rm_solution m") simp_all
  moreover have "fmdom rcs |-| A |-| B = {||} \<longleftrightarrow> fmdom rcs |\<subseteq>| A |\<union>| B"
    for rcs :: "(string, RuntimeHelmChartConfig) fmap" and A B by blast
  ultimately show ?thesis
    using assms by (cases "new_tag base") (auto simp: NewConfig_def BuildHelmChartConfig_eq Let_def)
qed

definition witness_tag :: "string \<Rightarrow> ImageTag outcome" where
  "witness_tag s = Ok \<lparr>tag_str = ''1'', tag_context_name = s\<rparr>"

theorem NewConfig_runtime_error_witness:
  "\<exists>e. NewConfig witness_tag
     (Some \<lparr>rm_core = Some \<lparr>core_os_image = Some ''os'',
                core_kubernetes = Some \<lparr>mk_image = '''', mk_version = ''v1''\<rparr>, core_helm = None\<rparr>,
            rm_solution = None\<rparr>) ''1'' \<lparr>nn_namespace = ''ns'', nn_name = ''r''\<rparr>
     (Some \<lparr>rtc_drain_opts = None, rtc_helm_charts = fmap_of_list [(''x'', no_runtime_config)]\<rparr>) = Err e
     \<and> as_runtime_config_error e \<noteq> None"
  using NewConfig_runtime_error [of "\<lparr>rm_core = Some \<lparr>core_os_image = Some ''os'',
                core_kubernetes = Some \<lparr>mk_image = '''', mk_version = ''v1''\<rparr>, core_helm = None\<rparr>,
            rm_solution = None\<rparr>" _ "''os''" _ witness_tag "''1''" "\<lparr>nn_namespace = ''ns'', nn_name = ''r''\<rparr>"
      "\<lparr>rtc_drain_opts = None, rtc_helm_charts = fmap_of_list [(''x'', no_runtime_config)]\<rparr>"]
  by (simp add: witness_tag_def chart_refs_def)

end
