(* ===== verification/Pipeline.thy ===== *)
theory Pipeline
  imports Upgrade_Config
begin

text \<open>
  Upgrade phases and the pipeline that runs them, after \<^verbatim>\<open>internal/upgrade/phase.go\<close> and
  \<^verbatim>\<open>internal/upgrade/pipeline.go\<close>. A phase handler is an interface of the source: the record
  \<open>PhaseHandler\<close> here, with its contract in the locale \<open>phase_handler\<close>.
\<close>

section \<open>Phases\<close>

type_synonym phase = string

definition PhaseLCM :: phase where
  "PhaseLCM = trim_suffix ConditionLCMUpgraded ''Upgraded''"

definition PhaseOS :: phase where
  "PhaseOS = trim_suffix ConditionOSUpgraded ''Upgraded''"

definition PhaseKubernetes :: phase where
  "PhaseKubernetes = trim_suffix ConditionKubernetesUpgraded ''Upgraded''"

definition PhaseHelmCharts :: phase where
  "PhaseHelmCharts = trim_suffix ConditionHelmChartsUpgraded ''Upgraded''"

lemmas phases = PhaseLCM_def PhaseOS_def PhaseKubernetes_def PhaseHelmCharts_def

definition ConditionType :: "phase \<Rightarrow> string" where
  "ConditionType p = p @ ''Upgraded''"

record PhaseStatus =
  ps_state :: string
  ps_message :: string

definition SkippedStatus :: "phase \<Rightarrow> PhaseStatus" where
  "SkippedStatus p =
     \<lparr>ps_state = UpgradeSkipped, ps_message = ''Upgrade for phase '' @ go_quote p @ '' skipped''\<rparr>"

text \<open>The condition type of a phase constant is the constant it was cut from.\<close>

lemma ConditionType_phases [simp]:
  "ConditionType PhaseLCM = ConditionLCMUpgraded"
  "ConditionType PhaseOS = ConditionOSUpgraded"
  "ConditionType PhaseKubernetes = ConditionKubernetesUpgraded"
  "ConditionType PhaseHelmCharts = ConditionHelmChartsUpgraded"
  by (simp_all add: ConditionType_def phases condition_types trim_suffix_def)

lemma inj_ConditionType: "ConditionType p = ConditionType q \<longleftrightarrow> p = q"
  by (simp add: ConditionType_def)

section \<open>Results\<close>

type_synonym phase_states = "(phase, PhaseStatus) fmap"

definition status_complete :: "PhaseStatus \<Rightarrow> bool" where
  "status_complete s \<longleftrightarrow> ps_state s = UpgradeSucceeded \<or> ps_state s = UpgradeSkipped"

text \<open>\<open>AllComplete\<close>: every recorded phase has succeeded or was skipped. The loop over the map
  returns at the first phase that has not, in whatever order the map is walked.\<close>

definition AllComplete :: "phase_states \<Rightarrow> bool" where
  "AllComplete states \<longleftrightarrow> fmpred (\<lambda>_ s. status_complete s) states"

section \<open>The pipeline\<close>

record 'w PhaseHandler =
  ph_phase :: phase
  ph_reconcile :: "Config option \<Rightarrow> ('w, PhaseStatus) io"

text \<open>
  \<open>Pipeline.Reconcile\<close> returns the states recorded so far next to its error, so its result is a pair.
\<close>

fun run_handlers ::
  "'w PhaseHandler list \<Rightarrow> Config option \<Rightarrow> phase_states \<Rightarrow> ('w, phase_states \<times> unit outcome) state" where
  "run_handlers [] config states = State_Monad.return (states, Ok ())"
| "run_handlers (h # hs) config states =
     State_Monad.bind (ph_reconcile h config) (\<lambda>r. case r of
        Err e \<Rightarrow> State_Monad.return (states, Err (PhaseError (ph_phase h) e))
      | Panic p \<Rightarrow> State_Monad.return (states, Panic p)
      | Ok status \<Rightarrow>
          (let states' = fmupd (ph_phase h) status states in
           if ps_state status \<noteq> UpgradeSucceeded \<and> ps_state status \<noteq> UpgradeSkipped
           then State_Monad.return (states', Ok ())
           else run_handlers hs config states'))"

definition Pipeline_Reconcile ::
  "'w PhaseHandler list \<Rightarrow> Config option \<Rightarrow> ('w, phase_states \<times> unit outcome) state" where
  "Pipeline_Reconcile handlers config =
     (case config of
        None \<Rightarrow> State_Monad.return (fmempty, Err (Errorf ''upgrade config is nil''))
      | Some _ \<Rightarrow> run_handlers handlers config fmempty)"

definition Phases :: "'w PhaseHandler list \<Rightarrow> phase list" where
  "Phases handlers = map ph_phase handlers"

section \<open>The contract of a phase handler\<close>

text \<open>
  The states that may reach a condition of the Release. \<open>PlanComplete\<close> and
  \<open>PackagedComponentsAvailable\<close> are reports between reconcilers, and a handler must not pass them on.
\<close>

definition reported_states :: "string set" where
  "reported_states = {UpgradeInProgress, UpgradeSkipped, UpgradeSucceeded, UpgradeFailed}"

lemma reported_states [simp, intro]:
  "UpgradeInProgress \<in> reported_states" "UpgradeSkipped \<in> reported_states"
  "UpgradeSucceeded \<in> reported_states" "UpgradeFailed \<in> reported_states"
  "ps_state (SkippedStatus p) \<in> reported_states"
  by (simp_all add: reported_states_def SkippedStatus_def)

locale phase_handler =
  fixes handler :: "'w PhaseHandler"
  assumes reported: "returns (ph_reconcile handler config) (\<lambda>s. ps_state s \<in> reported_states)"
    and skips_nil_config: "ph_reconcile handler None = ok (SkippedStatus (ph_phase handler))"

text \<open>A pipeline of such handlers, one per phase.\<close>

locale pipeline_handlers =
  fixes handlers :: "'w PhaseHandler list"
  assumes contract: "h \<in> set handlers \<Longrightarrow> phase_handler h"
    and one_per_phase: "distinct (map ph_phase handlers)"

section \<open>Running the handlers\<close>

text \<open>
  A run seen from outside: the prefix of handlers that were called, each with the status it
  returned. \<open>handler_trace\<close> is a specification, used in the statements about the pipeline.
\<close>

fun handler_trace ::
  "'w PhaseHandler list \<Rightarrow> Config option \<Rightarrow> 'w \<Rightarrow> (phase \<times> PhaseStatus outcome) list" where
  "handler_trace [] config w = []"
| "handler_trace (h # hs) config w =
     (case run_state (ph_reconcile h config) w of
        (r, w') \<Rightarrow> (ph_phase h, r) #
          (case r of Ok s \<Rightarrow> if status_complete s then handler_trace hs config w' else [] | _ \<Rightarrow> []))"

definition recorded :: "(phase \<times> PhaseStatus outcome) list \<Rightarrow> (phase \<times> PhaseStatus) list" where
  "recorded tr = List.map_filter (\<lambda>(p, r). case r of Ok s \<Rightarrow> Some (p, s) | _ \<Rightarrow> None) tr"

lemma recorded_simps [simp]:
  "recorded [] = []"
  "recorded ((p, Ok s) # tr) = (p, s) # recorded tr"
  "recorded ((p, Err e) # tr) = recorded tr"
  "recorded ((p, Panic q) # tr) = recorded tr"
  by (simp_all add: recorded_def List.map_filter_def)

lemma run_handlers_states:
  "fst (fst (run_state (run_handlers hs config states) w)) =
     foldl (\<lambda>m (p, s). fmupd p s m) states (recorded (handler_trace hs config w))"
proof (induction hs config states arbitrary: w rule: run_handlers.induct)
  case (2 h hs config states)
  then show ?case
    by (auto simp: Let_def status_complete_def split: prod.splits outcome.splits)
qed simp

lemma handler_trace_phases:
  "\<exists>n. map fst (handler_trace hs config w) = map ph_phase (take n hs)"
proof (induction hs arbitrary: w)
  case Nil
  then show ?case by simp
next
  case (Cons h hs)
  obtain r w' where r: "run_state (ph_reconcile h config) w = (r, w')" by fastforce
  show ?case
  proof (cases "\<exists>s. r = Ok s \<and> status_complete s")
    case True
    obtain n where "map fst (handler_trace hs config w') = map ph_phase (take n hs)"
      using Cons.IH by blast
    then show ?thesis using r True by (auto intro!: exI [of _ "Suc n"])
  next
    case False
    then show ?thesis using r by (auto intro!: exI [of _ 1] split: outcome.splits)
  qed
qed

lemma handler_trace_before_last:
  assumes "i + 1 < length (handler_trace hs config w)"
  shows "\<exists>s. snd (handler_trace hs config w ! i) = Ok s \<and> status_complete s"
  using assms
proof (induction hs arbitrary: w i)
  case Nil
  then show ?case by simp
next
  case (Cons h hs)
  obtain r w' where r: "run_state (ph_reconcile h config) w = (r, w')" by fastforce
  show ?case
    using Cons.prems Cons.IH [of "i - 1" w'] r
    by (cases i) (auto split: outcome.splits if_splits)
qed

definition phase_complete :: "phase_states \<Rightarrow> phase \<Rightarrow> bool" where
  "phase_complete states p \<longleftrightarrow> (\<exists>s. fmlookup states p = Some s \<and> status_complete s)"

text \<open>
  How a run of the pipeline ends after \<open>n\<close> recorded phases: with no error, when every handler ran or
  the last recorded phase is not complete; with an error or a panic of the next handler.
\<close>

definition run_ends :: "'w PhaseHandler list \<Rightarrow> nat \<Rightarrow> phase_states \<Rightarrow> unit outcome \<Rightarrow> bool" where
  "run_ends hs n states res \<longleftrightarrow>
     (case res of
        Ok _ \<Rightarrow> n = length hs \<or> 0 < n \<and> \<not> phase_complete states (Phases hs ! (n - 1))
      | Err e \<Rightarrow> n < length hs \<and> AllComplete states \<and> (\<exists>e'. e = PhaseError (Phases hs ! n) e')
      | Panic _ \<Rightarrow> n < length hs \<and> AllComplete states)"

lemma AllComplete_fmupd:
  "AllComplete states \<Longrightarrow> status_complete s \<Longrightarrow> AllComplete (fmupd p s states)"
  by (auto simp: AllComplete_def fmpred_iff split: if_splits)

text \<open>\<open>ends_at hs states0 n states res\<close>: the handlers \<open>hs\<close>, started with \<open>states0\<close>, ended after \<open>n\<close> of them.\<close>

definition ends_at :: "'w PhaseHandler list \<Rightarrow> phase_states \<Rightarrow> nat \<Rightarrow> phase_states \<Rightarrow> unit outcome \<Rightarrow> bool" where
  "ends_at hs states0 n states res \<longleftrightarrow> n \<le> length hs
     \<and> fmdom states = fmdom states0 |\<union>| fset_of_list (take n (Phases hs))
     \<and> (\<forall>i. i + 1 < n \<longrightarrow> phase_complete states (Phases hs ! i)) \<and> run_ends hs n states res
     \<and> (\<forall>p. p \<notin> set (Phases hs) \<longrightarrow> fmlookup states p = fmlookup states0 p)"

lemma ends_at_Cons:
  assumes "ends_at hs (fmupd (ph_phase h) s states0) n states res" and "status_complete s"
    and "ph_phase h \<notin> set (Phases hs)"
  shows "ends_at (h # hs) states0 (Suc n) states res"
proof -
  have first: "phase_complete states (ph_phase h)"
    using assms by (simp add: ends_at_def phase_complete_def)
  have "run_ends (h # hs) (Suc n) states res"
    using assms(1) first by (cases n) (auto simp: ends_at_def run_ends_def Phases_def split: outcome.splits)
  moreover have "\<forall>i. i + 1 < Suc n \<longrightarrow> phase_complete states (Phases (h # hs) ! i)"
    using assms(1) first by (auto simp: ends_at_def Phases_def nth_Cons split: nat.split)
  ultimately show ?thesis using assms(1) by (auto simp: ends_at_def Phases_def)
qed

lemma ends_at_first:
  assumes "\<not> status_complete s"
  shows "ends_at (h # hs) states0 1 (fmupd (ph_phase h) s states0) (Ok ())"
  using assms by (auto simp: ends_at_def Phases_def run_ends_def phase_complete_def)

lemma run_handlers_ends_at:
  assumes "distinct (Phases hs)" and "AllComplete states0"
    and "fset_of_list (Phases hs) |\<inter>| fmdom states0 = {||}"
    and "run_state (run_handlers hs config states0) w = ((states, res), w')"
  shows "\<exists>n. ends_at hs states0 n states res"
  using assms
proof (induction hs arbitrary: states0 w)
  case Nil
  then show ?case by (auto simp: ends_at_def run_ends_def)
next
  case (Cons h hs)
  obtain r w1 where r: "run_state (ph_reconcile h config) w = (r, w1)" by fastforce
  have disj: "fset_of_list (Phases hs) |\<inter>| fmdom states0 = {||}"
    and distinct: "ph_phase h \<notin> set (Phases hs)" "distinct (Phases hs)"
    using Cons.prems by (auto simp: Phases_def fset_of_list_elem)
  show ?case
  proof (cases r)
    case (Ok s)
    let ?states1 = "fmupd (ph_phase h) s states0"
    show ?thesis
    proof (cases "status_complete s")
      case True
      have "run_state (run_handlers hs config ?states1) w1 = ((states, res), w')"
        using Cons.prems(4) r Ok True by (auto simp: status_complete_def Let_def)
      moreover have "fset_of_list (Phases hs) |\<inter>| fmdom ?states1 = {||}"
        using disj distinct(1) by (auto simp: fset_of_list_elem)
      ultimately obtain n where "ends_at hs ?states1 n states res"
        using Cons.IH [OF distinct(2) AllComplete_fmupd [OF Cons.prems(2) True]] by blast
      from ends_at_Cons [OF this True distinct(1)] show ?thesis by blast
    next
      case False
      then have "states = ?states1" "res = Ok ()"
        using r Ok Cons.prems(4) by (auto simp: status_complete_def Let_def)
      with ends_at_first [OF False] show ?thesis by blast
    qed
  qed (use r Cons.prems(2,4) in \<open>auto simp: ends_at_def run_ends_def Phases_def intro!: exI [of _ 0]\<close>)
qed

lemmas run_handlers_ends = run_handlers_ends_at [unfolded ends_at_def]

lemma run_handlers_reported:
  assumes "\<And>h. h \<in> set hs \<Longrightarrow> phase_handler h"
    and "fmpred (\<lambda>_ s. ps_state s \<in> reported_states) states0"
    and "run_state (run_handlers hs config states0) w = ((states, res), w')"
  shows "fmpred (\<lambda>_ s. ps_state s \<in> reported_states) states"
  using assms
proof (induction hs arbitrary: states0 w)
  case Nil
  then show ?case by simp
next
  case (Cons h hs)
  obtain r w1 where r: "run_state (ph_reconcile h config) w = (r, w1)" by fastforce
  have "phase_handler h" by (rule Cons.prems(1)) simp
  then have contract: "returns (ph_reconcile h config) (\<lambda>s. ps_state s \<in> reported_states)"
    by (rule phase_handler.reported)
  show ?case
  proof (cases r)
    case (Ok s)
    have "ps_state s \<in> reported_states"
      using returnsD [OF contract] r Ok by blast
    then have first: "fmpred (\<lambda>_ s. ps_state s \<in> reported_states) (fmupd (ph_phase h) s states0)"
      using Cons.prems(2) by (simp add: fmpred_upd)
    show ?thesis
    proof (cases "status_complete s")
      case True
      then have "run_state (run_handlers hs config (fmupd (ph_phase h) s states0)) w1 = ((states, res), w')"
        using Cons.prems(3) r Ok by (auto simp: status_complete_def Let_def)
      then show ?thesis using Cons.IH [OF _ first] Cons.prems(1) by simp
    next
      case False
      then have "states = fmupd (ph_phase h) s states0"
        using Cons.prems(3) r Ok by (auto simp: status_complete_def Let_def)
      with first show ?thesis by simp
    qed
  qed (use Cons.prems(2,3) r in auto)
qed

context pipeline_handlers
begin

lemma reports_only:
  assumes "run_state (Pipeline_Reconcile handlers config) w = ((states, res), w')"
  shows "fmpred (\<lambda>_ s. ps_state s \<in> reported_states) states"
  using assms run_handlers_reported [OF contract, of handlers fmempty]
  by (cases config) (auto simp: Pipeline_Reconcile_def)

lemma ends:
  assumes "run_state (Pipeline_Reconcile handlers (Some cfg)) w = ((states, res), w')"
  shows "\<exists>n \<le> length handlers. fmdom states = fset_of_list (take n (Phases handlers))
     \<and> (\<forall>i. i + 1 < n \<longrightarrow> phase_complete states (Phases handlers ! i))
     \<and> run_ends handlers n states res"
  using run_handlers_ends [of handlers fmempty "Some cfg" w states res w'] assms one_per_phase
  by (auto simp: Pipeline_Reconcile_def AllComplete_def Phases_def)

text \<open>The controller's two questions agree: every phase of the pipeline is recorded and complete
  exactly when there is no error, all recorded phases are complete and every phase is recorded.\<close>

lemma all_recorded:
  assumes "run_state (Pipeline_Reconcile handlers (Some cfg)) w = ((states, Ok ()), w')"
    and "AllComplete states" and "p \<in> set (Phases handlers)"
  shows "phase_complete states p"
proof -
  obtain n where n: "n \<le> length handlers" "fmdom states = fset_of_list (take n (Phases handlers))"
    "run_ends handlers n states (Ok ())"
    using ends [OF assms(1)] by blast
  have dom: "phase_complete states p" if "p \<in> set (take n (Phases handlers))" for p
  proof -
    from that have "p |\<in>| fmdom states" by (simp add: n(2) fset_of_list_elem)
    then show ?thesis
      using assms(2) by (auto simp: phase_complete_def AllComplete_def fmpred_iff fmlookup_dom_iff)
  qed
  have "n = length handlers"
  proof (rule ccontr)
    assume "n \<noteq> length handlers"
    with n(3) have last: "0 < n" "\<not> phase_complete states (Phases handlers ! (n - 1))"
      by (auto simp: run_ends_def)
    have "Phases handlers ! (n - 1) \<in> set (take n (Phases handlers))"
      using last(1) n(1) by (auto simp: in_set_conv_nth Phases_def intro!: exI [of _ "n - 1"])
    with dom last(2) show False by blast
  qed
  with dom assms(3) show ?thesis by (simp add: Phases_def)
qed

end

section \<open>Properties\<close>

text \<open>
  C5. The pipeline runs the phases in order and goes on to a phase only when every phase before it
  has succeeded or was skipped: the recorded phases are a prefix of the pipeline, all but the last are
  complete, and the run stops at the first phase that is not complete (no error), that fails (a
  \<open>PhaseError\<close> naming that phase), or at the end.
\<close>

theorem Pipeline_Reconcile_order:
  assumes "distinct (Phases hs)"
    and "run_state (Pipeline_Reconcile hs (Some cfg)) w = ((states, res), w')"
  shows "\<exists>n \<le> length hs. fmdom states = fset_of_list (take n (Phases hs))
     \<and> (\<forall>i. i + 1 < n \<longrightarrow> phase_complete states (Phases hs ! i)) \<and> run_ends hs n states res"
  using run_handlers_ends [OF assms(1), of fmempty "Some cfg" w states res w'] assms(2)
  by (auto simp: Pipeline_Reconcile_def AllComplete_def)

theorem Pipeline_Reconcile_order_witness:
  "\<exists>n \<le> 2. fmdom (fmupd PhaseOS \<lparr>ps_state = UpgradeInProgress, ps_message = []\<rparr> fmempty)
     = fset_of_list (take n [PhaseOS, PhaseKubernetes])"
proof -
  let ?hs = "[\<lparr>ph_phase = PhaseOS, ph_reconcile = (\<lambda>_. ok \<lparr>ps_state = UpgradeInProgress, ps_message = []\<rparr>)\<rparr>,
      \<lparr>ph_phase = PhaseKubernetes, ph_reconcile = (\<lambda>_. raise (Errorf []))\<rparr>] :: unit PhaseHandler list"
  have "ConditionType PhaseOS \<noteq> ConditionType PhaseKubernetes" unfolding ConditionType_phases by (simp add: condition_types)
  then have "distinct (Phases ?hs)" unfolding inj_ConditionType by (simp add: Phases_def)
  moreover have "run_state (Pipeline_Reconcile ?hs (Some cfg)) () =
      ((fmupd PhaseOS \<lparr>ps_state = UpgradeInProgress, ps_message = []\<rparr> fmempty, Ok ()), ())" for cfg
    by (simp add: Pipeline_Reconcile_def Let_def upgrade_states)
  ultimately obtain n where "n \<le> length ?hs"
    "fmdom (fmupd PhaseOS \<lparr>ps_state = UpgradeInProgress, ps_message = []\<rparr> fmempty)
       = fset_of_list (take n (Phases ?hs))"
    using Pipeline_Reconcile_order [of ?hs] by blast
  then show ?thesis by (intro exI [of _ n]) (simp add: Phases_def)
qed

end
