(* ===== verification/Kube_Client.thy ===== *)
theory Kube_Client
  imports Upgrade_Config
begin

text \<open>
  The world outside the controller as the source sees it: the Kubernetes and Helm resources, by the
  fields the source reads and writes, and the clients it calls, which are parameters of the model
  (the records \<open>kube\<close> and \<open>helm_client\<close>). Nothing is assumed of a client here: it may fail at any
  call, and other controllers may change the cluster between two calls. \<open>StorageClient\<close> is
  \<^verbatim>\<open>internal/helm/helm.go\<close>. The last section wraps a client so that it logs its calls; the
  theorems about the order of operations are stated over such a log.
\<close>

section \<open>Resources\<close>

type_synonym labels = "string \<Rightarrow> string option"

text \<open>A point in time; \<open>0\<close> is Go's zero time.\<close>

type_synonym go_time = int

datatype selector_operator = LabelSelectorOpExists | LabelSelectorOpDoesNotExist

record LabelSelectorRequirement =
  lsr_key :: string
  lsr_operator :: selector_operator

record DrainSpec =
  ds_timeout :: string
  ds_delete_emptydir_data :: bool
  ds_ignore_daemon_sets :: bool
  ds_force :: bool

record ContainerSpec =
  cs_image :: string
  cs_command :: "string list"
  cs_args :: "string list"

text \<open>Condition types are library constants; the source only tells them apart.\<close>

datatype plan_condition_type = PlanConditionComplete | PlanConditionOther string

record PlanCondition =
  pc_type :: plan_condition_type
  pc_status :: condition_status
  pc_reason :: string
  pc_message :: string

record Plan =
  plan_kind :: string
  plan_api_version :: string
  plan_name :: string
  plan_namespace :: string
  plan_labels :: labels
  plan_service_account :: string
  plan_version :: string
  plan_concurrency :: int
  plan_node_selector :: "LabelSelectorRequirement list option"
  plan_cordon :: bool
  plan_drain :: "DrainSpec option"
  plan_prepare :: "ContainerSpec option"
  plan_upgrade :: "ContainerSpec option"
  plan_applying :: "string list"
  plan_conditions :: "PlanCondition list"

datatype node_condition_type = NodeReady | NodeConditionOther string

record Node =
  node_name :: string
  node_labels :: labels
  node_unschedulable :: bool
  node_kubelet_version :: string
  node_conditions :: "(node_condition_type \<times> condition_status) list"

datatype job_condition_type = JobComplete | JobFailed | JobConditionOther string

record Job =
  job_conditions :: "(job_condition_type \<times> condition_status) list"
  job_completion_time :: "go_time option"

record SecretSpec =
  ss_name :: string
  ss_keys :: "string list"

record HelmChartResource =
  hcr_kind :: string
  hcr_api_version :: string
  hcr_name :: string
  hcr_namespace :: string
  hcr_labels :: labels
  hcr_annotations :: labels
  hcr_version :: string
  hcr_chart :: string
  hcr_repo :: string
  hcr_target_namespace :: string
  hcr_backoff_limit :: "int option"
  hcr_values_content :: string
  hcr_values :: "string option"
  hcr_values_secrets :: "SecretSpec list"
  hcr_chart_content :: string
  hcr_job_name :: string
  hcr_conditions :: "(string \<times> condition_status) list"

record ConfigMap =
  cm_name :: string
  cm_namespace :: string
  cm_labels :: labels
  cm_annotations :: labels
  cm_data :: "(string, string) fmap"
  cm_creation_timestamp :: go_time
  cm_deletion_timestamp :: "go_time option"

record Secret =
  secret_data :: "(string, string) fmap"

record ReleaseInfo =
  ri_chart_version :: string
  ri_namespace :: string
  ri_config :: "gmap option"
  ri_revisions :: int

section \<open>Clients\<close>

datatype node_query = AllNodes | LimitNodes nat | SelectedNodes string

text \<open>
  \<open>client.Client\<close>, one field per kind of call the source makes. A \<open>Create\<close> returns the object as
  the server filled it in, since the client writes it back into the argument. \<open>label_selector\<close> is
  \<open>metav1.LabelSelectorAsSelector\<close>, a selector being its printed form.
\<close>

record 'w kube =
  get_release :: "NamespacedName \<Rightarrow> ('w, Release) io"
  list_releases :: "('w, Release list) io"
  update_release_status :: "Release \<Rightarrow> ('w, unit) io"
  get_plan :: "NamespacedName \<Rightarrow> ('w, Plan) io"
  create_plan :: "Plan \<Rightarrow> ('w, Plan) io"
  list_plans :: "string \<Rightarrow> labels \<Rightarrow> ('w, Plan list) io"
  delete_plan :: "Plan \<Rightarrow> ('w, unit) io"
  get_helm_chart :: "NamespacedName \<Rightarrow> ('w, HelmChartResource) io"
  create_helm_chart :: "HelmChartResource \<Rightarrow> ('w, unit) io"
  update_helm_chart :: "HelmChartResource \<Rightarrow> ('w, unit) io"
  list_helm_charts :: "string \<Rightarrow> ('w, HelmChartResource list) io"
  get_job :: "NamespacedName \<Rightarrow> ('w, Job) io"
  get_config_map :: "NamespacedName \<Rightarrow> ('w, ConfigMap) io"
  create_config_map :: "ConfigMap \<Rightarrow> ('w, unit) io"
  update_config_map :: "ConfigMap \<Rightarrow> ('w, unit) io"
  delete_config_map :: "ConfigMap \<Rightarrow> ('w, unit) io"
  get_secret :: "NamespacedName \<Rightarrow> ('w, Secret) io"
  list_nodes :: "node_query \<Rightarrow> ('w, Node list) io"
  label_selector :: "LabelSelectorRequirement list option \<Rightarrow> string outcome"

record 'w helm_client =
  RetrieveRelease :: "string \<Rightarrow> ('w, ReleaseInfo) io"

section \<open>The Helm storage client\<close>

record StoredRelease =
  sr_chart_version :: string
  sr_namespace :: string
  sr_config :: "gmap option"
  sr_version :: int

text \<open>What \<open>Storage.Last\<close> returns: a release of the supported type, or something of another type.\<close>

datatype storage_release = V1Release StoredRelease | OtherRelease string

definition StorageClient_RetrieveRelease ::
  "(string \<Rightarrow> ('w, storage_release) io) \<Rightarrow> string \<Rightarrow> ('w, ReleaseInfo) io" where
  "StorageClient_RetrieveRelease last_release name =
     attempt (last_release name) (\<lambda>rel. case rel of
        OtherRelease t \<Rightarrow> raise (Errorf (''unexpected release type: '' @ t))
      | V1Release release \<Rightarrow>
          ok \<lparr>ri_chart_version = sr_chart_version release,
              ri_namespace = sr_namespace release,
              ri_config = sr_config release,
              ri_revisions = sr_version release\<rparr>)"

definition StorageClient :: "(string \<Rightarrow> ('w, storage_release) io) \<Rightarrow> 'w helm_client" where
  "StorageClient last_release = \<lparr>RetrieveRelease = StorageClient_RetrieveRelease last_release\<rparr>"

section \<open>Logged clients\<close>

text \<open>The calls that the ordering theorems speak of, each with what it returned.\<close>

datatype event =
    GetPlan NamespacedName "Plan outcome"
  | CreatePlan Plan "Plan outcome"
  | DeletePlan Plan "unit outcome"
  | ListNodes node_query "Node list outcome"
  | CreateHelmChart HelmChartResource "unit outcome"
  | UpdateHelmChart HelmChartResource "unit outcome"
  | CreateConfigMap ConfigMap "unit outcome"
  | UpdateConfigMap ConfigMap "unit outcome"
  | DeleteConfigMap ConfigMap "unit outcome"
  | UpdateReleaseStatus Release "unit outcome"

type_synonym 'w logged = "'w \<times> event list"

definition quiet :: "('w, 'a) io \<Rightarrow> ('w logged, 'a) io" where
  "quiet m = State (\<lambda>(w, evs). case run_state m w of (r, w') \<Rightarrow> (r, (w', evs)))"

definition noted :: "('a outcome \<Rightarrow> event) \<Rightarrow> ('w, 'a) io \<Rightarrow> ('w logged, 'a) io" where
  "noted ev m = State (\<lambda>(w, evs). case run_state m w of (r, w') \<Rightarrow> (r, (w', evs @ [ev r])))"

lemma run_quiet [run_simps]:
  "run_state (quiet m) (w, evs) = (case run_state m w of (r, w') \<Rightarrow> (r, (w', evs)))"
  by (simp add: quiet_def)

lemma run_noted [run_simps]:
  "run_state (noted ev m) (w, evs) = (case run_state m w of (r, w') \<Rightarrow> (r, (w', evs @ [ev r])))"
  by (simp add: noted_def)

definition logged_kube :: "'w kube \<Rightarrow> 'w logged kube" where
  "logged_kube K =
     \<lparr>get_release = (\<lambda>n. quiet (get_release K n)),
      list_releases = quiet (list_releases K),
      update_release_status = (\<lambda>r. noted (UpdateReleaseStatus r) (update_release_status K r)),
      get_plan = (\<lambda>n. noted (GetPlan n) (get_plan K n)),
      create_plan = (\<lambda>p. noted (CreatePlan p) (create_plan K p)),
      list_plans = (\<lambda>ns ls. quiet (list_plans K ns ls)),
      delete_plan = (\<lambda>p. noted (DeletePlan p) (delete_plan K p)),
      get_helm_chart = (\<lambda>n. quiet (get_helm_chart K n)),
      create_helm_chart = (\<lambda>c. noted (CreateHelmChart c) (create_helm_chart K c)),
      update_helm_chart = (\<lambda>c. noted (UpdateHelmChart c) (update_helm_chart K c)),
      list_helm_charts = (\<lambda>ns. quiet (list_helm_charts K ns)),
      get_job = (\<lambda>n. quiet (get_job K n)),
      get_config_map = (\<lambda>n. quiet (get_config_map K n)),
      create_config_map = (\<lambda>c. noted (CreateConfigMap c) (create_config_map K c)),
      update_config_map = (\<lambda>c. noted (UpdateConfigMap c) (update_config_map K c)),
      delete_config_map = (\<lambda>c. noted (DeleteConfigMap c) (delete_config_map K c)),
      get_secret = (\<lambda>n. quiet (get_secret K n)),
      list_nodes = (\<lambda>q. noted (ListNodes q) (list_nodes K q)),
      label_selector = label_selector K\<rparr>"

lemma logged_kube_simps [simp]:
  "get_release (logged_kube K) n = quiet (get_release K n)"
  "list_releases (logged_kube K) = quiet (list_releases K)"
  "update_release_status (logged_kube K) r = noted (UpdateReleaseStatus r) (update_release_status K r)"
  "get_plan (logged_kube K) n = noted (GetPlan n) (get_plan K n)"
  "create_plan (logged_kube K) p = noted (CreatePlan p) (create_plan K p)"
  "list_plans (logged_kube K) ns ls = quiet (list_plans K ns ls)"
  "delete_plan (logged_kube K) p = noted (DeletePlan p) (delete_plan K p)"
  "get_helm_chart (logged_kube K) n = quiet (get_helm_chart K n)"
  "create_helm_chart (logged_kube K) c = noted (CreateHelmChart c) (create_helm_chart K c)"
  "update_helm_chart (logged_kube K) c = noted (UpdateHelmChart c) (update_helm_chart K c)"
  "list_helm_charts (logged_kube K) ns = quiet (list_helm_charts K ns)"
  "get_job (logged_kube K) n = quiet (get_job K n)"
  "get_config_map (logged_kube K) n = quiet (get_config_map K n)"
  "create_config_map (logged_kube K) cm = noted (CreateConfigMap cm) (create_config_map K cm)"
  "update_config_map (logged_kube K) cm = noted (UpdateConfigMap cm) (update_config_map K cm)"
  "delete_config_map (logged_kube K) cm = noted (DeleteConfigMap cm) (delete_config_map K cm)"
  "get_secret (logged_kube K) n = quiet (get_secret K n)"
  "list_nodes (logged_kube K) q = noted (ListNodes q) (list_nodes K q)"
  "label_selector (logged_kube K) = label_selector K"
  by (simp_all add: logged_kube_def)

text \<open>
  What a call appends to the log, together with what it returns. The rules below follow the
  structure of a call, so that the log of a reconciler is the concatenation of the logs of its steps.
\<close>

definition emits :: "('w logged, 'a) state \<Rightarrow> ('a \<Rightarrow> event list \<Rightarrow> bool) \<Rightarrow> bool" where
  "emits m P \<longleftrightarrow>
     (\<forall>w evs r w' evs'. run_state m (w, evs) = (r, (w', evs')) \<longrightarrow> (\<exists>new. evs' = evs @ new \<and> P r new))"

lemma emitsI:
  "(\<And>w evs r w' evs'. run_state m (w, evs) = (r, (w', evs')) \<Longrightarrow> \<exists>new. evs' = evs @ new \<and> P r new)
     \<Longrightarrow> emits m P"
  unfolding emits_def by blast

lemma emitsD:
  "emits m P \<Longrightarrow> run_state m (w, evs) = (r, (w', evs')) \<Longrightarrow> \<exists>new. evs' = evs @ new \<and> P r new"
  unfolding emits_def by blast

lemma emits_mono: "emits m P \<Longrightarrow> (\<And>r new. P r new \<Longrightarrow> Q r new) \<Longrightarrow> emits m Q"
  unfolding emits_def by blast

lemma emits_simple:
  "P (Ok a) [] \<Longrightarrow> emits (ok a) P"
  "P (Err e) [] \<Longrightarrow> emits (raise e) P"
  "P (Panic p) [] \<Longrightarrow> emits (panic p) P"
  "P r [] \<Longrightarrow> emits (pure_call r) P"
  by (simp_all add: emits_def)

lemma emits_quiet: "(\<And>r. P r []) \<Longrightarrow> emits (quiet m) P"
  by (auto simp: emits_def run_quiet split: prod.splits)

lemma emits_noted: "(\<And>r. P r [ev r]) \<Longrightarrow> emits (noted ev m) P"
  by (auto simp: emits_def run_noted split: prod.splits)

lemma emits_handle:
  assumes m: "emits m (\<lambda>r n1. case r of
        Ok a \<Rightarrow> emits (f a) (\<lambda>r n2. R r (n1 @ n2))
      | Err e \<Rightarrow> emits (h e) (\<lambda>r n2. R r (n1 @ n2))
      | Panic p \<Rightarrow> R (Panic p) n1)"
  shows "emits (handle m h f) R"
proof (rule emitsI)
  fix w evs r w' evs'
  assume run: "run_state (handle m h f) (w, evs) = (r, (w', evs'))"
  obtain q w1 evs1 where first: "run_state m (w, evs) = (q, (w1, evs1))"
    by (metis prod_cases3)
  from emitsD [OF m first] obtain n1 where n1: "evs1 = evs @ n1"
    and post: "case q of Ok a \<Rightarrow> emits (f a) (\<lambda>r n2. R r (n1 @ n2))
      | Err e \<Rightarrow> emits (h e) (\<lambda>r n2. R r (n1 @ n2)) | Panic p \<Rightarrow> R (Panic p) n1" by blast
  show "\<exists>new. evs' = evs @ new \<and> R r new"
  proof (cases q)
    case (Ok a)
    with run first have "run_state (f a) (w1, evs1) = (r, (w', evs'))" by (simp add: run_handle)
    with post Ok n1 show ?thesis by (auto dest!: emitsD)
  next
    case (Err e)
    with run first have "run_state (h e) (w1, evs1) = (r, (w', evs'))" by (simp add: run_handle)
    with post Err n1 show ?thesis by (auto dest!: emitsD)
  next
    case (Panic p)
    with run first n1 post show ?thesis by (auto simp: run_handle)
  qed
qed

lemma emits_attempt:
  assumes "emits m (\<lambda>r n1. case r of
        Ok a \<Rightarrow> emits (f a) (\<lambda>r n2. R r (n1 @ n2))
      | Err e \<Rightarrow> R (Err e) n1
      | Panic p \<Rightarrow> R (Panic p) n1)"
  shows "emits (attempt m f) R"
  unfolding attempt_def
  by (rule emits_handle, rule emits_mono [OF assms]) (auto split: outcome.splits intro: emits_simple)

lemma emits_wrap:
  assumes "emits m (\<lambda>r n. R (owrap pre r) n)"
  shows "emits (wrap pre m) R"
  unfolding wrap_def
  by (rule emits_handle, rule emits_mono [OF assms]) (auto split: outcome.splits intro: emits_simple)

lemma emits_returns:
  "emits m P \<Longrightarrow> returns m Q \<Longrightarrow> emits m (\<lambda>r new. P r new \<and> (\<forall>a. r = Ok a \<longrightarrow> Q a))"
proof (rule emitsI)
  fix w evs r w' evs'
  assume m: "emits m P" "returns m Q" and run: "run_state m (w, evs) = (r, (w', evs'))"
  obtain new where "evs' = evs @ new" "P r new" using emitsD [OF m(1) run] by blast
  moreover have "r = Ok a \<longrightarrow> Q a" for a using returnsD [OF m(2)] run by blast
  ultimately show "\<exists>new. evs' = evs @ new \<and> P r new \<and> (\<forall>a. r = Ok a \<longrightarrow> Q a)" by blast
qed

lemma emits_if:
  "(c \<Longrightarrow> emits m P) \<Longrightarrow> (\<not> c \<Longrightarrow> emits n P) \<Longrightarrow> emits (if c then m else n) P"
  by simp

lemmas emits_rules = emits_wrap emits_attempt emits_handle emits_noted emits_quiet emits_simple

definition log_of :: "('w logged, 'a) state \<Rightarrow> 'w \<Rightarrow> event list" where
  "log_of m w = snd (snd (run_state m (w, [])))"

lemma log_of_emits: "emits m P \<Longrightarrow> P (fst (run_state m (w, []))) (log_of m w)"
  unfolding log_of_def emits_def by (metis append_Nil prod.collapse)

text \<open>A Helm client only reads; it leaves no trace in the log.\<close>

definition logged_helm :: "'w helm_client \<Rightarrow> 'w logged helm_client" where
  "logged_helm HC = \<lparr>RetrieveRelease = (\<lambda>n. quiet (RetrieveRelease HC n))\<rparr>"

end
