(* ===== verification/Plans.thy ===== *)
theory Plans
  imports Kube_Client
begin

text \<open>
  The System Upgrade Controller plans, after \<^verbatim>\<open>internal/plan/base.go\<close>,
  \<^verbatim>\<open>internal/plan/kubernetes.go\<close> and \<^verbatim>\<open>internal/plan/os.go\<close>: names, labels, node
  selectors, drain or cordon, and the OS upgrade script rendered from
  \<^verbatim>\<open>internal/plan/templates/os-upgrade.sh.tpl\<close>.
\<close>

section \<open>The base plan\<close>

definition PlanNamespace :: string where
  "PlanNamespace = ''cattle-system''"

definition ControlPlaneLabel :: string where
  "ControlPlaneLabel = ''node-role.kubernetes.io/control-plane''"

definition basePlan :: "string \<Rightarrow> bool \<Rightarrow> Plan" where
  "basePlan name drain =
     (let plan = \<lparr>plan_kind = ''Plan'', plan_api_version = ''upgrade.cattle.io/v1'',
                  plan_name = name, plan_namespace = PlanNamespace, plan_labels = Map.empty,
                  plan_service_account = ''system-upgrade-controller'', plan_version = '''',
                  plan_concurrency = 0, plan_node_selector = None, plan_cordon = False,
                  plan_drain = None, plan_prepare = None, plan_upgrade = None,
                  plan_applying = [], plan_conditions = []\<rparr>
      in if drain
         then plan\<lparr>plan_drain := Some \<lparr>ds_timeout = ''15m'', ds_delete_emptydir_data = True,
                                        ds_ignore_daemon_sets = True, ds_force = True\<rparr>\<rparr>
         else plan\<lparr>plan_cordon := True\<rparr>)"

definition release_labels :: "string \<Rightarrow> string \<Rightarrow> labels" where
  "release_labels releaseName releaseVersion =
     [ReleaseNameLabel \<mapsto> releaseName, ReleaseVersionLabel \<mapsto> SanitizeVersion releaseVersion]"

definition control_plane_selector :: "LabelSelectorRequirement list" where
  "control_plane_selector =
     [\<lparr>lsr_key = ControlPlaneLabel, lsr_operator = LabelSelectorOpExists\<rparr>]"

definition worker_selector :: "LabelSelectorRequirement list" where
  "worker_selector =
     [\<lparr>lsr_key = ControlPlaneLabel, lsr_operator = LabelSelectorOpDoesNotExist\<rparr>]"

section \<open>Kubernetes plans\<close>

definition kubernetesControlPlaneName :: "string \<Rightarrow> string" where
  "kubernetesControlPlaneName version =
     ''elemental-kubernetes-control-plane'' @ ''-'' @ SanitizeVersion version"

definition kubernetesWorkerName :: "string \<Rightarrow> string" where
  "kubernetesWorkerName version = ''elemental-kubernetes-worker'' @ ''-'' @ SanitizeVersion version"

definition rke2UpgradeImage :: string where
  "rke2UpgradeImage = ''rancher/rke2-upgrade''"

definition KubernetesControlPlane :: "string \<Rightarrow> string \<Rightarrow> string \<Rightarrow> bool \<Rightarrow> Plan" where
  "KubernetesControlPlane releaseName releaseVersion k8sVersion drain =
     (basePlan (kubernetesControlPlaneName k8sVersion) drain)
       \<lparr>plan_labels := release_labels releaseName releaseVersion,
        plan_version := k8sVersion,
        plan_concurrency := 1,
        plan_node_selector := Some control_plane_selector,
        plan_upgrade := Some \<lparr>cs_image = rke2UpgradeImage, cs_command = [], cs_args = []\<rparr>\<rparr>"

definition KubernetesWorker :: "string \<Rightarrow> string \<Rightarrow> string \<Rightarrow> bool \<Rightarrow> Plan" where
  "KubernetesWorker releaseName releaseVersion k8sVersion drain =
     (let controlPlanePlanName = kubernetesControlPlaneName k8sVersion in
      (basePlan (kubernetesWorkerName k8sVersion) drain)
       \<lparr>plan_labels := release_labels releaseName releaseVersion,
        plan_version := k8sVersion,
        plan_concurrency := 1,
        plan_node_selector := Some worker_selector,
        plan_prepare := Some \<lparr>cs_image = rke2UpgradeImage, cs_command = [],
                              cs_args = [''prepare'', controlPlanePlanName]\<rparr>,
        plan_upgrade := Some \<lparr>cs_image = rke2UpgradeImage, cs_command = [], cs_args = []\<rparr>\<rparr>)"

section \<open>Operating system plans\<close>

definition osControlPlaneName :: "string \<Rightarrow> string" where
  "osControlPlaneName version = ''elemental-os-control-plane'' @ ''-'' @ SanitizeVersion version"

definition osWorkerName :: "string \<Rightarrow> string" where
  "osWorkerName version = ''elemental-os-worker'' @ ''-'' @ SanitizeVersion version"

text \<open>The values for which \<open>strconv.ParseBool\<close> returns true; for any other text
  \<open>fetchRemote\<close> is false, whether the text parses as false or not at all.\<close>

definition parse_bool_true :: "string \<Rightarrow> bool" where
  "parse_bool_true s \<longleftrightarrow> s \<in> {''1'', ''t'', ''T'', ''true'', ''TRUE'', ''True''}"

definition lines_text :: "string list \<Rightarrow> string" where
  "lines_text ls = concat (map (\<lambda>l. l @ [CHR 0x0A]) ls)"

text \<open>The rendered template: the text up to the conditional, with the two substitutions.\<close>

definition script_head :: "string \<Rightarrow> string \<Rightarrow> string" where
  \<open>script_head repo version = lines_text
    [''set -e'',
     '''',
     ''HOST="${HOST:-/host}"'',
     ''DEPLOYMENT="${DEPLOYMENT:-$HOST/etc/elemental/deployment.yaml}"'',
     ''OS_IMAGE_REPO="'' @ repo @ ''"'',
     ''OS_VERSION="'' @ version @ ''"'',
     ''INCOMING="$OS_IMAGE_REPO:$OS_VERSION"'',
     ''CURRENT=$(grep -F "uri: oci://$OS_IMAGE_REPO" "$DEPLOYMENT" 2>/dev/null || true)'',
     '''',
     ''# On fresh systems, we have a sourceOS specified with raw (e.g. raw://../squashfs.img) data'',
     ''# instead of from an OCI image, so for instances that CURRENT is empty we'',
     ''# assume that this is a fresh system and proceed with the upgrade.'',
     ''if [ -n "$CURRENT" ]; then'',
     CHR 0x09 # ''# Extract the prefix (e.g. "uri: oci://") before the OS_IMAGE_REPO,'',
     CHR 0x09 # ''# so that it can be stripped in the next step.'',
     ''    prefix=${CURRENT%%"$OS_IMAGE_REPO"*}'',
     CHR 0x09 # ''CURRENT=${CURRENT#"$prefix"}'',
     ''    if [ "$CURRENT" = "$INCOMING" ]; then'',
     ''        echo "Active OS image is already at correct version $OS_VERSION. Upgrade has been performed."'',
     ''        exit 0'',
     ''    fi'',
     ''fi'',
     '''']\<close>

definition script_upgrade :: "bool \<Rightarrow> string" where
  \<open>script_upgrade fetch_remote =
     (if fetch_remote then ''USE_LOCAL_IMAGES=false '' else '''')
       @ ''upgrader "$INCOMING" && chroot /host reboot'' @ [CHR 0x0A]\<close>

text \<open>\<open>env_fetch_remote\<close> is the value of \<^verbatim>\<open>E3CTL_FETCH_REMOTE\<close> in the environment.\<close>

definition parseUpgradeScript ::
  "(string \<Rightarrow> ImageTag outcome) \<Rightarrow> string \<Rightarrow> string \<Rightarrow> string outcome" where
  "parseUpgradeScript new_tag env_fetch_remote osImage =
     obind (owrap (''parsing OS image '' @ go_quote osImage) (new_tag osImage)) (\<lambda>ref.
       Ok (script_head (tag_context_name ref) (tag_str ref)
             @ script_upgrade (parse_bool_true env_fetch_remote)))"

definition osUpgradeShell :: string where
  "osUpgradeShell = ''/bin/sh''"

definition OSControlPlane ::
  "(string \<Rightarrow> ImageTag outcome) \<Rightarrow> string \<Rightarrow> string \<Rightarrow> string \<Rightarrow> string \<Rightarrow> string \<Rightarrow> bool \<Rightarrow> Plan outcome" where
  "OSControlPlane new_tag env_fetch_remote releaseName osImage osVersion releaseVersion drain =
     obind (owrap ''parsing OS upgrade script'' (parseUpgradeScript new_tag env_fetch_remote osImage))
      (\<lambda>script. Ok ((basePlan (osControlPlaneName osVersion) drain)
       \<lparr>plan_labels := release_labels releaseName releaseVersion,
        plan_version := osVersion,
        plan_concurrency := 1,
        plan_node_selector := Some control_plane_selector,
        plan_upgrade := Some \<lparr>cs_image = osImage, cs_command = [osUpgradeShell, ''-c''],
                              cs_args = [script]\<rparr>\<rparr>))"

definition OSWorker ::
  "(string \<Rightarrow> ImageTag outcome) \<Rightarrow> string \<Rightarrow> string \<Rightarrow> string \<Rightarrow> string \<Rightarrow> string \<Rightarrow> bool \<Rightarrow> Plan outcome" where
  "OSWorker new_tag env_fetch_remote releaseName osImage osVersion releaseVersion drain =
     obind (owrap ''parsing OS upgrade script'' (parseUpgradeScript new_tag env_fetch_remote osImage))
      (\<lambda>script. Ok ((basePlan (osWorkerName osVersion) drain)
       \<lparr>plan_labels := release_labels releaseName releaseVersion,
        plan_version := osVersion,
        plan_concurrency := 1,
        plan_node_selector := Some worker_selector,
        plan_upgrade := Some \<lparr>cs_image = osImage, cs_command = [osUpgradeShell, ''-c''],
                              cs_args = [script]\<rparr>\<rparr>))"

section \<open>Lemmas\<close>

lemma basePlan_simps [simp]:
  "plan_name (basePlan n d) = n"
  "plan_namespace (basePlan n d) = PlanNamespace"
  "plan_cordon (basePlan n d) = (\<not> d)"
  "plan_drain (basePlan n d) = None \<longleftrightarrow> \<not> d"
  "plan_applying (basePlan n d) = []"
  "plan_conditions (basePlan n d) = []"
  "plan_prepare (basePlan n d) = None"
  by (simp_all add: basePlan_def Let_def)

text \<open>Two plan names agree only when their base names do: no base name is a prefix of another.\<close>

lemma plan_names_disjoint:
  "kubernetesControlPlaneName u \<noteq> kubernetesWorkerName v"
  "kubernetesControlPlaneName u \<noteq> osControlPlaneName v"
  "kubernetesControlPlaneName u \<noteq> osWorkerName v"
  "kubernetesWorkerName u \<noteq> osControlPlaneName v"
  "kubernetesWorkerName u \<noteq> osWorkerName v"
  "osControlPlaneName u \<noteq> osWorkerName v"
  by (simp_all add: kubernetesControlPlaneName_def kubernetesWorkerName_def
      osControlPlaneName_def osWorkerName_def)

lemma plan_name_KubernetesControlPlane [simp]:
  "plan_name (KubernetesControlPlane n rv v d) = kubernetesControlPlaneName v"
  by (simp add: KubernetesControlPlane_def)

lemma plan_name_KubernetesWorker [simp]:
  "plan_name (KubernetesWorker n rv v d) = kubernetesWorkerName v"
  by (simp add: KubernetesWorker_def Let_def)

lemma OSControlPlane_Ok:
  "OSControlPlane tag env n img v rv d = Ok p \<Longrightarrow>
     plan_name p = osControlPlaneName v \<and> plan_namespace p = PlanNamespace
     \<and> plan_node_selector p = Some control_plane_selector \<and> plan_labels p = release_labels n rv"
  by (auto simp: OSControlPlane_def obind_eq_Ok_iff)

lemma OSWorker_Ok:
  "OSWorker tag env n img v rv d = Ok p \<Longrightarrow>
     plan_name p = osWorkerName v \<and> plan_namespace p = PlanNamespace
     \<and> plan_node_selector p = Some worker_selector \<and> plan_labels p = release_labels n rv"
  by (auto simp: OSWorker_def obind_eq_Ok_iff)

section \<open>Properties\<close>

text \<open>
  The four upgrade plans can never be confused: whatever the versions, plans of different roles
  have different names, and two plans of one role have the same name exactly when their versions
  sanitize to the same text.
\<close>

theorem plan_names_by_role:
  "distinct [kubernetesControlPlaneName u, kubernetesWorkerName v, osControlPlaneName x, osWorkerName y]
   \<and> (kubernetesControlPlaneName u = kubernetesControlPlaneName v \<longleftrightarrow> SanitizeVersion u = SanitizeVersion v)
   \<and> (kubernetesWorkerName u = kubernetesWorkerName v \<longleftrightarrow> SanitizeVersion u = SanitizeVersion v)
   \<and> (osControlPlaneName u = osControlPlaneName v \<longleftrightarrow> SanitizeVersion u = SanitizeVersion v)
   \<and> (osWorkerName u = osWorkerName v \<longleftrightarrow> SanitizeVersion u = SanitizeVersion v)"
proof -
  have "distinct [kubernetesControlPlaneName u, kubernetesWorkerName v, osControlPlaneName x, osWorkerName y]"
    using plan_names_disjoint by simp
  then show ?thesis
    by (simp add: kubernetesControlPlaneName_def kubernetesWorkerName_def osControlPlaneName_def
        osWorkerName_def)
qed

text \<open>
  The worker plan of a Kubernetes upgrade waits for the control plane plan of the same version:
  its prepare step names exactly that plan; the two plans select nodes by the presence and the
  absence of the same label, upgrade one node at a time, and drain exactly when asked to, otherwise
  cordon.
\<close>

theorem KubernetesWorker_prepares:
  "map_option cs_args (plan_prepare (KubernetesWorker n rv v d))
     = Some [''prepare'', plan_name (KubernetesControlPlane n rv v d')]
   \<and> plan_node_selector (KubernetesControlPlane n rv v d')
     = Some [\<lparr>lsr_key = ControlPlaneLabel, lsr_operator = LabelSelectorOpExists\<rparr>]
   \<and> plan_node_selector (KubernetesWorker n rv v d)
     = Some [\<lparr>lsr_key = ControlPlaneLabel, lsr_operator = LabelSelectorOpDoesNotExist\<rparr>]
   \<and> (\<forall>p. p = KubernetesWorker n rv v d \<or> p = KubernetesControlPlane n rv v d \<longrightarrow>
        plan_concurrency p = 1 \<and> plan_version p = v \<and> plan_namespace p = PlanNamespace
        \<and> (plan_drain p = None \<longleftrightarrow> \<not> d) \<and> (plan_cordon p \<longleftrightarrow> \<not> d))"
  by (auto simp: KubernetesWorker_def KubernetesControlPlane_def control_plane_selector_def
      worker_selector_def Let_def)

theorem KubernetesWorker_prepares_witness:
  "plan_drain (KubernetesWorker ''r'' ''1.0'' ''v1.33.1+rke2r1'' False) = None
     \<and> plan_cordon (KubernetesControlPlane ''r'' ''1.0'' ''v1.33.1+rke2r1'' False)"
  using KubernetesWorker_prepares [where n = "''r''" and rv = "''1.0''" and v = "''v1.33.1+rke2r1''"
      and d = False] by blast

section \<open>A small cluster\<close>

text \<open>A cluster with one worker node where every plan that is asked for is found complete.\<close>

definition witness_plan :: "NamespacedName \<Rightarrow> Plan" where
  "witness_plan nn = (basePlan (nn_name nn) True)
     \<lparr>plan_conditions := [\<lparr>pc_type = PlanConditionComplete, pc_status = ConditionTrue,
                          pc_reason = [], pc_message = []\<rparr>]\<rparr>"

definition witness_node :: Node where
  "witness_node = \<lparr>node_name = ''n'', node_labels = Map.empty, node_unschedulable = False,
     node_kubelet_version = ''v2'', node_conditions = [(NodeReady, ConditionTrue)]\<rparr>"

definition witness_kube :: "unit kube" where
  "witness_kube =
     \<lparr>get_release = (\<lambda>_. raise (NotFound [])), list_releases = ok [],
      update_release_status = (\<lambda>_. ok ()), get_plan = (\<lambda>nn. ok (witness_plan nn)),
      create_plan = ok, list_plans = (\<lambda>_ _. ok []), delete_plan = (\<lambda>_. ok ()),
      get_helm_chart = (\<lambda>_. raise (NotFound [])), create_helm_chart = (\<lambda>_. ok ()),
      update_helm_chart = (\<lambda>_. ok ()), list_helm_charts = (\<lambda>_. ok []),
      get_job = (\<lambda>_. raise (NotFound [])), get_config_map = (\<lambda>_. raise (NotFound [])),
      create_config_map = (\<lambda>_. ok ()), update_config_map = (\<lambda>_. ok ()),
      delete_config_map = (\<lambda>_. ok ()), get_secret = (\<lambda>_. raise (NotFound [])),
      list_nodes = (\<lambda>_. ok [witness_node]), label_selector = (\<lambda>_. Ok ''s'')\<rparr>"

definition witness_os :: OSConfig where
  "witness_os = \<lparr>os_image = ''os:2'', os_version = ''2'',
     os_drain_opts = Some \<lparr>drain_control_plane = False, drain_worker = False\<rparr>\<rparr>"

definition witness_k8s :: KubernetesConfig where
  "witness_k8s = \<lparr>k8s_image = [], k8s_version = ''v2'',
     k8s_drain_opts = Some \<lparr>drain_control_plane = False, drain_worker = False\<rparr>\<rparr>"

definition witness_config :: Config where
  "witness_config =
     \<lparr>cfg_release = \<lparr>nn_namespace = ''ns'', nn_name = ''r''\<rparr>, cfg_release_version = ''2'',
      cfg_os = Some witness_os, cfg_kubernetes = Some witness_k8s,
      cfg_helm_charts = []\<rparr>"

end
