(* ===== verification/Plan_Reconciler.thy ===== *)
theory Plan_Reconciler
  imports Plans Pipeline
begin

text \<open>
  Reconciling one System Upgrade Controller plan, after
  \<^verbatim>\<open>internal/upgrade/reconcilers/plan.go\<close>: get the plan or create it, read a phase status off
  it, and list the nodes it is responsible for once it is complete. The interface
  \<open>PlanReconciler\<close> of the source is the locale \<open>plan_reconciler\<close>.
\<close>

section \<open>Definitions\<close>

record PlanResult =
  pr_status :: PhaseStatus
  pr_nodes :: "Node list"

type_synonym 'w PlanReconciler = "Plan \<Rightarrow> ('w, PlanResult) io"

text \<open>\<open>%s\<close> of a string slice.\<close>

definition show_strings :: "string list \<Rightarrow> string" where
  "show_strings ss = ''['' @ join_strings '' '' ss @ '']''"

fun scan_plan_conditions :: "string \<Rightarrow> PlanCondition list \<Rightarrow> PhaseStatus option" where
  "scan_plan_conditions name [] = None"
| "scan_plan_conditions name (cond # conds) =
     (if pc_type cond = PlanConditionComplete then
        (if pc_status cond = ConditionTrue then
           Some \<lparr>ps_state = PlanComplete,
                 ps_message = ''Plan '' @ name @ '' execution completed successfully''\<rparr>
         else if pc_status cond = ConditionFalse \<and> pc_reason cond \<noteq> '''' then
           Some \<lparr>ps_state = UpgradeFailed,
                 ps_message = ''Plan '' @ name @ '' failed: '' @ pc_message cond\<rparr>
         else scan_plan_conditions name conds)
      else scan_plan_conditions name conds)"

definition parsePhaseStatusFromPlan :: "Plan \<Rightarrow> PhaseStatus" where
  "parsePhaseStatusFromPlan p =
     (if plan_applying p \<noteq> [] then
        \<lparr>ps_state = UpgradeInProgress,
         ps_message = ''Plan '' @ plan_name p @ '' is currently applying on: ''
                        @ show_strings (plan_applying p)\<rparr>
      else case scan_plan_conditions (plan_name p) (plan_conditions p) of
             Some s \<Rightarrow> s
           | None \<Rightarrow> \<lparr>ps_state = UpgradeInProgress,
                      ps_message = ''Plan '' @ plan_name p @ '' execution in progress''\<rparr>)"

definition getOrCreatePlan :: "'w kube \<Rightarrow> Plan \<Rightarrow> ('w, Plan) io" where
  "getOrCreatePlan K desired =
     handle (get_plan K \<lparr>nn_namespace = plan_namespace desired, nn_name = plan_name desired\<rparr>)
       (\<lambda>err. if is_not_found err then create_plan K desired else raise err)
       (\<lambda>plan. ok plan)"

definition listNodesForPlan :: "'w kube \<Rightarrow> Plan \<Rightarrow> ('w, Node list) io" where
  "listNodesForPlan K plan =
     attempt (wrap ''parsing node selector'' (pure_call (label_selector K (plan_node_selector plan))))
       (\<lambda>selector. wrap (''listing nodes with selector '' @ selector)
                     (list_nodes K (SelectedNodes selector)))"

definition SUCPlanReconciler_Reconcile :: "'w kube \<Rightarrow> 'w PlanReconciler" where
  "SUCPlanReconciler_Reconcile K desired =
     attempt (wrap ''parsing plan'' (getOrCreatePlan K desired)) (\<lambda>plan.
       (let status = parsePhaseStatusFromPlan plan in
        if ps_state status = PlanComplete
        then attempt (wrap (''listing plan '' @ go_quote (plan_name plan) @ '' nodes'')
                       (listNodesForPlan K plan))
               (\<lambda>nodes. ok \<lparr>pr_status = status, pr_nodes = nodes\<rparr>)
        else ok \<lparr>pr_status = status, pr_nodes = []\<rparr>))"

section \<open>The interface\<close>

definition plan_states :: "string set" where
  "plan_states = {PlanComplete, UpgradeInProgress, UpgradeFailed}"

locale plan_reconciler =
  fixes reconcile :: "'w PlanReconciler"
  assumes plan_state: "returns (reconcile p) (\<lambda>r. ps_state (pr_status r) \<in> plan_states)"
begin

text \<open>A status that is not complete can be reported for the phase as it is.\<close>

lemma incomplete_reported:
  "returns (reconcile p) (\<lambda>r. ps_state (pr_status r) \<noteq> PlanComplete \<longrightarrow>
     ps_state (pr_status r) \<in> reported_states)"
  by (rule returns_mono [OF plan_state]) (auto simp: plan_states_def reported_states_def)

end

section \<open>Lemmas\<close>

lemma scan_plan_conditions_state:
  "scan_plan_conditions n cs = Some s \<Longrightarrow> ps_state s \<in> {PlanComplete, UpgradeFailed}"
  by (induction cs) (auto split: if_splits)

lemma parsePhaseStatusFromPlan_state: "ps_state (parsePhaseStatusFromPlan p) \<in> plan_states"
  using scan_plan_conditions_state
  by (auto simp: parsePhaseStatusFromPlan_def plan_states_def split: option.splits)

text \<open>The first condition that decides is a true or a failed completion.\<close>

definition deciding :: "PlanCondition \<Rightarrow> bool" where
  "deciding c \<longleftrightarrow> pc_type c = PlanConditionComplete \<and>
     (pc_status c = ConditionTrue \<or> pc_status c = ConditionFalse \<and> pc_reason c \<noteq> '''')"

lemma scan_plan_conditions_find:
  "scan_plan_conditions n cs =
     (case find deciding cs of
        None \<Rightarrow> None
      | Some c \<Rightarrow> if pc_status c = ConditionTrue
                 then Some \<lparr>ps_state = PlanComplete,
                            ps_message = ''Plan '' @ n @ '' execution completed successfully''\<rparr>
                 else Some \<lparr>ps_state = UpgradeFailed,
                            ps_message = ''Plan '' @ n @ '' failed: '' @ pc_message c\<rparr>)"
  by (induction cs) (auto simp: deciding_def)

interpretation suc: plan_reconciler "SUCPlanReconciler_Reconcile K" for K
proof
  fix p
  show "returns (SUCPlanReconciler_Reconcile K p) (\<lambda>r. ps_state (pr_status r) \<in> plan_states)"
    unfolding SUCPlanReconciler_Reconcile_def Let_def
    by (auto intro!: returns_intros) (metis parsePhaseStatusFromPlan_state)+
qed

section \<open>The log of a plan reconciliation\<close>

definition touches_plan :: "string \<Rightarrow> event \<Rightarrow> bool" where
  "touches_plan name ev =
     (case ev of
        GetPlan nn _ \<Rightarrow> nn_name nn = name
      | CreatePlan p _ \<Rightarrow> plan_name p = name
      | DeletePlan p _ \<Rightarrow> plan_name p = name
      | _ \<Rightarrow> False)"

text \<open>The event shows the plan of this name as the server has it.\<close>

definition shows_plan :: "string \<Rightarrow> Plan \<Rightarrow> event \<Rightarrow> bool" where
  "shows_plan name plan ev =
     (case ev of
        GetPlan nn (Ok p) \<Rightarrow> nn_name nn = name \<and> p = plan
      | CreatePlan q (Ok p) \<Rightarrow> plan_name q = name \<and> p = plan
      | _ \<Rightarrow> False)"

definition plan_completed :: "Plan \<Rightarrow> bool" where
  "plan_completed p \<longleftrightarrow> ps_state (parsePhaseStatusFromPlan p) = PlanComplete"

text \<open>The event shows a plan of this name that SUC has completed.\<close>

definition observes_complete :: "string \<Rightarrow> event \<Rightarrow> bool" where
  "observes_complete name ev \<longleftrightarrow> (\<exists>p. shows_plan name p ev \<and> plan_completed p)"

text \<open>No event touches a plan of another name; some event shows the plan complete.\<close>

definition only_plan :: "string \<Rightarrow> event list \<Rightarrow> bool" where
  "only_plan name seg \<longleftrightarrow> (\<forall>ev \<in> set seg. \<forall>n. touches_plan n ev \<longrightarrow> n = name)"

definition no_plan :: "event list \<Rightarrow> bool" where
  "no_plan seg \<longleftrightarrow> (\<forall>ev \<in> set seg. \<forall>n. \<not> touches_plan n ev)"

definition seen_complete :: "string \<Rightarrow> event list \<Rightarrow> bool" where
  "seen_complete name seg \<longleftrightarrow> (\<exists>ev \<in> set seg. observes_complete name ev)"

text \<open>The log shows the plan complete and then the nodes its selector gives.\<close>

definition complete_on ::
  "(LabelSelectorRequirement list option \<Rightarrow> string outcome) \<Rightarrow> string \<Rightarrow> Node list \<Rightarrow> event list \<Rightarrow> bool" where
  "complete_on selector_of name nodes seg \<longleftrightarrow>
     (\<exists>p ev sel. ev \<in> set seg \<and> shows_plan name p ev \<and> plan_completed p
        \<and> selector_of (plan_node_selector p) = Ok sel
        \<and> ListNodes (SelectedNodes sel) (Ok nodes) \<in> set seg)"

text \<open>A segment of the log made by reconciling one plan: it touches no other plan, and if the plan
  was reported complete, the log shows it complete on the reported nodes.\<close>

definition plan_segment ::
  "(LabelSelectorRequirement list option \<Rightarrow> string outcome) \<Rightarrow> Plan \<Rightarrow> PlanResult outcome
     \<Rightarrow> event list \<Rightarrow> bool" where
  "plan_segment selector_of p r seg \<longleftrightarrow> only_plan (plan_name p) seg \<and>
     (\<forall>res. r = Ok res \<and> ps_state (pr_status res) = PlanComplete \<longrightarrow>
        complete_on selector_of (plan_name p) (pr_nodes res) seg)"

lemma complete_on_seen: "complete_on f n nodes seg \<Longrightarrow> seen_complete n seg"
  by (auto simp: complete_on_def seen_complete_def observes_complete_def)

lemma complete_on_append:
  "complete_on f n nodes xs \<or> complete_on f n nodes ys \<Longrightarrow> complete_on f n nodes (xs @ ys)"
  by (auto simp: complete_on_def)

lemma only_plan_simps [simp]:
  "only_plan n []"
  "only_plan n (xs @ ys) \<longleftrightarrow> only_plan n xs \<and> only_plan n ys"
  by (auto simp: only_plan_def)

lemma no_plan_simps [simp]:
  "no_plan []"
  "no_plan (xs @ ys) \<longleftrightarrow> no_plan xs \<and> no_plan ys"
  by (auto simp: no_plan_def)

lemma seen_complete_append [simp]:
  "seen_complete n (xs @ ys) \<longleftrightarrow> seen_complete n xs \<or> seen_complete n ys"
  by (auto simp: seen_complete_def)

lemma no_plan_only: "no_plan seg \<Longrightarrow> only_plan n seg"
  by (simp add: no_plan_def only_plan_def)

lemma no_plan_event [simp]:
  "no_plan [ListNodes q r]" "no_plan [CreateHelmChart h r']" "no_plan [UpdateHelmChart h r']"
  "no_plan [CreateConfigMap c r']" "no_plan [UpdateConfigMap c r']" "no_plan [DeleteConfigMap c r']"
  "no_plan [UpdateReleaseStatus rel r']"
  by (simp_all add: no_plan_def touches_plan_def)

definition got_plan :: "Plan \<Rightarrow> Plan outcome \<Rightarrow> event list \<Rightarrow> bool" where
  "got_plan p r seg \<longleftrightarrow> only_plan (plan_name p) seg \<and>
     (\<forall>q. r = Ok q \<longrightarrow> (\<exists>ev \<in> set seg. shows_plan (plan_name p) q ev))"

lemma emits_getOrCreatePlan: "emits (getOrCreatePlan (logged_kube K) p) (got_plan p)"
  unfolding getOrCreatePlan_def logged_kube_simps
  by (intro emits_handle emits_noted)
    (auto intro!: emits_rules split: outcome.split
      simp: got_plan_def touches_plan_def shows_plan_def only_plan_def)

definition listed_nodes ::
  "(LabelSelectorRequirement list option \<Rightarrow> string outcome) \<Rightarrow> Plan \<Rightarrow> Node list outcome
     \<Rightarrow> event list \<Rightarrow> bool" where
  "listed_nodes selector_of p r seg \<longleftrightarrow> no_plan seg \<and>
     (\<forall>nodes. r = Ok nodes \<longrightarrow> (\<exists>sel. selector_of (plan_node_selector p) = Ok sel
        \<and> ListNodes (SelectedNodes sel) (Ok nodes) \<in> set seg))"

lemma emits_listNodesForPlan:
  "emits (listNodesForPlan (logged_kube K) p) (listed_nodes (label_selector K) p)"
  unfolding listNodesForPlan_def logged_kube_simps
  by (intro emits_attempt emits_wrap emits_simple)
    (auto intro!: emits_rules split: outcome.split simp: listed_nodes_def)

lemma emits_SUCPlanReconciler:
  "emits (SUCPlanReconciler_Reconcile (logged_kube K) p) (plan_segment (label_selector K) p)"
  unfolding SUCPlanReconciler_Reconcile_def Let_def
proof (intro emits_attempt emits_wrap emits_mono [OF emits_getOrCreatePlan], goal_cases)
  case (1 r seg)
  show ?case
  proof (cases r)
    case (Ok plan)
    have lists: "emits (attempt (wrap m (listNodesForPlan (logged_kube K) plan))
          (\<lambda>nodes. ok \<lparr>pr_status = s, pr_nodes = nodes\<rparr>))
        (\<lambda>r seg2. no_plan seg2 \<and>
           (\<forall>res. r = Ok res \<longrightarrow> listed_nodes (label_selector K) plan (Ok (pr_nodes res)) seg2))" for m s
      by (intro emits_attempt emits_wrap emits_mono [OF emits_listNodesForPlan])
        (auto intro!: emits_simple split: outcome.split simp: listed_nodes_def)
    from 1 Ok show ?thesis
      by (auto intro!: emits_simple emits_mono [OF lists]
          simp: plan_segment_def got_plan_def no_plan_only listed_nodes_def complete_on_def
            plan_completed_def) blast
  qed (use 1 in \<open>auto simp: plan_segment_def got_plan_def\<close>)
qed

section \<open>The log of a sequence of plans\<close>

text \<open>
  The log of reconciling plans one after the other: first events on the first plan only; then either
  no plan event at all, or the first plan was seen complete and the log goes on with the next plan.
\<close>

fun plan_log :: "Plan list \<Rightarrow> event list \<Rightarrow> bool" where
  "plan_log [] evs = no_plan evs"
| "plan_log (p # ps) evs =
     (\<exists>seg rest. evs = seg @ rest \<and> only_plan (plan_name p) seg \<and>
        (no_plan rest \<or> seen_complete (plan_name p) seg \<and> plan_log ps rest))"

lemma plan_log_only: "only_plan (plan_name p) evs \<Longrightarrow> plan_log (p # ps) evs"
  unfolding plan_log.simps by (rule exI [of _ evs], rule exI [of _ "[]"]) simp

lemma plan_log_cons:
  "only_plan (plan_name p) seg \<Longrightarrow> seen_complete (plan_name p) seg \<Longrightarrow> plan_log ps rest
     \<Longrightarrow> plan_log (p # ps) (seg @ rest)"
  by auto

lemma plan_log_prefix: "no_plan pre \<Longrightarrow> plan_log ps evs \<Longrightarrow> plan_log ps (pre @ evs)"
proof (cases ps)
  case (Cons p ps')
  assume pre: "no_plan pre" and "plan_log ps evs"
  with Cons obtain seg rest where split: "evs = seg @ rest" "only_plan (plan_name p) seg"
    "no_plan rest \<or> seen_complete (plan_name p) seg \<and> plan_log ps' rest" by auto
  then show ?thesis
    unfolding Cons plan_log.simps
    by (intro exI [of _ "pre @ seg"] exI [of _ rest]) (use pre in \<open>auto simp: no_plan_only\<close>)
qed auto

lemma plan_log_suffix: "plan_log ps evs \<Longrightarrow> no_plan post \<Longrightarrow> plan_log ps (evs @ post)"
proof (induction ps evs rule: plan_log.induct)
  case (2 p ps evs)
  from 2(2) obtain seg rest where split: "evs = seg @ rest" "only_plan (plan_name p) seg"
    "no_plan rest \<or> seen_complete (plan_name p) seg \<and> plan_log ps rest" unfolding plan_log.simps by blast
  have "no_plan (rest @ post) \<or> seen_complete (plan_name p) seg \<and> plan_log ps (rest @ post)"
    using split(3) 2(1,3) by fastforce
  with split(1,2) show ?case
    unfolding plan_log.simps by (intro exI [of _ seg] exI [of _ "rest @ post"]) simp
qed auto

text \<open>With two plans, no event on the second comes before the first was seen complete.\<close>

lemma plan_log_order:
  assumes "plan_log [p, q] evs" and "plan_name p \<noteq> plan_name q"
    and "i < length evs" and "touches_plan (plan_name q) (evs ! i)"
  shows "\<exists>j<i. observes_complete (plan_name p) (evs ! j)"
proof -
  from assms(1) obtain seg rest where split: "evs = seg @ rest" "only_plan (plan_name p) seg"
    "no_plan rest \<or> seen_complete (plan_name p) seg" by auto
  have "\<not> i < length seg"
  proof
    assume "i < length seg"
    then have "evs ! i \<in> set seg" by (simp add: split(1) nth_append)
    with split(2) assms(2,4) show False by (auto simp: only_plan_def)
  qed
  then have "evs ! i \<in> set rest"
    using assms(3) by (simp add: split(1) nth_append)
  with assms(4) split(3) have "seen_complete (plan_name p) seg" by (auto simp: no_plan_def)
  then obtain j where "j < length seg" "observes_complete (plan_name p) (seg ! j)"
    by (auto simp: seen_complete_def in_set_conv_nth)
  with \<open>\<not> i < length seg\<close> show ?thesis
    by (auto simp: split(1) nth_append intro!: exI [of _ j])
qed

lemma plan_log_single:
  assumes "plan_log [p] evs" and "ev \<in> set evs" and "touches_plan n ev"
  shows "n = plan_name p"
  using assms by (auto simp: only_plan_def no_plan_def)

lemma plan_log_pair:
  assumes "plan_log [p, q] evs" and "plan_name p \<noteq> plan_name q"
    and "i < length evs" and "touches_plan n (evs ! i)"
  shows "n = plan_name p
     \<or> n = plan_name q \<and> (\<exists>j<i. observes_complete (plan_name p) (evs ! j))"
proof -
  have "n = plan_name p \<or> n = plan_name q"
    using assms(1,3,4) by (auto simp: only_plan_def no_plan_def nth_append split: if_splits)
      (metis nth_mem add_diff_inverse_nat add_less_cancel_left)+
  then show ?thesis using plan_log_order assms by blast
qed

section \<open>Properties\<close>

text \<open>
  The status read off a plan: in progress while SUC is applying it to some node; otherwise the
  first \<open>Complete\<close> condition that is true, or false with a reason, decides between complete and
  failed; in progress when no condition decides.
\<close>

theorem parsePhaseStatusFromPlan_spec:
  "ps_state (parsePhaseStatusFromPlan p) =
     (if plan_applying p \<noteq> [] then UpgradeInProgress
      else case find deciding (plan_conditions p) of
             None \<Rightarrow> UpgradeInProgress
           | Some c \<Rightarrow> if pc_status c = ConditionTrue then PlanComplete else UpgradeFailed)"
  by (simp add: parsePhaseStatusFromPlan_def scan_plan_conditions_find split: option.split)

text \<open>
  A plan is never overwritten: it is looked up first, created only when the API server
  answered that it does not exist, and the result is the plan found or the plan created.
\<close>

theorem getOrCreatePlan_creates_missing:
  "emits (getOrCreatePlan (logged_kube K) p) (\<lambda>r evs.
     let nn = \<lparr>nn_namespace = plan_namespace p, nn_name = plan_name p\<rparr> in
     evs = [GetPlan nn r] \<and> (\<nexists>e. r = Err e \<and> is_not_found e)
     \<or> (\<exists>e. evs = [GetPlan nn (Err e), CreatePlan p r] \<and> is_not_found e))"
  unfolding getOrCreatePlan_def logged_kube_simps Let_def
  by (intro emits_handle emits_noted) (auto intro!: emits_rules split: outcome.split)

end
