(* ===== verification/OS_Reconciler.thy ===== *)
theory OS_Reconciler
  imports Plan_Reconciler
begin

text \<open>
  The operating system phase, after \<^verbatim>\<open>internal/upgrade/reconcilers/os.go\<close>: one plan for the
  control plane, a second one for the workers when there are any, reconciled in that order.
\<close>

section \<open>Definitions\<close>

definition isControlPlaneOnlyCluster :: "Node list \<Rightarrow> bool" where
  "isControlPlaneOnlyCluster nodes \<longleftrightarrow> list_all (\<lambda>n. node_labels n ControlPlaneLabel \<noteq> None) nodes"

definition OS_preparePlans ::
  "(string \<Rightarrow> ImageTag outcome) \<Rightarrow> string \<Rightarrow> 'w kube \<Rightarrow> Config \<Rightarrow> OSConfig \<Rightarrow> ('w, Plan list) io" where
  "OS_preparePlans new_tag env_fetch_remote K config osConfig =
     (case os_drain_opts osConfig of
        None \<Rightarrow> panic ''nil drain options''
      | Some opts \<Rightarrow>
          attempt (wrap ''generating OS control-plane plan''
            (pure_call (OSControlPlane new_tag env_fetch_remote (nn_name (cfg_release config))
               (os_image osConfig) (os_version osConfig) (cfg_release_version config)
               (drain_control_plane opts)))) (\<lambda>cpPlan.
          attempt (wrap ''listing cluster nodes'' (list_nodes K AllNodes)) (\<lambda>allNodes.
          if \<not> isControlPlaneOnlyCluster allNodes
          then attempt (wrap ''generating OS worker plan''
                 (pure_call (OSWorker new_tag env_fetch_remote (nn_name (cfg_release config))
                    (os_image osConfig) (os_version osConfig) (cfg_release_version config)
                    (drain_worker opts)))) (\<lambda>wkPlan. ok [cpPlan, wkPlan])
          else ok [cpPlan])))"

fun reconcile_os_plans :: "'w PlanReconciler \<Rightarrow> Plan list \<Rightarrow> ('w, PhaseStatus) io" where
  "reconcile_os_plans suc [] =
     ok \<lparr>ps_state = UpgradeSucceeded, ps_message = ''All nodes upgraded successfully''\<rparr>"
| "reconcile_os_plans suc (p # ps) =
     attempt (wrap (''reconciling OS upgrade plan '' @ go_quote (plan_name p)) (suc p)) (\<lambda>result.
       if ps_state (pr_status result) \<noteq> PlanComplete then ok (pr_status result)
       else reconcile_os_plans suc ps)"

definition OSReconciler_Reconcile ::
  "(string \<Rightarrow> ImageTag outcome) \<Rightarrow> string \<Rightarrow> 'w kube \<Rightarrow> 'w PlanReconciler \<Rightarrow> Config option
     \<Rightarrow> ('w, PhaseStatus) io" where
  "OSReconciler_Reconcile new_tag env_fetch_remote K suc config =
     (case config of
        None \<Rightarrow> ok (SkippedStatus PhaseOS)
      | Some cfg \<Rightarrow>
     (case cfg_os cfg of
        None \<Rightarrow> ok (SkippedStatus PhaseOS)
      | Some osConfig \<Rightarrow>
          attempt (wrap ''preparing OS upgrade plans''
                    (OS_preparePlans new_tag env_fetch_remote K cfg osConfig))
            (\<lambda>plans. reconcile_os_plans suc plans)))"

definition NewOSReconciler ::
  "(string \<Rightarrow> ImageTag outcome) \<Rightarrow> string \<Rightarrow> 'w kube \<Rightarrow> 'w PlanReconciler \<Rightarrow> 'w PhaseHandler" where
  "NewOSReconciler new_tag env_fetch_remote K suc =
     \<lparr>ph_phase = PhaseOS, ph_reconcile = OSReconciler_Reconcile new_tag env_fetch_remote K suc\<rparr>"

text \<open>The node names of the log entry of a completed plan: a list that is filled by index.\<close>

definition getNodeNamesFromList :: "Node list \<Rightarrow> string list" where
  "getNodeNamesFromList nodes =
     foldl (\<lambda>names i. names[i := node_name (nodes ! i)]) (replicate (length nodes) []) [0..<length nodes]"

lemma fill_by_index:
  "n \<le> length xs \<Longrightarrow> foldl (\<lambda>ys i. ys[i := f i]) xs [0..<n] = map f [0..<n] @ drop n xs"
  by (induction n) (simp_all add: list_update_append Cons_nth_drop_Suc [symmetric])

lemma getNodeNamesFromList_eq: "getNodeNamesFromList nodes = map node_name nodes"
proof -
  have "getNodeNamesFromList nodes = map (\<lambda>i. node_name (nodes ! i)) [0..<length nodes] @ drop (length nodes) (replicate (length nodes) [])"
    unfolding getNodeNamesFromList_def by (rule fill_by_index) simp
  also have "\<dots> = map node_name nodes" by (rule nth_equalityI) simp_all
  finally show ?thesis .
qed

section \<open>The phase handler contract\<close>

context plan_reconciler
begin

lemma reconcile_os_plans_reported:
  "returns (reconcile_os_plans reconcile ps) (\<lambda>s. ps_state s \<in> reported_states)"
proof (induction ps)
  case Nil
  then show ?case by (simp add: returns_ok)
next
  case (Cons p ps)
  then show ?case
    by (auto intro!: returns_attempt [OF returns_wrap [OF incomplete_reported]] returns_ok)
qed

lemma os_phase_handler: "phase_handler (NewOSReconciler new_tag env K reconcile)"
proof
  fix config
  show "returns (ph_reconcile (NewOSReconciler new_tag env K reconcile) config)
      (\<lambda>s. ps_state s \<in> reported_states)"
    unfolding NewOSReconciler_def OSReconciler_Reconcile_def
    by (auto intro!: returns_ok returns_attempt_any reconcile_os_plans_reported
        split: option.split)
qed (simp add: NewOSReconciler_def OSReconciler_Reconcile_def)

end

interpretation os: phase_handler "NewOSReconciler new_tag env K (SUCPlanReconciler_Reconcile K)"
  for new_tag env K
  by (rule suc.os_phase_handler)

section \<open>The log of the phase\<close>

text \<open>The names of the plans the phase may create, in their order.\<close>

definition os_plan_pair :: "Plan list \<Rightarrow> OSConfig \<Rightarrow> bool" where
  "os_plan_pair ps osConfig \<longleftrightarrow>
     (\<exists>cp. plan_name cp = osControlPlaneName (os_version osConfig) \<and>
        (ps = [cp] \<or> (\<exists>wk. plan_name wk = osWorkerName (os_version osConfig) \<and> ps = [cp, wk])))"

lemma emits_OS_preparePlans:
  "emits (OS_preparePlans new_tag env (logged_kube K) cfg osConfig)
     (\<lambda>r evs. no_plan evs \<and> (\<forall>ps. r = Ok ps \<longrightarrow> os_plan_pair ps osConfig))"
  unfolding OS_preparePlans_def logged_kube_simps
  by (auto intro!: emits_rules split: option.split outcome.split simp: os_plan_pair_def
      dest!: OSControlPlane_Ok OSWorker_Ok)

lemma emits_reconcile_os_plans:
  "emits (reconcile_os_plans (SUCPlanReconciler_Reconcile (logged_kube K)) ps) (\<lambda>r evs. plan_log ps evs)"
proof (induction ps)
  case Nil
  then show ?case by (auto intro: emits_simple)
next
  case (Cons p ps)
  show ?case
    unfolding reconcile_os_plans.simps
  proof (intro emits_attempt emits_wrap emits_mono [OF emits_SUCPlanReconciler], goal_cases)
    case (1 r seg)
    then have only: "only_plan (plan_name p) seg" by (simp add: plan_segment_def)
    note stop = plan_log_only [OF only]
    show ?case
    proof (cases r)
      case (Ok res)
      show ?thesis
      proof (cases "ps_state (pr_status res) = PlanComplete")
        case True
        then have seen: "seen_complete (plan_name p) seg"
          using 1 Ok complete_on_seen unfolding plan_segment_def by blast
        show ?thesis
          using True Ok
          by (auto simp del: plan_log.simps intro!: emits_mono [OF Cons.IH] plan_log_cons [OF only seen])
      next
        case False
        then show ?thesis using Ok stop by (auto intro!: emits_simple simp del: plan_log.simps)
      qed
    qed (use stop in \<open>auto simp del: plan_log.simps\<close>)
  qed
qed

lemma emits_OSReconciler:
  assumes "cfg_os cfg = Some osConfig"
  shows "emits (OSReconciler_Reconcile new_tag env (logged_kube K)
           (SUCPlanReconciler_Reconcile (logged_kube K)) (Some cfg))
     (\<lambda>r evs. no_plan evs \<or> (\<exists>ps. os_plan_pair ps osConfig \<and> plan_log ps evs))"
  unfolding OSReconciler_Reconcile_def option.case assms
proof (intro emits_attempt emits_wrap emits_mono [OF emits_OS_preparePlans], goal_cases)
  case (1 r pre)
  then show ?case
    by (cases r) (auto intro!: emits_mono [OF emits_reconcile_os_plans] plan_log_prefix
        simp del: plan_log.simps)
qed

section \<open>Properties\<close>

text \<open>
  C15. In the OS phase no event concerns the worker plan before the log shows the control plane plan
  of the same version completed, and no event concerns any other plan.
\<close>

theorem os_workers_after_control_plane:
  assumes "cfg_os cfg = Some osConfig"
    and "evs = log_of (OSReconciler_Reconcile new_tag env (logged_kube K)
           (SUCPlanReconciler_Reconcile (logged_kube K)) (Some cfg)) w"
    and "i < length evs" and "touches_plan n (evs ! i)"
  shows "n = osControlPlaneName (os_version osConfig)
     \<or> n = osWorkerName (os_version osConfig)
       \<and> (\<exists>j<i. observes_complete (osControlPlaneName (os_version osConfig)) (evs ! j))"
proof -
  have ev: "evs ! i \<in> set evs" using assms(3) by simp
  from log_of_emits [OF emits_OSReconciler [OF assms(1), of new_tag env K], of w] assms(2)
  consider "no_plan evs" | ps where "os_plan_pair ps osConfig" "plan_log ps evs" by blast
  then show ?thesis
  proof cases
    case 1
    with ev assms(4) show ?thesis by (auto simp: no_plan_def)
  next
    case 2
    then show ?thesis
      using plan_log_pair [of _ _ evs i n] plan_log_single [OF _ ev assms(4)] assms(3,4)
        plan_names_disjoint(6)
      unfolding os_plan_pair_def by (metis (no_types))
  qed
qed
definition witness_os_log :: "event list" where
  "witness_os_log = log_of (OSReconciler_Reconcile witness_tag [] (logged_kube witness_kube)
     (SUCPlanReconciler_Reconcile (logged_kube witness_kube)) (Some witness_config)) ()"

theorem os_workers_after_control_plane_witness:
  "touches_plan (osWorkerName (os_version witness_os)) (witness_os_log ! 3)
     \<and> (\<exists>j<3. observes_complete (osControlPlaneName (os_version witness_os)) (witness_os_log ! j))"
proof -
  have len: "length witness_os_log = 5"
    and touch: "touches_plan (osWorkerName (os_version witness_os)) (witness_os_log ! 3)"
    by code_simp+
  have three: "3 < length witness_os_log" unfolding len by simp
  have cfg: "cfg_os witness_config = Some witness_os"
    by (simp add: witness_config_def)
  show ?thesis
    using os_workers_after_control_plane [OF cfg witness_os_log_def three touch] touch
      plan_names_disjoint(6) [of "os_version witness_os" "os_version witness_os"] by metis
qed

end
