(* ===== verification/Kubernetes_Reconciler.thy ===== *)
theory Kubernetes_Reconciler
  imports OS_Reconciler
begin

text \<open>
  The Kubernetes phase, after \<^verbatim>\<open>internal/upgrade/reconcilers/kubernetes.go\<close>: a snapshot of the
  packaged components, the control plane and worker plans with a check of every node they cover, and
  the wait for the packaged components. The interface \<open>KubernetesPackagedComponentsHandler\<close> of the
  source is the record \<open>packaged_handler\<close> with the locale \<open>packaged_components\<close>.
\<close>

section \<open>Definitions\<close>

record PackagedComponentChartSnapshot =
  pcs_name :: string
  pcs_namespace :: string
  pcs_chart_url :: string
  pcs_chart_content_sha :: string
  pcs_chart_version :: string
  pcs_release_revisions :: int

record PackagedComponentsSnapshot =
  snap_creation_time :: go_time
  snap_source_version :: string
  snap_charts :: "PackagedComponentChartSnapshot list"

record 'w packaged_handler =
  pch_GenerateSnapshot :: "Config \<Rightarrow> ('w, PackagedComponentsSnapshot) io"
  pch_ReconcileAvailability :: "string \<Rightarrow> PackagedComponentsSnapshot \<Rightarrow> ('w, PhaseStatus) io"

text \<open>The first \<open>Ready\<close> condition decides.\<close>

fun ready_condition :: "(node_condition_type \<times> condition_status) list \<Rightarrow> bool" where
  "ready_condition [] = False"
| "ready_condition ((t, s) # cs) = (if t = NodeReady then s = ConditionTrue else ready_condition cs)"

definition isNodeReady :: "Node \<Rightarrow> bool" where
  "isNodeReady node = ready_condition (node_conditions node)"

definition kubeletVersionMatches :: "string \<Rightarrow> string \<Rightarrow> bool" where
  "kubeletVersionMatches kubeletVersion targetVersion \<longleftrightarrow>
     trim_prefix kubeletVersion ''v'' = trim_prefix targetVersion ''v''"

fun all_nodes_upgraded :: "Node list \<Rightarrow> string \<Rightarrow> bool" where
  "all_nodes_upgraded [] targetVersion = True"
| "all_nodes_upgraded (node # nodes) targetVersion =
     (if \<not> isNodeReady node then False
      else if node_unschedulable node then False
      else if \<not> kubeletVersionMatches (node_kubelet_version node) targetVersion then False
      else all_nodes_upgraded nodes targetVersion)"

definition allNodesAtKubernetesVersion :: "Node list \<Rightarrow> string \<Rightarrow> bool" where
  "allNodesAtKubernetesVersion nodes targetVersion =
     (if length nodes = 0 then False else all_nodes_upgraded nodes targetVersion)"

definition K8s_preparePlans :: "'w kube \<Rightarrow> Config \<Rightarrow> KubernetesConfig \<Rightarrow> ('w, Plan list) io" where
  "K8s_preparePlans K config k8sConfig =
     (case k8s_drain_opts k8sConfig of
        None \<Rightarrow> panic ''nil drain options''
      | Some opts \<Rightarrow>
          (let cpPlan = KubernetesControlPlane (nn_name (cfg_release config))
                 (cfg_release_version config) (k8s_version k8sConfig) (drain_control_plane opts)
           in attempt (wrap ''listing cluster nodes'' (list_nodes K AllNodes)) (\<lambda>allNodes.
                if \<not> isControlPlaneOnlyCluster allNodes
                then ok [cpPlan, KubernetesWorker (nn_name (cfg_release config))
                       (cfg_release_version config) (k8s_version k8sConfig) (drain_worker opts)]
                else ok [cpPlan])))"

text \<open>The loop over the plans: the status to return early with, or \<open>None\<close> when every plan is
  complete and its nodes are verified.\<close>

fun reconcile_k8s_plans ::
  "'w PlanReconciler \<Rightarrow> string \<Rightarrow> Plan list \<Rightarrow> ('w, PhaseStatus option) io" where
  "reconcile_k8s_plans suc version [] = ok None"
| "reconcile_k8s_plans suc version (p # ps) =
     attempt (wrap (''reconciling Kubernetes upgrade plan '' @ go_quote (plan_name p)) (suc p)) (\<lambda>result.
       if ps_state (pr_status result) \<noteq> PlanComplete then ok (Some (pr_status result))
       else if \<not> allNodesAtKubernetesVersion (pr_nodes result) version
       then ok (Some \<lparr>ps_state = UpgradeInProgress,
                      ps_message = ''Plan '' @ plan_name p @ '' completed, waiting for node upgrade verification''\<rparr>)
       else reconcile_k8s_plans suc version ps)"

text \<open>The handler is an interface value, nil (\<open>None\<close>) when the distribution is not RKE2.\<close>

definition KubernetesReconciler_Reconcile ::
  "'w kube \<Rightarrow> 'w PlanReconciler \<Rightarrow> 'w packaged_handler option \<Rightarrow> Config option
     \<Rightarrow> ('w, PhaseStatus) io" where
  "KubernetesReconciler_Reconcile K suc handler config =
     (case config of
        None \<Rightarrow> ok (SkippedStatus PhaseKubernetes)
      | Some cfg \<Rightarrow>
     (case cfg_kubernetes cfg of
        None \<Rightarrow> ok (SkippedStatus PhaseKubernetes)
      | Some k8sConfig \<Rightarrow>
     (case handler of
        None \<Rightarrow> panic ''nil packaged components handler''
      | Some H \<Rightarrow>
     attempt (wrap ''generating Kubernetes packaged components snapshot'' (pch_GenerateSnapshot H cfg))
       (\<lambda>snapshot.
     attempt (wrap ''preparing Kubernetes upgrade plans'' (K8s_preparePlans K cfg k8sConfig)) (\<lambda>plans.
     attempt (reconcile_k8s_plans suc (k8s_version k8sConfig) plans) (\<lambda>early.
     case early of
       Some status \<Rightarrow> ok status
     | None \<Rightarrow>
         attempt (wrap ''ensuring Kubernetes packaged components availability''
                   (pch_ReconcileAvailability H (k8s_version k8sConfig) snapshot)) (\<lambda>status.
         if ps_state status \<noteq> K8sPackagedComponentsAvailable then ok status
         else ok \<lparr>ps_state = UpgradeSucceeded, ps_message = ''All nodes upgraded successfully''\<rparr>)))))))"

definition NewKubernetesReconciler ::
  "'w kube \<Rightarrow> 'w PlanReconciler \<Rightarrow> 'w packaged_handler option \<Rightarrow> 'w PhaseHandler" where
  "NewKubernetesReconciler K suc handler =
     \<lparr>ph_phase = PhaseKubernetes, ph_reconcile = KubernetesReconciler_Reconcile K suc handler\<rparr>"

section \<open>The interface of the packaged components\<close>

definition component_states :: "string set" where
  "component_states = {K8sPackagedComponentsAvailable, UpgradeInProgress}"

locale packaged_components =
  fixes H :: "'w packaged_handler"
  assumes component_state:
    "returns (pch_ReconcileAvailability H v snapshot) (\<lambda>s. ps_state s \<in> component_states)"

text \<open>The Kubernetes reconciler needs both interfaces.\<close>

locale kubernetes_parts = plan_reconciler reconcile + packaged_components H
  for reconcile :: "'w PlanReconciler" and H :: "'w packaged_handler"
begin

lemma reconcile_k8s_plans_reported:
  "returns (reconcile_k8s_plans reconcile v ps)
     (\<lambda>e. \<forall>s. e = Some s \<longrightarrow> ps_state s \<in> reported_states)"
proof (induction ps)
  case Nil
  then show ?case by (auto intro!: returns_ok)
next
  case (Cons p ps)
  then show ?case
    by (auto intro!: returns_attempt [OF returns_wrap [OF incomplete_reported]] returns_ok returns_if)
qed

lemma kubernetes_phase_handler: "phase_handler (NewKubernetesReconciler K reconcile (Some H))"
proof
  fix config
  have availability: "returns (wrap m (pch_ReconcileAvailability H v snapshot))
      (\<lambda>s. ps_state s \<noteq> K8sPackagedComponentsAvailable \<longrightarrow> ps_state s \<in> reported_states)" for m v snapshot
    by (rule returns_wrap, rule returns_mono [OF component_state])
      (auto simp: component_states_def reported_states_def)
  show "returns (ph_reconcile (NewKubernetesReconciler K reconcile (Some H)) config)
      (\<lambda>s. ps_state s \<in> reported_states)"
    unfolding NewKubernetesReconciler_def KubernetesReconciler_Reconcile_def
    by (auto intro!: returns_ok returns_attempt_any returns_attempt [OF reconcile_k8s_plans_reported]
        returns_attempt [OF availability] split: option.split)
qed (simp add: NewKubernetesReconciler_def KubernetesReconciler_Reconcile_def)

end

section \<open>Lemmas\<close>

lemma all_nodes_upgraded_iff:
  "all_nodes_upgraded nodes v \<longleftrightarrow>
     (\<forall>n \<in> set nodes. isNodeReady n \<and> \<not> node_unschedulable n
        \<and> kubeletVersionMatches (node_kubelet_version n) v)"
  by (induction nodes) auto

lemma ready_condition_find:
  "ready_condition cs = (case find (\<lambda>c. fst c = NodeReady) cs of None \<Rightarrow> False | Some c \<Rightarrow> snd c = ConditionTrue)"
  by (induction cs rule: ready_condition.induct) auto

section \<open>The log of the phase\<close>

text \<open>The plans the phase works through: the one for the control plane, and one for the workers
  unless every node that was listed belongs to the control plane.\<close>

definition k8s_plans :: "Plan list \<Rightarrow> KubernetesConfig \<Rightarrow> event list \<Rightarrow> bool" where
  "k8s_plans ps k8sConfig evs \<longleftrightarrow>
     (\<exists>cp nodes. plan_name cp = kubernetesControlPlaneName (k8s_version k8sConfig)
        \<and> ListNodes AllNodes (Ok nodes) \<in> set evs
        \<and> (if isControlPlaneOnlyCluster nodes then ps = [cp]
           else \<exists>wk. plan_name wk = kubernetesWorkerName (k8s_version k8sConfig) \<and> ps = [cp, wk]))"

lemma k8s_plans_intros:
  "plan_name cp = kubernetesControlPlaneName (k8s_version kc) \<Longrightarrow> ListNodes AllNodes (Ok nodes) \<in> set evs
     \<Longrightarrow> isControlPlaneOnlyCluster nodes \<Longrightarrow> k8s_plans [cp] kc evs"
  "plan_name cp = kubernetesControlPlaneName (k8s_version kc) \<Longrightarrow> ListNodes AllNodes (Ok nodes) \<in> set evs
     \<Longrightarrow> \<not> isControlPlaneOnlyCluster nodes \<Longrightarrow> plan_name wk = kubernetesWorkerName (k8s_version kc)
     \<Longrightarrow> k8s_plans [cp, wk] kc evs"
  unfolding k8s_plans_def by (intro exI [of _ cp] exI [of _ nodes], simp)+

lemma k8s_plans_append:
  "k8s_plans ps kc xs \<or> k8s_plans ps kc ys \<Longrightarrow> k8s_plans ps kc (xs @ ys)"
  unfolding k8s_plans_def by (elim disjE) force+

text \<open>Every plan of the list was seen complete, on nodes that are all at the version.\<close>

definition verified_plans ::
  "(LabelSelectorRequirement list option \<Rightarrow> string outcome) \<Rightarrow> string \<Rightarrow> Plan list \<Rightarrow> event list \<Rightarrow> bool" where
  "verified_plans selector_of v ps evs \<longleftrightarrow>
     (\<forall>p \<in> set ps. \<exists>nodes. complete_on selector_of (plan_name p) nodes evs
        \<and> allNodesAtKubernetesVersion nodes v)"

lemma verified_plans_append:
  "verified_plans f v ps xs \<or> verified_plans f v ps ys \<Longrightarrow> verified_plans f v ps (xs @ ys)"
  unfolding verified_plans_def by (blast intro: complete_on_append)

lemma verified_plans_cons:
  assumes "complete_on f (plan_name p) nodes seg" "allNodesAtKubernetesVersion nodes v"
    and "verified_plans f v ps rest"
  shows "verified_plans f v (p # ps) (seg @ rest)"
proof -
  have "complete_on f (plan_name p) nodes (seg @ rest)"
    using assms(1) complete_on_append by blast
  with assms(2) verified_plans_append [of f v ps seg rest] assms(3) show ?thesis
    by (auto simp: verified_plans_def)
qed

lemma emits_K8s_preparePlans:
  "emits (K8s_preparePlans (logged_kube K) cfg k8sConfig)
     (\<lambda>r evs. no_plan evs \<and> (\<forall>ps. r = Ok ps \<longrightarrow> k8s_plans ps k8sConfig evs))"
  unfolding K8s_preparePlans_def logged_kube_simps Let_def
  by (auto intro!: emits_rules k8s_plans_intros split: option.split outcome.split)

lemma emits_reconcile_k8s_plans:
  "emits (reconcile_k8s_plans (SUCPlanReconciler_Reconcile (logged_kube K)) v ps)
     (\<lambda>r evs. plan_log ps evs \<and> (r = Ok None \<longrightarrow> verified_plans (label_selector K) v ps evs))"
proof (induction ps)
  case Nil
  then show ?case by (auto intro: emits_simple simp: verified_plans_def)
next
  case (Cons p ps)
  show ?case
    unfolding reconcile_k8s_plans.simps
  proof (intro emits_attempt emits_wrap emits_mono [OF emits_SUCPlanReconciler], goal_cases)
    case (1 r seg)
    then have only: "only_plan (plan_name p) seg" by (simp add: plan_segment_def)
    note stop = plan_log_only [OF only]
    show ?case
    proof (cases r)
      case (Ok res)
      show ?thesis
      proof (cases "ps_state (pr_status res) = PlanComplete
          \<and> allNodesAtKubernetesVersion (pr_nodes res) v")
        case True
        then have here: "complete_on (label_selector K) (plan_name p) (pr_nodes res) seg"
          using 1 Ok by (simp add: plan_segment_def)
        have seen: "seen_complete (plan_name p) seg" by (rule complete_on_seen [OF here])
        note verified = verified_plans_cons [OF here conjunct2 [OF True]]
        show ?thesis
          using True Ok
          by (auto simp del: plan_log.simps
              intro!: emits_mono [OF Cons.IH] plan_log_cons [OF only seen] verified)
      next
        case False
        then show ?thesis using Ok stop by (auto intro!: emits_simple simp del: plan_log.simps)
      qed
    qed (use stop in \<open>auto simp del: plan_log.simps\<close>)
  qed
qed

end
