(* ===== verification/Chart_Sort.thy ===== *)
theory Chart_Sort
  imports Upgrade_Config
begin

text \<open>
  The dependency order of the charts, after \<open>sortChartConfigsByDependencies\<close> in
  \<^verbatim>\<open>internal/upgrade/reconcilers/helm.go\<close>: a depth-first search that puts every chart after the
  charts it depends on and reports a cycle. The recursion of the closure \<open>visit\<close> is the mutual
  recursion below; it ends because no chart is entered while it is in progress.
\<close>

section \<open>Definitions\<close>

text \<open>
  The variables the closure shares: the names for which \<open>visited\<close> and \<open>inProgress\<close> hold, and the
  result. The name of a chart comes from \<open>GetName\<close> of the elemental library: the parameter \<open>nm\<close>.
\<close>

record sort_state =
  st_visited :: "string fset"
  st_in_progress :: "string fset"
  st_result :: "HelmChartConfig list"

definition chart_config_map ::
  "(HelmChart \<Rightarrow> string) \<Rightarrow> HelmChartConfig list \<Rightarrow> (string, HelmChartConfig) fmap" where
  "chart_config_map nm cs = foldl (\<lambda>m c. fmupd (nm (hcc_chart c)) c m) fmempty cs"

definition helm_deps :: "HelmChartConfig \<Rightarrow> string list" where
  "helm_deps c = map dep_name (filter (\<lambda>d. dep_type d = DependencyTypeHelm) (hc_depends_on (hcc_chart c)))"

lemma obind_cong [fundef_cong]:
  "r = r' \<Longrightarrow> (\<And>a. r' = Ok a \<Longrightarrow> f a = g a) \<Longrightarrow> obind r f = obind r' g"
  by (cases r') auto

text \<open>\<open>visit_all\<close> is the loop over names, both the one over the dependencies inside \<open>visit\<close> and
  the outer one over all charts.\<close>

function (sequential)
  visit :: "(string, HelmChartConfig) fmap \<Rightarrow> string \<Rightarrow> sort_state \<Rightarrow> sort_state outcome" and
  visit_all :: "(string, HelmChartConfig) fmap \<Rightarrow> string list \<Rightarrow> sort_state \<Rightarrow> sort_state outcome" where
  "visit m n st =
     (if n |\<in>| st_in_progress st
      then Err (Errorf (''circular dependency detected involving chart '' @ n))
      else if n |\<in>| st_visited st then Ok st
      else case fmlookup m n of
             None \<Rightarrow> Ok st
           | Some c \<Rightarrow>
               obind (visit_all m (helm_deps c) (st\<lparr>st_in_progress := finsert n (st_in_progress st)\<rparr>)) (\<lambda>st'.
                 Ok \<lparr>st_visited = finsert n (st_visited st'),
                     st_in_progress = st_in_progress st' |-| {|n|},
                     st_result = st_result st' @ [c]\<rparr>))"
| "visit_all m [] st = Ok st"
| "visit_all m (n # ns) st = obind (visit m n st) (\<lambda>st'. visit_all m ns st')"
  by pat_completeness auto

text \<open>A visit that succeeds leaves the charts in progress as it found them.\<close>

lemma visit_in_progress_partial:
  "visit_visit_all_dom (Inl (m, n, st)) \<Longrightarrow>
     \<forall>st'. visit m n st = Ok st' \<longrightarrow> st_in_progress st' = st_in_progress st"
  "visit_visit_all_dom (Inr (m, ns, st)) \<Longrightarrow>
     \<forall>st'. visit_all m ns st = Ok st' \<longrightarrow> st_in_progress st' = st_in_progress st"
proof (induction rule: visit_visit_all.pinduct)
  case (1 m n st)
  show ?case
  proof (intro allI impI)
    fix st'
    assume "visit m n st = Ok st'"
    then show "st_in_progress st' = st_in_progress st"
      using 1 by (auto simp: visit.psimps obind_eq_Ok_iff split: if_splits option.splits)
  qed
next
  case (2 m st)
  then show ?case by (simp add: visit_all.psimps(1))
next
  case (3 m n ns st)
  show ?case
  proof (intro allI impI)
    fix st'
    assume "visit_all m (n # ns) st = Ok st'"
    then have "obind (visit m n st) (\<lambda>st'. visit_all m ns st') = Ok st'"
      by (subst (asm) visit_all.psimps(2) [OF 3(1)])
    then obtain st1 where "visit m n st = Ok st1" and "visit_all m ns st1 = Ok st'"
      unfolding obind_eq_Ok_iff by blast
    then show "st_in_progress st' = st_in_progress st"
      using 3(2) 3(3) [of st1] by metis
  qed
qed

definition visit_measure ::
  "(string, HelmChartConfig) fmap \<Rightarrow> sort_state \<Rightarrow> nat" where
  "visit_measure m st = fcard (fmdom m |-| st_in_progress st)"

lemma visit_measure_enter:
  assumes "fmlookup m n = Some c" and "n |\<notin>| st_in_progress st"
  shows "visit_measure m (st\<lparr>st_in_progress := finsert n (st_in_progress st)\<rparr>) < visit_measure m st"
proof -
  have "n |\<in>| fmdom m |-| st_in_progress st"
    using assms by (simp add: fmdomI)
  then have "fmdom m |-| finsert n (st_in_progress st) |\<subset>| fmdom m |-| st_in_progress st"
    by blast
  then show ?thesis
    unfolding visit_measure_def by (simp add: pfsubset_fcard_mono)
qed

lemma visit_measure_cong: "st_in_progress st' = st_in_progress st \<Longrightarrow> visit_measure m st' = visit_measure m st"
  by (simp add: visit_measure_def)

lemma visit_total: "All visit_visit_all_dom"
proof (relation "measures [\<lambda>x. case x of Inl (m, n, st) \<Rightarrow> visit_measure m st
                                      | Inr (m, ns, st) \<Rightarrow> visit_measure m st,
                          \<lambda>x. case x of Inl _ \<Rightarrow> 0 | Inr (m, ns, st) \<Rightarrow> Suc (length ns)]",
    goal_cases)
  case (2 m n st c)
  then show ?case by (simp add: visit_measure_enter)
next
  case (4 m n ns st st')
  then have "st_in_progress st' = st_in_progress st"
    using visit_in_progress_partial(1) by blast
  then show ?case by (simp add: visit_measure_cong [of st' st])
qed simp_all

termination visit
  by (rule visit_total)

declare visit.simps [simp del]

lemma visit_in_progress: "visit m n st = Ok st' \<Longrightarrow> st_in_progress st' = st_in_progress st"
  by (rule visit_in_progress_partial(1) [rule_format, OF spec [OF visit_total]])

definition sortChartConfigsByDependencies ::
  "(HelmChart \<Rightarrow> string) \<Rightarrow> HelmChartConfig list \<Rightarrow> HelmChartConfig list outcome" where
  "sortChartConfigsByDependencies nm cs =
     obind (visit_all (chart_config_map nm cs) (map (\<lambda>c. nm (hcc_chart c)) cs)
              \<lparr>st_visited = {||}, st_in_progress = {||}, st_result = []\<rparr>)
       (\<lambda>st. Ok (st_result st))"

section \<open>Dependency order\<close>

abbreviation chart_names :: "(HelmChart \<Rightarrow> string) \<Rightarrow> HelmChartConfig list \<Rightarrow> string list" where
  "chart_names nm cs \<equiv> map (\<lambda>c. nm (hcc_chart c)) cs"

text \<open>The dependencies among the known charts.\<close>

definition chart_dep :: "(string, HelmChartConfig) fmap \<Rightarrow> (string \<times> string) set" where
  "chart_dep m = {(a, b). \<exists>c. fmlookup m a = Some c \<and> b \<in> set (helm_deps c) \<and> b |\<in>| fmdom m}"

text \<open>Every known dependency of a chart stands before it.\<close>

definition deps_first ::
  "(HelmChart \<Rightarrow> string) \<Rightarrow> (string, HelmChartConfig) fmap \<Rightarrow> HelmChartConfig list \<Rightarrow> bool" where
  "deps_first nm m xs \<longleftrightarrow>
     (\<forall>i < length xs. \<forall>d \<in> set (helm_deps (xs ! i)). d |\<in>| fmdom m \<longrightarrow>
        d \<in> set (take i (chart_names nm xs)))"

definition sort_inv ::
  "(HelmChart \<Rightarrow> string) \<Rightarrow> (string, HelmChartConfig) fmap \<Rightarrow> sort_state \<Rightarrow> bool" where
  "sort_inv nm m st \<longleftrightarrow>
     distinct (chart_names nm (st_result st))
     \<and> st_visited st = fset_of_list (chart_names nm (st_result st))
     \<and> (\<forall>c \<in> set (st_result st). fmlookup m (nm (hcc_chart c)) = Some c)
     \<and> deps_first nm m (st_result st)
     \<and> st_visited st |\<inter>| st_in_progress st = {||}"

lemma chart_config_map_find:
  "fmlookup (chart_config_map nm cs) n = find (\<lambda>c. nm (hcc_chart c) = n) (rev cs)"
  unfolding chart_config_map_def by (induction cs rule: rev_induct) auto

lemma chart_config_map_Some:
  "fmlookup (chart_config_map nm cs) n = Some c \<Longrightarrow> c \<in> set cs \<and> nm (hcc_chart c) = n"
  unfolding chart_config_map_find by (auto simp: find_Some_iff) (metis nth_mem length_rev set_rev)

lemma fmdom_chart_config_map: "fmdom (chart_config_map nm cs) = fset_of_list (chart_names nm cs)"
  unfolding chart_config_map_def by (induction cs rule: rev_induct) auto

lemma chart_config_map_distinct:
  assumes "distinct (chart_names nm cs)" and "c \<in> set cs"
  shows "fmlookup (chart_config_map nm cs) (nm (hcc_chart c)) = Some c"
proof -
  have "nm (hcc_chart c) |\<in>| fmdom (chart_config_map nm cs)"
    using assms(2) by (auto simp: fmdom_chart_config_map fset_of_list_elem)
  then obtain c' where c': "fmlookup (chart_config_map nm cs) (nm (hcc_chart c)) = Some c'" by auto
  then have "c' = c"
    using chart_config_map_Some [OF c'] assms by (auto simp: distinct_map inj_on_def)
  with c' show ?thesis by simp
qed

lemma deps_first_snoc:
  "deps_first nm m xs \<Longrightarrow>
     \<forall>d \<in> set (helm_deps c). d |\<in>| fmdom m \<longrightarrow> d \<in> set (chart_names nm xs) \<Longrightarrow>
     deps_first nm m (xs @ [c])"
  by (auto simp: deps_first_def nth_append less_Suc_eq)

lemma sort_inv_enter:
  "sort_inv nm m st \<Longrightarrow> n |\<notin>| st_visited st \<Longrightarrow>
     sort_inv nm m (st\<lparr>st_in_progress := finsert n (st_in_progress st)\<rparr>)"
  by (auto simp: sort_inv_def)

lemma sort_inv_leave:
  assumes "sort_inv nm m st" and "fmlookup m n = Some c" and "nm (hcc_chart c) = n"
    and "n |\<in>| st_in_progress st"
    and "\<forall>d \<in> set (helm_deps c). d |\<in>| fmdom m \<longrightarrow> d |\<in>| st_visited st"
  shows "sort_inv nm m \<lparr>st_visited = finsert n (st_visited st),
           st_in_progress = st_in_progress st |-| {|n|}, st_result = st_result st @ [c]\<rparr>"
proof -
  have "n |\<notin>| st_visited st" using assms(1,4) by (auto simp: sort_inv_def)
  moreover have "deps_first nm m (st_result st @ [c])"
    using assms(1,5) by (intro deps_first_snoc) (auto simp: sort_inv_def fset_of_list_elem)
  moreover have "distinct (chart_names nm (st_result st @ [c]))"
    using assms(1) \<open>n |\<notin>| st_visited st\<close> by (simp add: sort_inv_def fset_of_list.rep_eq assms(3))
  moreover have "finsert n (st_visited st) = fset_of_list (chart_names nm (st_result st @ [c]))"
    using assms(1) by (simp add: sort_inv_def assms(3))
  moreover have "\<forall>c' \<in> set (st_result st @ [c]). fmlookup m (nm (hcc_chart c')) = Some c'"
    using assms(1,2) by (simp add: sort_inv_def assms(3))
  moreover have "finsert n (st_visited st) |\<inter>| (st_in_progress st |-| {|n|}) = {||}"
    using assms(1) by (auto simp: sort_inv_def)
  ultimately show ?thesis by (simp add: sort_inv_def)
qed

lemma visit_keeps:
  assumes names: "\<And>k c. fmlookup m k = Some c \<Longrightarrow> nm (hcc_chart c) = k"
  shows "visit m n st = Ok st' \<Longrightarrow> sort_inv nm m st \<Longrightarrow>
       sort_inv nm m st' \<and> st_in_progress st' = st_in_progress st \<and> st_visited st |\<subseteq>| st_visited st'
         \<and> (n |\<in>| fmdom m \<longrightarrow> n |\<in>| st_visited st')"
    and "visit_all m ns st = Ok st' \<Longrightarrow> sort_inv nm m st \<Longrightarrow>
       sort_inv nm m st' \<and> st_in_progress st' = st_in_progress st \<and> st_visited st |\<subseteq>| st_visited st'
         \<and> (\<forall>n \<in> set ns. n |\<in>| fmdom m \<longrightarrow> n |\<in>| st_visited st')"
  using names
proof (induction m n st and m ns st arbitrary: st' and st' rule: visit_visit_all.induct)
  case (1 m n st)
  show ?case
  proof (cases "n |\<in>| st_visited st \<or> fmlookup m n = None")
    case True
    then have "st' = st" using 1(2) by (auto simp: visit.simps split: if_splits)
    with True 1(3) show ?thesis by auto
  next
    case False
    then obtain c where c: "fmlookup m n = Some c" and new: "n |\<notin>| st_visited st" by auto
    let ?st0 = "st\<lparr>st_in_progress := finsert n (st_in_progress st)\<rparr>"
    have out: "n |\<notin>| st_in_progress st" using 1(2) by (auto simp: visit.simps)
    from 1(2) c new out obtain st1 where run: "visit_all m (helm_deps c) ?st0 = Ok st1"
      and st': "st' = \<lparr>st_visited = finsert n (st_visited st1),
                       st_in_progress = st_in_progress st1 |-| {|n|}, st_result = st_result st1 @ [c]\<rparr>"
      by (auto simp: visit.simps obind_eq_Ok_iff)
    from 1(1) [OF out new c run sort_inv_enter [OF 1(3) new] 1(4)]
    have mid: "sort_inv nm m st1" "st_in_progress st1 = finsert n (st_in_progress st)"
      "st_visited st |\<subseteq>| st_visited st1"
      "\<forall>d \<in> set (helm_deps c). d |\<in>| fmdom m \<longrightarrow> d |\<in>| st_visited st1" by auto
    have "sort_inv nm m st'"
      unfolding st' by (rule sort_inv_leave [OF mid(1) c 1(4) [OF c] _ mid(4)]) (simp add: mid(2))
    with mid out show ?thesis by (auto simp: st')
  qed
next
  case (2 m st)
  then show ?case by simp
next
  case (3 m n ns st)
  from 3(3) obtain st1 where first: "visit m n st = Ok st1" and rest: "visit_all m ns st1 = Ok st'"
    by (auto simp: obind_eq_Ok_iff)
  note mid = 3(1) [OF first 3(4) 3(5)]
  note post = 3(2) [OF first rest _ 3(5)]
  from mid post show ?case by auto
qed

text \<open>An error of a visit is a name that is being visited, or comes from a dependency.\<close>

lemma visit_error_descends:
  assumes "visit m n st = Err e" and "n |\<notin>| st_in_progress st"
  obtains c where "n |\<notin>| st_visited st" "fmlookup m n = Some c"
    "visit_all m (helm_deps c) (st\<lparr>st_in_progress := finsert n (st_in_progress st)\<rparr>) = Err e"
  using assms by (auto simp: visit.simps obind_def split: if_splits option.splits outcome.splits)

lemma visit_all_error:
  assumes "visit_all m (n # ns) st = Err e"
  obtains (here) "visit m n st = Err e"
    | (later) st1 where "visit m n st = Ok st1" "visit_all m ns st1 = Err e"
  using assms by (cases "visit m n st") auto

lemma visit_error_cycle:
  "visit m n st = Err e \<Longrightarrow> st_in_progress st |\<subseteq>| fmdom m \<Longrightarrow>
     (n |\<in>| fmdom m \<Longrightarrow> \<forall>p. p |\<in>| st_in_progress st \<longrightarrow> (p, n) \<in> (chart_dep m)\<^sup>+) \<Longrightarrow>
     \<exists>a. (a, a) \<in> (chart_dep m)\<^sup>+"
  "visit_all m ns st = Err e \<Longrightarrow> st_in_progress st |\<subseteq>| fmdom m \<Longrightarrow>
     \<forall>n \<in> set ns. n |\<in>| fmdom m \<longrightarrow> (\<forall>p. p |\<in>| st_in_progress st \<longrightarrow> (p, n) \<in> (chart_dep m)\<^sup>+) \<Longrightarrow>
     \<exists>a. (a, a) \<in> (chart_dep m)\<^sup>+"
proof (induction m n st and m ns st rule: visit_visit_all.induct)
  case (1 m n st)
  show ?case
  proof (cases "n |\<in>| st_in_progress st")
    case True
    with 1(3,4) have "(n, n) \<in> (chart_dep m)\<^sup>+" by blast
    then show ?thesis by blast
  next
    case out: False
    obtain c where new: "n |\<notin>| st_visited st" and c: "fmlookup m n = Some c"
      and run: "visit_all m (helm_deps c) (st\<lparr>st_in_progress := finsert n (st_in_progress st)\<rparr>) = Err e"
      by (rule visit_error_descends [OF 1(2) out])
    have dom: "n |\<in>| fmdom m" using c by (rule fmdomI)
    have step: "(n, d) \<in> chart_dep m" if "d \<in> set (helm_deps c)" "d |\<in>| fmdom m" for d
      using that c by (auto simp: chart_dep_def)
    show ?thesis
    proof (rule 1(1) [OF out new c run])
      show "st_in_progress (st\<lparr>st_in_progress := finsert n (st_in_progress st)\<rparr>) |\<subseteq>| fmdom m"
        using 1(3) dom by simp
      show "\<forall>d \<in> set (helm_deps c). d |\<in>| fmdom m \<longrightarrow>
          (\<forall>p. p |\<in>| st_in_progress (st\<lparr>st_in_progress := finsert n (st_in_progress st)\<rparr>) \<longrightarrow>
             (p, d) \<in> (chart_dep m)\<^sup>+)"
        using step 1(4) [OF dom] by (auto intro: trancl_into_trancl)
    qed
  qed
next
  case (2 m st)
  then show ?case by simp
next
  case (3 m n ns st)
  from 3(3) show ?case
  proof (cases rule: visit_all_error)
    case here
    then show ?thesis by (rule 3(1)) (use 3(4,5) in simp_all)
  next
    case (later st1)
    have "st_in_progress st1 = st_in_progress st" by (rule visit_in_progress [OF later(1)])
    with 3(2) [OF later] 3(4,5) show ?thesis by simp
  qed
qed

lemma visit_no_panic:
  "visit m n st \<noteq> Panic p"
  "visit_all m ns st \<noteq> Panic p"
  by (induction m n st and m ns st rule: visit_visit_all.induct)
    (auto simp: visit.simps obind_def split: if_splits option.splits outcome.splits)

lemma visit_all_skip:
  "\<forall>d \<in> set ds. d |\<notin>| st_in_progress st \<and> (d |\<in>| st_visited st \<or> d |\<notin>| fmdom m) \<Longrightarrow>
     visit_all m ds st = Ok st"
  by (induction ds) (auto simp: visit.simps fmdom_notD split: option.split)

lemma sort_final:
  assumes "sortChartConfigsByDependencies nm cs = Ok out"
  shows "\<exists>st. sort_inv nm (chart_config_map nm cs) st \<and> st_result st = out
     \<and> st_visited st = fset_of_list (chart_names nm cs)"
proof -
  let ?m = "chart_config_map nm cs"
  let ?st0 = "\<lparr>st_visited = {||}, st_in_progress = {||}, st_result = []\<rparr>"
  obtain st where run: "visit_all ?m (chart_names nm cs) ?st0 = Ok st" and out: "st_result st = out"
    using assms by (auto simp: sortChartConfigsByDependencies_def obind_eq_Ok_iff)
  have "sort_inv nm ?m ?st0" by (simp add: sort_inv_def deps_first_def)
  moreover have "fmlookup ?m k = Some c \<Longrightarrow> nm (hcc_chart c) = k" for k c
    using chart_config_map_Some by blast
  ultimately have "sort_inv nm ?m st \<and> (\<forall>n \<in> set (chart_names nm cs). n |\<in>| fmdom ?m \<longrightarrow> n |\<in>| st_visited st)"
    using visit_keeps(2) [of ?m nm, OF _ run] by blast
  then
  have inv: "sort_inv nm ?m st" and "\<forall>n \<in> set (chart_names nm cs). n |\<in>| st_visited st"
    by (auto simp: fmdom_chart_config_map fset_of_list_elem)
  then have "fset_of_list (chart_names nm cs) |\<subseteq>| st_visited st"
    by (auto simp: fset_of_list_elem)
  moreover have "st_visited st |\<subseteq>| fset_of_list (chart_names nm cs)"
  proof
    fix x assume "x |\<in>| st_visited st"
    then obtain c where "c \<in> set (st_result st)" "x = nm (hcc_chart c)"
      using inv by (auto simp: sort_inv_def fset_of_list.rep_eq)
    then have "x |\<in>| fmdom ?m"
      using inv by (auto simp: sort_inv_def intro: fmdomI)
    then show "x |\<in>| fset_of_list (chart_names nm cs)"
      unfolding fmdom_chart_config_map .
  qed
  ultimately show ?thesis using inv out by blast
qed

lemma sort_outcome:
  "(\<exists>out. sortChartConfigsByDependencies nm cs = Ok out)
     \<or> (\<exists>e. sortChartConfigsByDependencies nm cs = Err e)"
  using visit_no_panic(2) by (auto simp: sortChartConfigsByDependencies_def obind_def split: outcome.split)

text \<open>Where a chart of this name stands; a list in dependency order puts dependencies first.\<close>

definition position :: "(HelmChart \<Rightarrow> string) \<Rightarrow> HelmChartConfig list \<Rightarrow> string \<Rightarrow> nat" where
  "position nm xs a = length (takeWhile (\<lambda>b. b \<noteq> a) (chart_names nm xs))"

lemma position_nth:
  assumes "distinct (chart_names nm xs)" and "i < length xs"
  shows "position nm xs (nm (hcc_chart (xs ! i))) = i"
proof -
  let ?ns = "chart_names nm xs"
  have "takeWhile (\<lambda>b. b \<noteq> ?ns ! i) ?ns = take i ?ns"
  proof (rule takeWhile_eq_take_P_nth)
    fix j assume "j < i" "j < length ?ns"
    then show "?ns ! j \<noteq> ?ns ! i" using assms nth_eq_iff_index_eq [of ?ns j i] by simp
  qed simp
  then show ?thesis using assms(2) by (simp add: position_def)
qed

lemma ordered_acyclic:
  assumes "sort_inv nm m st" and "fmdom m |\<subseteq>| st_visited st"
  shows "acyclic (chart_dep m)"
proof -
  let ?xs = "st_result st"
  have "position nm ?xs b < position nm ?xs a" if "(a, b) \<in> chart_dep m" for a b
  proof -
    from that obtain c where c: "fmlookup m a = Some c" and b: "b \<in> set (helm_deps c)" "b |\<in>| fmdom m"
      by (auto simp: chart_dep_def)
    have "a |\<in>| st_visited st" using assms(2) fmdomI [OF c] by blast
    then obtain i where i: "i < length ?xs" and a: "nm (hcc_chart (?xs ! i)) = a"
      using assms(1) by (auto simp: sort_inv_def fset_of_list_elem in_set_conv_nth)
    moreover have "fmlookup m (nm (hcc_chart (?xs ! i))) = Some (?xs ! i)"
      using assms(1) i by (simp add: sort_inv_def)
    ultimately have "?xs ! i = c" using c by simp
    then have "b \<in> set (take i (chart_names nm ?xs))"
      using assms(1) i b by (auto simp: sort_inv_def deps_first_def)
    then obtain j where j: "j < i" and "chart_names nm ?xs ! j = b"
      by (auto simp: in_set_conv_nth)
    then have "nm (hcc_chart (?xs ! j)) = b" using i by simp
    with j i a show ?thesis
      using position_nth [of nm ?xs] assms(1) by (fastforce simp: sort_inv_def)
  qed
  then have "(chart_dep m)\<inverse> \<subseteq> measure (position nm ?xs)" by auto
  then have "wf ((chart_dep m)\<inverse>)" by (rule wf_subset [OF wf_measure])
  then show ?thesis using wf_acyclic acyclic_converse by blast
qed

section \<open>Properties\<close>

text \<open>
  C11. Sorting keeps the charts and puts dependencies first: the sorted list has each chart name once,
  the same charts as the input when its names are distinct (of two charts with one name the later
  one is kept), and every Helm dependency of a chart that is itself in the list stands before it.
\<close>

theorem sortChartConfigs_order:
  assumes "sortChartConfigsByDependencies nm cs = Ok out"
  shows "distinct (chart_names nm out)
     \<and> set (chart_names nm out) = set (chart_names nm cs)
     \<and> (\<forall>c \<in> set out. find (\<lambda>x. nm (hcc_chart x) = nm (hcc_chart c)) (rev cs) = Some c)
     \<and> (\<forall>i < length out. \<forall>d \<in> set (helm_deps (out ! i)). d \<in> set (chart_names nm cs) \<longrightarrow>
          (\<exists>j < i. nm (hcc_chart (out ! j)) = d))"
proof -
  obtain st where inv: "sort_inv nm (chart_config_map nm cs) st" and out: "st_result st = out"
    and visited: "st_visited st = fset_of_list (chart_names nm cs)"
    using sort_final [OF assms] by blast
  have "set (chart_names nm out) = set (chart_names nm cs)"
    using inv out visited unfolding sort_inv_def by (metis fset_of_list.rep_eq)
  moreover have "\<exists>j < i. nm (hcc_chart (out ! j)) = d"
    if "d \<in> set (take i (chart_names nm out))" "i < length out" for i d
    using that by (auto simp: in_set_conv_nth)
  ultimately show ?thesis
    using inv out
    by (simp add: sort_inv_def deps_first_def chart_config_map_find fmdom_chart_config_map
        fset_of_list.rep_eq)
qed

text \<open>
  C12. Sorting fails exactly when the charts depend on each other in a cycle; otherwise it returns
  a list. It always returns: \<open>visit\<close> is a total function.
\<close>

theorem sortChartConfigs_error_iff_cycle:
  "((\<exists>e. sortChartConfigsByDependencies nm cs = Err e) \<longleftrightarrow> \<not> acyclic (chart_dep (chart_config_map nm cs)))
   \<and> ((\<exists>out. sortChartConfigsByDependencies nm cs = Ok out) \<longleftrightarrow> acyclic (chart_dep (chart_config_map nm cs)))"
proof -
  have "\<not> acyclic (chart_dep (chart_config_map nm cs))"
    if "sortChartConfigsByDependencies nm cs = Err e" for e
  proof -
    from that have "visit_all (chart_config_map nm cs) (chart_names nm cs)
        \<lparr>st_visited = {||}, st_in_progress = {||}, st_result = []\<rparr> = Err e"
      by (auto simp: sortChartConfigsByDependencies_def obind_def split: outcome.splits)
    then have "\<exists>a. (a, a) \<in> (chart_dep (chart_config_map nm cs))\<^sup>+"
      by (rule visit_error_cycle(2)) simp_all
    then show ?thesis by (simp add: acyclic_def)
  qed
  moreover have "acyclic (chart_dep (chart_config_map nm cs))"
    if "sortChartConfigsByDependencies nm cs = Ok out" for out
    using sort_final [OF that] ordered_acyclic by (metis fmdom_chart_config_map order_refl)
  ultimately show ?thesis using sort_outcome by blast
qed

text \<open>
  Sorting is stable on what is already in order: a list with distinct names in which no chart
  depends on itself or on a later chart is returned as it is; in particular sorting a sorted list
  changes nothing.
\<close>

theorem sortChartConfigs_sorted:
  assumes "distinct (chart_names nm cs)" and "deps_first nm (chart_config_map nm cs) cs"
  shows "sortChartConfigsByDependencies nm cs = Ok cs"
proof -
  let ?m = "chart_config_map nm cs"
  have "visit_all ?m (chart_names nm zs)
        \<lparr>st_visited = fset_of_list (chart_names nm ys), st_in_progress = {||}, st_result = ys\<rparr>
      = Ok \<lparr>st_visited = fset_of_list (chart_names nm cs), st_in_progress = {||}, st_result = cs\<rparr>"
    if "cs = ys @ zs" for ys zs
    using that
  proof (induction zs arbitrary: ys)
    case Nil
    then show ?case by simp
  next
    case (Cons z zs)
    let ?n = "nm (hcc_chart z)"
    let ?st = "\<lparr>st_visited = fset_of_list (chart_names nm ys), st_in_progress = {||}, st_result = ys\<rparr>"
    have look: "fmlookup ?m ?n = Some z"
      using chart_config_map_distinct [OF assms(1)] Cons.prems by simp
    have new: "?n |\<notin>| fset_of_list (chart_names nm ys)" and self: "?n \<notin> set (chart_names nm ys)"
      using assms(1) Cons.prems by (auto simp: fset_of_list_elem)
    have deps: "d |\<in>| fmdom ?m \<Longrightarrow> d \<in> set (chart_names nm ys)" if "d \<in> set (helm_deps z)" for d
      using assms(2) that Cons.prems unfolding deps_first_def
      by (auto dest!: spec [of _ "length ys"])
    have "visit_all ?m (helm_deps z) (?st\<lparr>st_in_progress := {|?n|}\<rparr>) = Ok (?st\<lparr>st_in_progress := {|?n|}\<rparr>)"
    proof (rule visit_all_skip, rule ballI)
      fix d assume d: "d \<in> set (helm_deps z)"
      have "?n |\<in>| fmdom ?m" using look by (rule fmdomI)
      then have "d \<noteq> ?n" using deps [OF d] self by metis
      then show "d |\<notin>| st_in_progress (?st\<lparr>st_in_progress := {|?n|}\<rparr>)
          \<and> (d |\<in>| st_visited (?st\<lparr>st_in_progress := {|?n|}\<rparr>) \<or> d |\<notin>| fmdom ?m)"
        using deps [OF d] by (auto simp: fset_of_list.rep_eq)
    qed
    then have "visit ?m ?n ?st =
        Ok \<lparr>st_visited = fset_of_list (chart_names nm (ys @ [z])), st_in_progress = {||}, st_result = ys @ [z]\<rparr>"
      using look new by (simp add: visit.simps)
    then show ?case using Cons.IH [of "ys @ [z]"] Cons.prems by simp
  qed
  from this [of "[]" cs] show ?thesis by (simp add: sortChartConfigsByDependencies_def)
qed

definition witness_chart :: "string \<Rightarrow> string list \<Rightarrow> HelmChartConfig" where
  "witness_chart n deps =
     \<lparr>hcc_chart = \<lparr>hc_name = n, hc_chart = n, hc_version = ''1'', hc_repository = [], hc_namespace = [],
        hc_values = None, hc_depends_on = map (\<lambda>d. \<lparr>dep_name = d, dep_type = DependencyTypeHelm\<rparr>) deps\<rparr>,
      hcc_repository = None, hcc_runtime = no_runtime_config\<rparr>"

theorem sortChartConfigs_order_witness:
  "sortChartConfigsByDependencies hc_name [witness_chart ''b'' [''a'', ''x''], witness_chart ''a'' []]
     = Ok [witness_chart ''a'' [], witness_chart ''b'' [''a'', ''x'']]
   \<and> set (chart_names hc_name [witness_chart ''a'' [], witness_chart ''b'' [''a'', ''x'']]) = {''a'', ''b''}"
proof -
  have run: "sortChartConfigsByDependencies hc_name [witness_chart ''b'' [''a'', ''x''], witness_chart ''a'' []]
     = Ok [witness_chart ''a'' [], witness_chart ''b'' [''a'', ''x'']]"
    by (simp add: sortChartConfigsByDependencies_def chart_config_map_def witness_chart_def
        visit.simps helm_deps_def)
  from sortChartConfigs_order [OF this] run show ?thesis by (auto simp: witness_chart_def)
qed

theorem sortChartConfigs_sorted_witness:
  "sortChartConfigsByDependencies hc_name [witness_chart ''a'' [], witness_chart ''b'' [''a'']]
     = Ok [witness_chart ''a'' [], witness_chart ''b'' [''a'']]"
  by (rule sortChartConfigs_sorted)
    (auto simp: witness_chart_def deps_first_def helm_deps_def less_Suc_eq)

end
