(* ===== verification/Helm_Reconciler.thy ===== *)
theory Helm_Reconciler
  imports Plans Pipeline Chart_Sort
begin

text \<open>
  The Helm chart phase, after \<^verbatim>\<open>internal/upgrade/reconcilers/helm.go\<close>: charts in dependency
  order, each one skipped, created, updated or followed through the job of the Helm controller.
\<close>

section \<open>Definitions\<close>

datatype ChartState =
    ChartStateUnknown
  | ChartStateNotInstalled
  | ChartStateVersionAlreadyInstalled
  | ChartStateInProgress
  | ChartStateFailed
  | ChartStateSucceeded

text \<open>The name of a state in the log.\<close>

fun ChartState_String :: "ChartState \<Rightarrow> string" where
  "ChartState_String ChartStateNotInstalled = ''not installed''"
| "ChartState_String ChartStateVersionAlreadyInstalled = ''version already installed''"
| "ChartState_String ChartStateInProgress = ''in progress''"
| "ChartState_String ChartStateFailed = ''failed''"
| "ChartState_String ChartStateSucceeded = ''succeeded''"
| "ChartState_String _ = ''unknown''"

lemma ChartState_String_inj: "ChartState_String a = ChartState_String b \<longleftrightarrow> a = b"
  by (cases a; cases b) simp_all

definition HelmChartNamespace :: string where
  "HelmChartNamespace = ''kube-system''"

text \<open>
  The library functions the reconciler calls: the codecs, \<open>HelmChart.GetName\<close> of the elemental
  library, \<open>url.Parse\<close> (the scheme and the printed form of what it returns) and
  \<open>equality.Semantic.DeepEqual\<close> on two value maps, a nil map being \<open>None\<close>.
\<close>

record parsed_url =
  url_scheme :: string
  url_text :: string

record helm_libs =
  lib_codec :: codec
  lib_chart_name :: "HelmChart \<Rightarrow> string"
  lib_url_parse :: "string \<Rightarrow> parsed_url outcome"
  lib_deep_equal :: "gmap option \<Rightarrow> gmap option \<Rightarrow> bool"

text \<open>The fields of the reconciler besides its clients.\<close>

record HelmReconciler =
  hr_release_name :: string
  hr_release_version :: string
  hr_strict :: bool

definition generateCustomValuesMap :: "helm_libs \<Rightarrow> HelmChartConfig \<Rightarrow> gmap option outcome" where
  "generateCustomValuesMap L c =
     MergeHelmValues (lib_codec L)
       [MapSource (hc_values (hcc_chart c)), JSONSource (rc_values (hcc_runtime c))]"

definition desired_secrets :: "HelmChartConfig \<Rightarrow> SecretSpec list" where
  "desired_secrets c =
     (case rc_secret_ref (hcc_runtime c) of
        None \<Rightarrow> []
      | Some secret \<Rightarrow> [\<lparr>ss_name = rsvs_name secret, ss_keys = rsvs_keys secret\<rparr>])"

definition resolveHelmChartValues ::
  "helm_libs \<Rightarrow> HelmChartResource \<Rightarrow> HelmChartConfig \<Rightarrow> HelmChartResource outcome" where
  "resolveHelmChartValues L chart c =
     obind (owrap ''generating HelmChart custom values content'' (generateCustomValuesMap L c))
      (\<lambda>incoming.
     obind (case incoming of
              None \<Rightarrow> Ok None
            | Some values \<Rightarrow>
                obind (owrap ''marshaling HelmChart custom values content'' (json_marshal (lib_codec L) values))
                  (\<lambda>raw. Ok (Some raw)))
      (\<lambda>values. Ok (chart\<lparr>hcr_values := values, hcr_values_secrets := desired_secrets c\<rparr>)))"

text \<open>The errors of \<open>json.Unmarshal\<close> leave the map nil only when the document is \<open>null\<close>.\<close>

definition shouldUpdateChart :: "helm_libs \<Rightarrow> HelmChartResource \<Rightarrow> HelmChartConfig \<Rightarrow> bool outcome" where
  "shouldUpdateChart L existing c =
     (if hcr_version existing \<noteq> hc_version (hcc_chart c) then Ok True
      else
        obind (owrap ''generating HelmChart custom values content'' (generateCustomValuesMap L c))
         (\<lambda>incoming.
        obind (case hcr_values existing of
                 None \<Rightarrow> Ok None
               | Some raw \<Rightarrow>
                   owrap ''unmarshaling existing HelmChart values'' (json_unmarshal (lib_codec L) raw))
         (\<lambda>existing_values.
           if \<not> lib_deep_equal L existing_values incoming then Ok True
           else Ok (hcr_values_secrets existing \<noteq> desired_secrets c))))"

definition resolveRepositoryURL :: "helm_libs \<Rightarrow> HelmChartConfig \<Rightarrow> parsed_url outcome" where
  "resolveRepositoryURL L c =
     lib_url_parse L (case hcc_repository c of None \<Rightarrow> hc_repository (hcc_chart c) | Some repo \<Rightarrow> repo_url repo)"

text \<open>\<open>Spec.Chart\<close> and \<open>Spec.Repo\<close>, the same way in both places that set them.\<close>

definition set_chart_source :: "parsed_url \<Rightarrow> HelmChart \<Rightarrow> HelmChartResource \<Rightarrow> HelmChartResource" where
  "set_chart_source url chart res =
     (if url_scheme url = ''oci''
      then res\<lparr>hcr_chart := trim_suffix (url_text url) ''/'' @ ''/'' @ hc_chart chart, hcr_repo := ''''\<rparr>
      else res\<lparr>hcr_chart := hc_chart chart, hcr_repo := url_text url\<rparr>)"

definition repo_error :: "helm_libs \<Rightarrow> HelmChart \<Rightarrow> string" where
  "repo_error L chart = ''parsing repository URL for chart '' @ go_quote (lib_chart_name L chart)"

text \<open>The struct literals of \<open>buildHelmChart\<close> and the assignments of \<open>updateHelmChart\<close>, before the
  chart source and the values are set.\<close>

definition new_helm_chart :: "helm_libs \<Rightarrow> HelmReconciler \<Rightarrow> HelmChart \<Rightarrow> string \<Rightarrow> HelmChartResource" where
  "new_helm_chart L r chart targetNamespace =
     \<lparr>hcr_kind = ''HelmChart'', hcr_api_version = ''helm.cattle.io/v1'',
      hcr_name = lib_chart_name L chart, hcr_namespace = HelmChartNamespace,
      hcr_labels = release_labels (hr_release_name r) (hr_release_version r),
      hcr_annotations = Map.empty,
      hcr_version = hc_version chart, hcr_chart = [], hcr_repo = [],
      hcr_target_namespace = (if targetNamespace = [] then hc_namespace chart else targetNamespace),
      hcr_backoff_limit = Some 6, hcr_values_content = [], hcr_values = None,
      hcr_values_secrets = [], hcr_chart_content = [], hcr_job_name = [], hcr_conditions = []\<rparr>"

definition buildHelmChart ::
  "helm_libs \<Rightarrow> HelmReconciler \<Rightarrow> HelmChartConfig \<Rightarrow> string \<Rightarrow> HelmChartResource outcome" where
  "buildHelmChart L r c targetNamespace =
     (let chart = hcc_chart c in
      obind (owrap (repo_error L chart) (resolveRepositoryURL L c)) (\<lambda>url.
      owrap ''resolving HelmChart values''
        (resolveHelmChartValues L
          (set_chart_source url chart (new_helm_chart L r chart targetNamespace)) c)))"

definition merge_release_values ::
  "helm_libs \<Rightarrow> ReleaseInfo \<Rightarrow> HelmChartResource \<Rightarrow> HelmChartResource outcome" where
  "merge_release_values L release helmChart =
     obind (owrap ''merging HelmChart values''
             (MergeHelmValues (lib_codec L)
               [MapSource (ri_config release), StringSource (hcr_values_content helmChart)]))
      (\<lambda>merged. case merged of
         None \<Rightarrow> Ok helmChart
       | Some values \<Rightarrow>
           obind (owrap ''marshaling HelmChart values'' (yaml_marshal (lib_codec L) values))
             (\<lambda>raw. Ok (helmChart\<lparr>hcr_values_content := raw\<rparr>)))"

definition createHelmChartFromRelease ::
  "helm_libs \<Rightarrow> 'w kube \<Rightarrow> HelmReconciler \<Rightarrow> HelmChartConfig \<Rightarrow> ReleaseInfo \<Rightarrow> ('w, unit) io" where
  "createHelmChartFromRelease L K r c release =
     attempt (wrap ''building HelmChart'' (pure_call (buildHelmChart L r c (ri_namespace release))))
      (\<lambda>helmChart.
     attempt (pure_call (merge_release_values L release helmChart)) (\<lambda>merged.
     create_helm_chart K merged))"

definition retarget :: "HelmReconciler \<Rightarrow> HelmChart \<Rightarrow> HelmChartResource \<Rightarrow> HelmChartResource" where
  "retarget r chart existing =
     existing\<lparr>hcr_labels := (hcr_labels existing)
                (ReleaseNameLabel \<mapsto> hr_release_name r,
                 ReleaseVersionLabel \<mapsto> SanitizeVersion (hr_release_version r)),
              hcr_version := hc_version chart\<rparr>"

definition updated_chart ::
  "helm_libs \<Rightarrow> HelmReconciler \<Rightarrow> HelmChartConfig \<Rightarrow> HelmChartResource \<Rightarrow> HelmChartResource outcome" where
  "updated_chart L r c existing =
     (let chart = hcc_chart c in
      obind (owrap (repo_error L chart) (resolveRepositoryURL L c)) (\<lambda>url.
      owrap ''resolving HelmChart values''
        (resolveHelmChartValues L (set_chart_source url chart (retarget r chart existing)) c)))"

definition updateHelmChart ::
  "helm_libs \<Rightarrow> 'w kube \<Rightarrow> HelmReconciler \<Rightarrow> HelmChartConfig \<Rightarrow> HelmChartResource \<Rightarrow> ('w, unit) io" where
  "updateHelmChart L K r c existing =
     attempt (pure_call (updated_chart L r c existing)) (\<lambda>chart. update_helm_chart K chart)"

fun job_verdict :: "(job_condition_type \<times> condition_status) list \<Rightarrow> ChartState" where
  "job_verdict [] = ChartStateInProgress"
| "job_verdict ((t, s) # cs) =
     (if s = ConditionTrue \<and> (t = JobComplete \<or> t = JobFailed)
      then (if t = JobComplete then ChartStateSucceeded else ChartStateFailed)
      else job_verdict cs)"

fun failed_condition :: "(string \<times> condition_status) list \<Rightarrow> bool" where
  "failed_condition [] = False"
| "failed_condition ((t, s) # cs) = (if t = ''Failed'' \<and> s = ConditionTrue then True else failed_condition cs)"

definition evaluateHelmChartJobStatus :: "'w kube \<Rightarrow> HelmChartResource \<Rightarrow> ('w, ChartState) io" where
  "evaluateHelmChartJobStatus K chart =
     (if hcr_job_name chart = '''' then ok ChartStateInProgress
      else handle (get_job K \<lparr>nn_namespace = HelmChartNamespace, nn_name = hcr_job_name chart\<rparr>)
        (\<lambda>err. if is_not_found err
               then (if failed_condition (hcr_conditions chart) then ok ChartStateFailed
                     else ok ChartStateSucceeded)
               else raise err)
        (\<lambda>job. ok (job_verdict (job_conditions job))))"

definition reconcileChart ::
  "helm_libs \<Rightarrow> 'w kube \<Rightarrow> 'w helm_client \<Rightarrow> HelmReconciler \<Rightarrow> HelmChartConfig \<Rightarrow> ('w, ChartState) io" where
  "reconcileChart L K HC r c =
     (let chart = hcc_chart c; chartName = lib_chart_name L chart in
      handle (RetrieveRelease HC chartName)
        (\<lambda>err. if is_release_not_found err then ok ChartStateNotInstalled
               else raise (Wrapf ''retrieving helm release'' err))
        (\<lambda>helmRelease.
      handle (get_helm_chart K \<lparr>nn_namespace = HelmChartNamespace, nn_name = chartName\<rparr>)
        (\<lambda>err. if is_not_found err
               then (if ri_chart_version helmRelease = hc_version chart
                     then ok ChartStateVersionAlreadyInstalled
                     else attempt (createHelmChartFromRelease L K r c helmRelease)
                            (\<lambda>_. ok ChartStateInProgress))
               else raise (Wrapf ''getting HelmChart'' err))
        (\<lambda>existing.
      attempt (wrap ''checking whether chart update is necessary''
                (pure_call (shouldUpdateChart L existing c))) (\<lambda>update.
        if update
        then attempt (updateHelmChart L K r c existing) (\<lambda>_. ok ChartStateInProgress)
        else evaluateHelmChartJobStatus K existing))))"

text \<open>The loop over the sorted charts; the results are pairs of a chart name and its state.\<close>

fun reconcile_charts ::
  "helm_libs \<Rightarrow> 'w kube \<Rightarrow> 'w helm_client \<Rightarrow> HelmReconciler \<Rightarrow> HelmChartConfig list
     \<Rightarrow> (string \<times> ChartState) list \<Rightarrow> ('w, (string \<times> ChartState) list) io" where
  "reconcile_charts L K HC r [] results = ok results"
| "reconcile_charts L K HC r (c # cs) results =
     attempt (reconcileChart L K HC r c) (\<lambda>state.
       let chartName = lib_chart_name L (hcc_chart c);
           results' = results @ [(chartName, state)]
       in if state = ChartStateInProgress then ok results'
          else if state = ChartStateFailed \<and> hr_strict r
          then raise (Errorf (''upgrading chart '' @ go_quote chartName))
          else reconcile_charts L K HC r cs results')"

record chart_counts =
  n_failed :: nat
  n_in_progress :: nat
  n_succeeded :: nat
  n_skipped :: nat
  failed_chart :: string

definition count_result :: "chart_counts \<Rightarrow> string \<times> ChartState \<Rightarrow> chart_counts" where
  "count_result n result =
     (case snd result of
        ChartStateFailed \<Rightarrow>
          n\<lparr>n_failed := n_failed n + 1,
            failed_chart := (if failed_chart n = '''' then fst result else failed_chart n)\<rparr>
      | ChartStateInProgress \<Rightarrow> n\<lparr>n_in_progress := n_in_progress n + 1\<rparr>
      | ChartStateSucceeded \<Rightarrow> n\<lparr>n_succeeded := n_succeeded n + 1\<rparr>
      | ChartStateVersionAlreadyInstalled \<Rightarrow> n\<lparr>n_succeeded := n_succeeded n + 1\<rparr>
      | ChartStateNotInstalled \<Rightarrow> n\<lparr>n_skipped := n_skipped n + 1\<rparr>
      | ChartStateUnknown \<Rightarrow> n)"

definition aggregateResults :: "(string \<times> ChartState) list \<Rightarrow> nat \<Rightarrow> PhaseStatus" where
  "aggregateResults results totalCharts =
     (if length results = 0
      then \<lparr>ps_state = UpgradeSucceeded, ps_message = ''No Helm charts to reconcile''\<rparr>
      else
        let n = foldl count_result
              \<lparr>n_failed = 0, n_in_progress = 0, n_succeeded = 0, n_skipped = 0, failed_chart = ''''\<rparr> results
        in if n_failed n > 0
           then \<lparr>ps_state = UpgradeFailed, ps_message = ''Chart '' @ failed_chart n @ '' upgrade failed''\<rparr>
           else if n_in_progress n > 0
           then \<lparr>ps_state = UpgradeInProgress,
                 ps_message = ''Helm charts in progress ('' @ decimal (n_succeeded n) @ ''/''
                   @ decimal_int (int totalCharts - int (n_skipped n)) @ '' completed, ''
                   @ decimal (n_skipped n) @ '' skipped)''\<rparr>
           else if n_succeeded n = 0 \<and> n_skipped n = totalCharts
           then \<lparr>ps_state = UpgradeSucceeded,
                 ps_message = ''All Helm charts skipped (not installed on cluster)''\<rparr>
           else \<lparr>ps_state = UpgradeSucceeded,
                 ps_message = ''All '' @ decimal (n_succeeded n) @ '' Helm charts upgraded successfully (''
                   @ decimal (n_skipped n) @ '' skipped)''\<rparr>)"

text \<open>Next to an error the source also returns a status, which its callers do not read.\<close>

definition reconcileHelmCharts ::
  "helm_libs \<Rightarrow> 'w kube \<Rightarrow> 'w helm_client \<Rightarrow> HelmReconciler \<Rightarrow> string \<Rightarrow> string
     \<Rightarrow> HelmChartConfig list \<Rightarrow> ('w, PhaseStatus) io" where
  "reconcileHelmCharts L K HC r releaseName releaseVersion chartConfigs =
     (let r' = r\<lparr>hr_release_name := releaseName, hr_release_version := releaseVersion\<rparr> in
      attempt (pure_call (sortChartConfigsByDependencies (lib_chart_name L) chartConfigs)) (\<lambda>ordered.
      attempt (reconcile_charts L K HC r' ordered []) (\<lambda>results.
      ok (aggregateResults results (length ordered)))))"

definition HelmReconciler_Reconcile ::
  "helm_libs \<Rightarrow> 'w kube \<Rightarrow> 'w helm_client \<Rightarrow> HelmReconciler \<Rightarrow> Config option \<Rightarrow> ('w, PhaseStatus) io" where
  "HelmReconciler_Reconcile L K HC r config =
     (case config of
        None \<Rightarrow> ok (SkippedStatus PhaseHelmCharts)
      | Some cfg \<Rightarrow>
          if cfg_helm_charts cfg = [] then ok (SkippedStatus PhaseHelmCharts)
          else reconcileHelmCharts L K HC r (nn_name (cfg_release cfg)) (cfg_release_version cfg)
                 (cfg_helm_charts cfg))"

definition NewHelmReconciler ::
  "helm_libs \<Rightarrow> 'w kube \<Rightarrow> 'w helm_client \<Rightarrow> bool \<Rightarrow> 'w PhaseHandler" where
  "NewHelmReconciler L K HC strict =
     \<lparr>ph_phase = PhaseHelmCharts,
      ph_reconcile = HelmReconciler_Reconcile L K HC
        \<lparr>hr_release_name = '''', hr_release_version = '''', hr_strict = strict\<rparr>\<rparr>"

section \<open>Lemmas\<close>

lemma count_results:
  "n_failed (foldl count_result n results)
     = n_failed n + length (filter (\<lambda>r. snd r = ChartStateFailed) results)"
  "n_in_progress (foldl count_result n results)
     = n_in_progress n + length (filter (\<lambda>r. snd r = ChartStateInProgress) results)"
  by (induction results arbitrary: n) (auto simp: count_result_def split: ChartState.split)

lemma aggregateResults_state:
  "ps_state (aggregateResults results n) =
     (if ChartStateFailed \<in> snd ` set results then UpgradeFailed
      else if ChartStateInProgress \<in> snd ` set results then UpgradeInProgress
      else UpgradeSucceeded)"
proof -
  have "(0 < length (filter (\<lambda>r. snd r = s) results)) = (s \<in> snd ` set results)" for s
    by (auto simp: filter_empty_conv)
  then show ?thesis
    by (cases "results = []")
      (simp_all add: aggregateResults_def count_results Let_def del: length_greater_0_conv)
qed

text \<open>Every branch that ends a reconciliation of one chart yields a state the caller knows.\<close>

definition settled_states :: "ChartState set" where
  "settled_states = {ChartStateNotInstalled, ChartStateVersionAlreadyInstalled, ChartStateSucceeded}"

lemma reconcileChart_states:
  "returns (reconcileChart L K HC r c)
     (\<lambda>s. s \<in> settled_states \<or> s = ChartStateInProgress \<or> s = ChartStateFailed)"
proof -
  have verdict: "job_verdict cs \<in> {ChartStateInProgress, ChartStateSucceeded, ChartStateFailed}" for cs
    by (induction cs rule: job_verdict.induct) auto
  have "returns (evaluateHelmChartJobStatus K chart)
      (\<lambda>s. s \<in> settled_states \<or> s = ChartStateInProgress \<or> s = ChartStateFailed)" for chart
    using verdict unfolding evaluateHelmChartJobStatus_def
    by (auto intro!: returns_intros simp: settled_states_def)
  then show ?thesis
    unfolding reconcileChart_def Let_def
    by (auto intro!: returns_intros simp: settled_states_def)
qed

lemma reconcile_charts_results:
  "returns (reconcile_charts L K HC r cs results) (\<lambda>out. \<exists>new. out = results @ new
     \<and> map fst new = take (length new) (map (\<lambda>c. lib_chart_name L (hcc_chart c)) cs)
     \<and> (length new = length cs \<or> ChartStateInProgress \<in> snd ` set new)
     \<and> (\<forall>s \<in> snd ` set new. s \<in> settled_states \<or> s = ChartStateInProgress
          \<or> s = ChartStateFailed \<and> \<not> hr_strict r))"
proof (induction cs arbitrary: results)
  case Nil
  then show ?case by (auto intro: returns_ok)
next
  case (Cons c cs)
  let ?n = "lib_chart_name L (hcc_chart c)"
  show ?case
    unfolding reconcile_charts.simps Let_def
  proof (rule returns_attempt [OF reconcileChart_states], intro returns_if returns_raise returns_ok, goal_cases)
    case (1 s)
    then show ?case by (intro exI [of _ "[(?n, s)]"]) auto
  next
    case (2 s)
    then have s: "s \<in> settled_states \<or> s = ChartStateInProgress \<or> s = ChartStateFailed \<and> \<not> hr_strict r"
      by blast
    show ?case
    proof (rule returns_mono [OF Cons.IH], elim exE conjE, goal_cases)
      case (1 out new)
      then show ?case using s by (intro exI [of _ "(?n, s) # new"]) auto
    qed
  qed
qed

lemma helm_reported: "ps_state (aggregateResults results n) \<in> reported_states"
  by (simp add: aggregateResults_state)

interpretation charts: phase_handler "NewHelmReconciler L K HC strict" for L K HC strict
proof
  fix config
  show "returns (ph_reconcile (NewHelmReconciler L K HC strict) config)
      (\<lambda>s. ps_state s \<in> reported_states)"
    unfolding NewHelmReconciler_def HelmReconciler_Reconcile_def reconcileHelmCharts_def Let_def
    by (auto intro!: returns_ok returns_attempt_any helm_reported split: option.split)
qed (simp add: NewHelmReconciler_def HelmReconciler_Reconcile_def)

lemma resolveHelmChartValues_Ok:
  assumes "resolveHelmChartValues L chart c = Ok res"
  obtains incoming vals where "generateCustomValuesMap L c = Ok incoming"
    and "res = chart\<lparr>hcr_values := vals, hcr_values_secrets := desired_secrets c\<rparr>"
    and "case incoming of None \<Rightarrow> vals = None
         | Some m \<Rightarrow> (\<exists>raw. vals = Some raw \<and> json_marshal (lib_codec L) m = Ok raw)"
proof -
  from assms obtain incoming where g: "generateCustomValuesMap L c = Ok incoming"
    by (auto simp: resolveHelmChartValues_def obind_eq_Ok_iff)
  show thesis
  proof (cases incoming)
    case None
    with assms g that [of incoming None] show ?thesis by (simp add: resolveHelmChartValues_def)
  next
    case (Some m)
    with assms g obtain raw where "json_marshal (lib_codec L) m = Ok raw"
      "res = chart\<lparr>hcr_values := Some raw, hcr_values_secrets := desired_secrets c\<rparr>"
      by (auto simp: resolveHelmChartValues_def obind_eq_Ok_iff)
    with g Some that [of incoming "Some raw"] show ?thesis by simp
  qed
qed

text \<open>Marshaling a value and reading it back gives something deeply equal.\<close>

definition json_faithful :: "helm_libs \<Rightarrow> gmap \<Rightarrow> bool" where
  "json_faithful L m \<longleftrightarrow>
     (\<forall>raw. json_marshal (lib_codec L) m = Ok raw \<longrightarrow>
        (\<exists>u. json_unmarshal (lib_codec L) raw = Ok u \<and> lib_deep_equal L u (Some m)))"

lemma resolved_settles:
  assumes "resolveHelmChartValues L chart c = Ok res"
    and "hcr_version chart = hc_version (hcc_chart c)"
    and "lib_deep_equal L None None"
    and "\<And>m. generateCustomValuesMap L c = Ok (Some m) \<Longrightarrow> json_faithful L m"
  shows "shouldUpdateChart L res c = Ok False"
proof -
  obtain incoming vals where g: "generateCustomValuesMap L c = Ok incoming"
    and res: "res = chart\<lparr>hcr_values := vals, hcr_values_secrets := desired_secrets c\<rparr>"
    and vals: "case incoming of None \<Rightarrow> vals = None
         | Some m \<Rightarrow> (\<exists>raw. vals = Some raw \<and> json_marshal (lib_codec L) m = Ok raw)"
    using resolveHelmChartValues_Ok [OF assms(1)] by blast
  show ?thesis
  proof (cases incoming)
    case None
    with vals g assms(2,3) show ?thesis by (simp add: shouldUpdateChart_def res)
  next
    case (Some m)
    with vals obtain raw where raw: "vals = Some raw" "json_marshal (lib_codec L) m = Ok raw" by auto
    then obtain u where "json_unmarshal (lib_codec L) raw = Ok u" "lib_deep_equal L u (Some m)"
      using assms(4) g Some unfolding json_faithful_def by blast
    with raw g Some assms(2) show ?thesis by (simp add: shouldUpdateChart_def res)
  qed
qed

lemma set_chart_source_simps [simp]:
  "hcr_version (set_chart_source u chart res) = hcr_version res"
  "hcr_labels (set_chart_source u chart res) = hcr_labels res"
  "hcr_name (set_chart_source u chart res) = hcr_name res"
  "hcr_namespace (set_chart_source u chart res) = hcr_namespace res"
  by (simp_all add: set_chart_source_def)

text \<open>What a chart looks like after a create or an update: the target version and the labels of
  the release.\<close>

definition tracks_release :: "HelmReconciler \<Rightarrow> HelmChartConfig \<Rightarrow> HelmChartResource \<Rightarrow> bool" where
  "tracks_release r c chart \<longleftrightarrow> hcr_version chart = hc_version (hcc_chart c)
     \<and> hcr_labels chart ReleaseNameLabel = Some (hr_release_name r)
     \<and> hcr_labels chart ReleaseVersionLabel = Some (SanitizeVersion (hr_release_version r))"

lemma release_label_keys [simp]: "ReleaseNameLabel \<noteq> ReleaseVersionLabel"
  by (simp add: ReleaseNameLabel_def ReleaseVersionLabel_def)

lemma resolve_keeps:
  assumes "resolveHelmChartValues L chart c = Ok res"
  shows "hcr_version res = hcr_version chart \<and> hcr_labels res = hcr_labels chart
    \<and> hcr_name res = hcr_name chart \<and> hcr_namespace res = hcr_namespace chart"
  by (rule resolveHelmChartValues_Ok [OF assms]) simp

lemma release_labels_simps [simp]:
  "release_labels n v ReleaseNameLabel = Some n"
  "release_labels n v ReleaseVersionLabel = Some (SanitizeVersion v)"
  by (simp_all add: release_labels_def)

lemma buildHelmChart_Ok:
  assumes "buildHelmChart L r c ns = Ok chart"
  shows "tracks_release r c chart \<and> hcr_name chart = lib_chart_name L (hcc_chart c)
    \<and> hcr_namespace chart = HelmChartNamespace"
proof -
  from assms obtain url where
    "resolveHelmChartValues L (set_chart_source url (hcc_chart c) (new_helm_chart L r (hcc_chart c) ns)) c = Ok chart"
    unfolding buildHelmChart_def Let_def obind_eq_Ok_iff owrap_eq_Ok_iff by blast
  from resolve_keeps [OF this] show ?thesis
    by (simp add: tracks_release_def new_helm_chart_def)
qed

lemma updated_chart_Ok:
  assumes "updated_chart L r c existing = Ok chart"
  shows "tracks_release r c chart \<and> hcr_name chart = hcr_name existing
    \<and> hcr_namespace chart = hcr_namespace existing"
proof -
  from assms obtain url where
    "resolveHelmChartValues L (set_chart_source url (hcc_chart c) (retarget r (hcc_chart c) existing)) c = Ok chart"
    unfolding updated_chart_def Let_def obind_eq_Ok_iff owrap_eq_Ok_iff by blast
  from resolve_keeps [OF this] show ?thesis
    by (simp add: tracks_release_def retarget_def)
qed

lemma merge_release_values_Ok:
  "merge_release_values L rel chart = Ok res \<Longrightarrow> \<exists>content. res = chart\<lparr>hcr_values_content := content\<rparr>"
  by (auto simp: merge_release_values_def obind_eq_Ok_iff split: option.splits) (metis HelmChartResource.surjective HelmChartResource.update_convs(12))

section \<open>The log of the phase\<close>

text \<open>What the only kind of write of the phase looks like: a HelmChart resource of the configured
  chart, at its target version and labelled with the release.\<close>

definition writes_chart :: "helm_libs \<Rightarrow> HelmReconciler \<Rightarrow> HelmChartConfig \<Rightarrow> event \<Rightarrow> bool" where
  "writes_chart L r c ev \<longleftrightarrow>
     (\<exists>chart res. tracks_release r c chart
        \<and> (ev = UpdateHelmChart chart res
           \<or> ev = CreateHelmChart chart res \<and> hcr_name chart = lib_chart_name L (hcc_chart c)
               \<and> hcr_namespace chart = HelmChartNamespace))"

text \<open>Nothing is written, or one chart is written and the chart is reported in progress.\<close>

definition one_write ::
  "helm_libs \<Rightarrow> HelmReconciler \<Rightarrow> HelmChartConfig \<Rightarrow> ChartState outcome \<Rightarrow> event list \<Rightarrow> bool" where
  "one_write L r c res evs \<longleftrightarrow>
     evs = [] \<or> (\<exists>ev. evs = [ev] \<and> writes_chart L r c ev) \<and> (\<forall>s. res = Ok s \<longrightarrow> s = ChartStateInProgress)"

lemma one_write_Nil [simp]: "one_write L r c res []"
  by (simp add: one_write_def)

lemma logged_helm_simps [simp]: "RetrieveRelease (logged_helm HC) n = quiet (RetrieveRelease HC n)"
  by (simp add: logged_helm_def)

lemma emits_create_chart:
  "emits (attempt (createHelmChartFromRelease L (logged_kube K) r c rel) (\<lambda>_. ok ChartStateInProgress))
     (one_write L r c)"
  unfolding createHelmChartFromRelease_def logged_kube_simps
proof (intro emits_attempt emits_wrap emits_simple, goal_cases)
  case 1
  show ?case
  proof (cases "buildHelmChart L r c (ri_namespace rel)")
    case (Ok base)
    note base = buildHelmChart_Ok [OF Ok]
    show ?thesis
    proof (cases "merge_release_values L rel base")
      case merged: (Ok chart)
      then have "tracks_release r c chart \<and> hcr_name chart = lib_chart_name L (hcc_chart c)
          \<and> hcr_namespace chart = HelmChartNamespace"
        using base by (auto dest!: merge_release_values_Ok simp: tracks_release_def)
      then show ?thesis
        using Ok merged by (auto intro!: emits_rules split: outcome.split
            simp: one_write_def writes_chart_def)
    qed (use Ok in \<open>auto intro!: emits_rules\<close>)
  qed (auto intro!: emits_rules)
qed

lemma emits_update_chart:
  "emits (attempt (updateHelmChart L (logged_kube K) r c existing) (\<lambda>_. ok ChartStateInProgress))
     (one_write L r c)"
  unfolding updateHelmChart_def logged_kube_simps
proof (intro emits_attempt emits_wrap emits_simple, goal_cases)
  case 1
  show ?case
  proof (cases "updated_chart L r c existing")
    case (Ok chart)
    note tracks = conjunct1 [OF updated_chart_Ok [OF Ok]]
    show ?thesis
      using Ok tracks by (auto intro!: emits_rules split: outcome.split
          simp: one_write_def writes_chart_def)
  qed auto
qed

lemma emits_job_status:
  "(\<And>res. P res []) \<Longrightarrow> emits (evaluateHelmChartJobStatus (logged_kube K) chart) P"
  unfolding evaluateHelmChartJobStatus_def logged_kube_simps
  by (auto intro!: emits_rules split: outcome.split)

lemma emits_reconcileChart:
  "emits (reconcileChart L (logged_kube K) (logged_helm HC) r c) (one_write L r c)"
  unfolding reconcileChart_def Let_def logged_kube_simps logged_helm_simps
  by (auto intro!: emits_handle [of "quiet m" for m] emits_quiet emits_simple emits_create_chart
      emits_update_chart emits_job_status emits_attempt [of "wrap x y" for x y] emits_wrap
      split: outcome.split)

lemma emits_reconcile_charts:
  "emits (reconcile_charts L (logged_kube K) (logged_helm HC) r cs results)
     (\<lambda>res evs. evs = [] \<or> (\<exists>c \<in> set cs. \<exists>ev. evs = [ev] \<and> writes_chart L r c ev
        \<and> (\<forall>out. res = Ok out \<longrightarrow> ChartStateInProgress \<in> snd ` set out)))"
proof (induction cs arbitrary: results)
  case Nil
  then show ?case by (auto intro: emits_simple)
next
  case (Cons c cs)
  show ?case
    unfolding reconcile_charts.simps Let_def
  proof (rule emits_attempt, rule emits_mono [OF emits_reconcileChart], goal_cases)
    case (1 res evs)
    show ?case
    proof (cases res)
      case (Ok s)
      show ?thesis
      proof (cases "evs = []")
        case True
        then show ?thesis
          using Ok by (auto intro!: emits_simple emits_mono [OF Cons.IH])
      next
        case False
        then show ?thesis
          using 1 Ok by (auto intro!: emits_simple simp: one_write_def)
      qed
    qed (use 1 in \<open>auto simp: one_write_def\<close>)
  qed
qed

lemma sorted_charts_subset:
  assumes "sortChartConfigsByDependencies nm cs = Ok out"
  shows "set out \<subseteq> set cs"
proof
  fix c assume "c \<in> set out"
  moreover obtain st where "sort_inv nm (chart_config_map nm cs) st" "st_result st = out"
    using sort_final [OF assms] by blast
  ultimately have "fmlookup (chart_config_map nm cs) (nm (hcc_chart c)) = Some c"
    by (simp add: sort_inv_def)
  then show "c \<in> set cs" using chart_config_map_Some by blast
qed

lemma aggregateResults_succeeded:
  "ps_state (aggregateResults results n) = UpgradeSucceeded \<longleftrightarrow>
     ChartStateFailed \<notin> snd ` set results \<and> ChartStateInProgress \<notin> snd ` set results"
  by (simp add: aggregateResults_state)

lemma shouldUpdateChart_content [simp]:
  "shouldUpdateChart L (chart\<lparr>hcr_values_content := x\<rparr>) c = shouldUpdateChart L chart c"
  by (simp add: shouldUpdateChart_def cong: if_cong)

lemma updated_settles:
  assumes "updated_chart L r c existing = Ok chart" and "lib_deep_equal L None None"
    and "\<And>m. generateCustomValuesMap L c = Ok (Some m) \<Longrightarrow> json_faithful L m"
  shows "shouldUpdateChart L chart c = Ok False"
proof -
  from assms(1) obtain url where
    "resolveHelmChartValues L (set_chart_source url (hcc_chart c) (retarget r (hcc_chart c) existing)) c = Ok chart"
    unfolding updated_chart_def Let_def obind_eq_Ok_iff owrap_eq_Ok_iff by blast
  from resolved_settles [OF this _ assms(2,3)] show ?thesis by (simp add: retarget_def)
qed

lemma built_settles:
  assumes "buildHelmChart L r c ns = Ok base" and "merge_release_values L rel base = Ok chart"
    and "lib_deep_equal L None None"
    and "\<And>m. generateCustomValuesMap L c = Ok (Some m) \<Longrightarrow> json_faithful L m"
  shows "shouldUpdateChart L chart c = Ok False"
proof -
  obtain content where chart: "chart = base\<lparr>hcr_values_content := content\<rparr>"
    using merge_release_values_Ok [OF assms(2)] by blast
  from assms(1) obtain url where
    "resolveHelmChartValues L (set_chart_source url (hcc_chart c) (new_helm_chart L r (hcc_chart c) ns)) c = Ok base"
    unfolding buildHelmChart_def Let_def obind_eq_Ok_iff owrap_eq_Ok_iff by blast
  from resolved_settles [OF this _ assms(3,4)]
  have "shouldUpdateChart L base c = Ok False" by (simp add: new_helm_chart_def)
  then show ?thesis by (simp add: chart)
qed

lemma emits_HelmReconciler:
  "emits (HelmReconciler_Reconcile L (logged_kube K) (logged_helm HC) r (Some cfg))
     (\<lambda>res evs. evs = [] \<or>
        (\<exists>c ev. evs = [ev] \<and> c \<in> set (cfg_helm_charts cfg)
           \<and> writes_chart L (r\<lparr>hr_release_name := nn_name (cfg_release cfg),
                              hr_release_version := cfg_release_version cfg\<rparr>) c ev
           \<and> (\<nexists>s. res = Ok s \<and> ps_state s = UpgradeSucceeded)))"
proof -
  let ?r = "r\<lparr>hr_release_name := nn_name (cfg_release cfg), hr_release_version := cfg_release_version cfg\<rparr>"
  have loop: "emits (attempt (reconcile_charts L (logged_kube K) (logged_helm HC) ?r out [])
          (\<lambda>results. ok (aggregateResults results (length out))))
        (\<lambda>res evs. evs = [] \<or> (\<exists>c ev. evs = [ev] \<and> c \<in> set (cfg_helm_charts cfg) \<and> writes_chart L ?r c ev
           \<and> (\<nexists>s. res = Ok s \<and> ps_state s = UpgradeSucceeded)))"
    if "set out \<subseteq> set (cfg_helm_charts cfg)" for out
  proof (rule emits_attempt, rule emits_mono [OF emits_reconcile_charts], goal_cases)
    case (1 res evs)
    show ?case
    proof (cases res)
      case (Ok results)
      show ?thesis
        unfolding Ok outcome.case
        by (rule emits_simple(1)) (use 1 that Ok in \<open>simp add: aggregateResults_succeeded, blast\<close>)
    qed (use 1 that in auto)
  qed
  show ?thesis
    unfolding HelmReconciler_Reconcile_def reconcileHelmCharts_def Let_def option.case
  proof (split if_split, intro conjI impI emits_attempt emits_simple, goal_cases)
    case 2
    show ?case
      by (cases "sortChartConfigsByDependencies (lib_chart_name L) (cfg_helm_charts cfg)")
        (use loop sorted_charts_subset in \<open>auto\<close>)
  qed simp
qed

section \<open>Properties\<close>

text \<open>
  C16. One reconciliation of the chart phase changes at most one HelmChart resource: it belongs to a
  configured chart, carries its target version and the labels of the release, and the phase
  then does not report success. No chart that comes later in dependency order is touched.
\<close>

theorem helm_phase_one_write:
  "emits (HelmReconciler_Reconcile L (logged_kube K) (logged_helm HC) r (Some cfg))
     (\<lambda>res evs. evs = [] \<or>
        (\<exists>c ev. evs = [ev] \<and> c \<in> set (cfg_helm_charts cfg)
           \<and> writes_chart L (r\<lparr>hr_release_name := nn_name (cfg_release cfg),
                              hr_release_version := cfg_release_version cfg\<rparr>) c ev
           \<and> (\<nexists>s. res = Ok s \<and> ps_state s = UpgradeSucceeded)))"
  by (rule emits_HelmReconciler)


definition witness_libs :: helm_libs where
  "witness_libs =
     \<lparr>lib_codec = \<lparr>yaml_unmarshal = (\<lambda>_. Ok None), yaml_marshal = (\<lambda>_. Ok ''y''),
                   json_unmarshal = (\<lambda>_. Ok None), json_marshal = (\<lambda>_. Ok ''j'')\<rparr>,
      lib_chart_name = hc_name, lib_url_parse = (\<lambda>s. Ok \<lparr>url_scheme = ''oci'', url_text = s\<rparr>),
      lib_deep_equal = (=)\<rparr>"


text \<open>
  The strict reconciler, which upgrades the manager's own charts, never reports a failed chart
  as a status: the failure comes back as an error.
\<close>

theorem strict_helm_failure_is_error:
  "returns (ph_reconcile (NewHelmReconciler L K HC True) config)
     (\<lambda>s. ps_state s \<noteq> UpgradeFailed)"
proof -
  have strict: "returns (attempt (reconcile_charts L K HC r cs []) (\<lambda>results. ok (aggregateResults results n)))
      (\<lambda>s. ps_state s \<noteq> UpgradeFailed)"
    if "hr_strict r" for r cs n
  proof (rule returns_attempt [OF reconcile_charts_results], rule returns_ok, goal_cases)
    case (1 results)
    then have "ChartStateFailed \<notin> snd ` set results"
      using that by (auto simp: settled_states_def)
    then show ?case by (simp add: aggregateResults_state)
  qed
  show ?thesis
  proof (cases config)
    case (Some cfg)
    then show ?thesis
      unfolding NewHelmReconciler_def HelmReconciler_Reconcile_def reconcileHelmCharts_def Let_def
      by (auto intro!: returns_ok returns_attempt_any [where m = "pure_call x" for x] strict
          simp: SkippedStatus_def)
  qed (auto intro!: returns_ok simp: NewHelmReconciler_def HelmReconciler_Reconcile_def SkippedStatus_def)
qed

text \<open>
  C19. An update is not repeated: once the reconciler has written a chart, by create or by update,
  it finds nothing left to change, provided the values survive the JSON round trip up to deep
  equality.
\<close>

theorem written_chart_settles:
  assumes "updated_chart L r c existing = Ok chart
      \<or> (\<exists>base. buildHelmChart L r c ns = Ok base \<and> merge_release_values L rel base = Ok chart)"
    and "lib_deep_equal L None None"
    and "\<And>m. generateCustomValuesMap L c = Ok (Some m) \<Longrightarrow> json_faithful L m"
  shows "shouldUpdateChart L chart c = Ok False"
  using assms(1) updated_settles [OF _ assms(2,3)] built_settles [OF _ _ assms(2,3)] by blast

theorem written_chart_settles_witness:
  "\<exists>chart. buildHelmChart witness_libs \<lparr>hr_release_name = [], hr_release_version = [], hr_strict = False\<rparr>
      (witness_chart ''a'' []) ''ns'' = Ok chart
     \<and> shouldUpdateChart witness_libs chart (witness_chart ''a'' []) = Ok False"
proof -
  let ?r = "\<lparr>hr_release_name = [], hr_release_version = [], hr_strict = False\<rparr>"
  let ?rel = "\<lparr>ri_chart_version = [], ri_namespace = ''ns'', ri_config = None, ri_revisions = 1\<rparr>"
  have no_values: "generateCustomValuesMap witness_libs (witness_chart ''a'' []) = Ok None"
    by (simp add: generateCustomValuesMap_def MergeHelmValues_def witness_chart_def no_runtime_config_def)
  moreover have "resolveRepositoryURL witness_libs c = Ok \<lparr>url_scheme = ''oci'',
      url_text = (case hcc_repository c of None \<Rightarrow> hc_repository (hcc_chart c) | Some repo \<Rightarrow> repo_url repo)\<rparr>" for c
    by (simp add: resolveRepositoryURL_def witness_libs_def)
  ultimately obtain chart where built: "buildHelmChart witness_libs ?r (witness_chart ''a'' []) ''ns'' = Ok chart"
    by (simp add: buildHelmChart_def Let_def resolveHelmChartValues_def)
  then have content: "hcr_values_content chart = []"
    by (auto simp: buildHelmChart_def Let_def obind_eq_Ok_iff set_chart_source_def new_helm_chart_def
        elim!: resolveHelmChartValues_Ok split: if_splits)
  have "merge_release_values witness_libs ?rel chart = Ok chart"
    by (simp add: merge_release_values_def MergeHelmValues_def content)
  with built have "shouldUpdateChart witness_libs chart (witness_chart ''a'' []) = Ok False"
    by (intro written_chart_settles [of _ ?r _ _ _ "''ns''" ?rel])
      (auto simp: no_values, simp_all add: witness_libs_def)
  with built show ?thesis by blast
qed



end
