(* ===== verification/Rke2_Core.thy ===== *)
theory Rke2_Core
  imports Kubernetes_Reconciler Helm_Reconciler
begin

text \<open>
  The components that RKE2 ships as HelmChart resources, after
  \<^verbatim>\<open>internal/upgrade/reconcilers/rke2_core.go\<close>: a snapshot of them is kept in a ConfigMap while
  Kubernetes is upgraded, and the upgrade is complete only when the charts that changed since the
  snapshot have been applied by the Helm controller.
\<close>

section \<open>Definitions\<close>

definition chartURLAnnotation :: string where
  "chartURLAnnotation = ''helm.cattle.io/chart-url''"

definition kubernetesSourceAnnotation :: string where
  "kubernetesSourceAnnotation = ''lifecycle.suse.com/source-kubernetes-version''"

text \<open>
  What the handler calls of the libraries: \<open>sha256.Sum256\<close>, the JSON form of a chart snapshot, the
  order in which Go walks a map with the given keys, and how often \<open>PollUntilContextTimeout\<close>
  evaluates its condition before the deadline.
\<close>

record rke2_libs =
  lib_sha256 :: "string \<Rightarrow> string"
  lib_snapshot_marshal :: "PackagedComponentChartSnapshot \<Rightarrow> string outcome"
  lib_snapshot_unmarshal :: "string \<Rightarrow> PackagedComponentChartSnapshot outcome"
  lib_range :: "string fset \<Rightarrow> string list"
  lib_polls :: nat

type_synonym components = "(string, HelmChartResource) fmap"

text \<open>The entries of a map in the order of a \<open>range\<close> loop.\<close>

definition range_entries :: "rke2_libs \<Rightarrow> (string, 'a) fmap \<Rightarrow> (string \<times> 'a) list" where
  "range_entries R m =
     List.map_filter (\<lambda>k. map_option (Pair k) (fmlookup m k)) (lib_range R (fmdom m))"

record chartSnapshotPair =
  csp_chart :: HelmChartResource
  csp_snapshot :: "PackagedComponentChartSnapshot option"

definition hashContent :: "rke2_libs \<Rightarrow> string \<Rightarrow> string" where
  "hashContent R content =
     concat (map (\<lambda>b. [hex_digit (of_char b div 16), hex_digit (of_char b mod 16)])
       (lib_sha256 R content))"

text \<open>The entry \<open>m[k]\<close> of a string map, empty when there is none.\<close>

definition label_value :: "labels \<Rightarrow> string \<Rightarrow> string" where
  "label_value m k = (case m k of None \<Rightarrow> '''' | Some v \<Rightarrow> v)"

definition rke2_component :: "HelmChartResource \<Rightarrow> bool" where
  "rke2_component chart =
     (if \<not> has_prefix (hcr_name chart) ''rke2-'' then False
      else if hcr_annotations chart ''objectset.rio.cattle.io/owner-name'' = None then False
      else if hcr_annotations chart ''objectset.rio.cattle.io/owner-gvk''
                \<noteq> Some ''k3s.cattle.io/v1, Kind=Addon'' then False
      else if hcr_annotations chart chartURLAnnotation = None then False
      else True)"

definition findRKE2PackagedComponents :: "'w kube \<Rightarrow> ('w, components) io" where
  "findRKE2PackagedComponents K =
     attempt (wrap (''listing HelmChart resources in '' @ go_quote ''kube-system'' @ '' namespace'')
               (list_helm_charts K ''kube-system'')) (\<lambda>allCharts.
       ok (foldl (\<lambda>found chart. if rke2_component chart then fmupd (hcr_name chart) chart found else found)
             fmempty allCharts))"

text \<open>The part of \<open>createHelmChartSnapshot\<close> after the Helm release is known.\<close>

definition chart_snapshot ::
  "rke2_libs \<Rightarrow> HelmChartResource \<Rightarrow> ReleaseInfo \<Rightarrow> PackagedComponentChartSnapshot" where
  "chart_snapshot R chart info =
     \<lparr>pcs_name = hcr_name chart,
      pcs_namespace = hcr_namespace chart,
      pcs_chart_url = label_value (hcr_annotations chart) chartURLAnnotation,
      pcs_chart_content_sha =
        (if hcr_chart_content chart \<noteq> '''' then hashContent R (hcr_chart_content chart) else ''''),
      pcs_chart_version = ri_chart_version info,
      pcs_release_revisions = ri_revisions info\<rparr>"

definition createHelmChartSnapshot ::
  "rke2_libs \<Rightarrow> 'w helm_client \<Rightarrow> HelmChartResource \<Rightarrow> ('w, PackagedComponentChartSnapshot) io" where
  "createHelmChartSnapshot R HC chart =
     attempt (wrap (''retrieving Helm release '' @ go_quote (hcr_name chart))
               (RetrieveRelease HC (hcr_name chart)))
       (\<lambda>info. ok (chart_snapshot R chart info))"

fun populate_entries ::
  "rke2_libs \<Rightarrow> 'w helm_client \<Rightarrow> HelmChartResource list \<Rightarrow> (string, string) fmap
     \<Rightarrow> ('w, (string, string) fmap) io" where
  "populate_entries R HC [] data = ok data"
| "populate_entries R HC (chart # charts) data =
     attempt (wrap (''parsing fingerprint from HelmChart '' @ go_quote (hcr_name chart))
               (createHelmChartSnapshot R HC chart)) (\<lambda>snap.
     attempt (wrap (''marshaling RKE2 HelmChart '' @ go_quote (hcr_name chart) @ '' fingerprint'')
               (pure_call (lib_snapshot_marshal R snap))) (\<lambda>text.
     populate_entries R HC charts (fmupd (hcr_name chart) text data)))"

definition populateSnapshot ::
  "rke2_libs \<Rightarrow> 'w helm_client \<Rightarrow> ('w, components) io \<Rightarrow> ConfigMap \<Rightarrow> ('w, ConfigMap) io" where
  "populateSnapshot R HC find_components snapshot =
     attempt (wrap ''retrieving RKE2 packaged components'' find_components) (\<lambda>charts.
     attempt (populate_entries R HC (map snd (range_entries R charts)) (cm_data snapshot)) (\<lambda>data.
     ok (snapshot\<lparr>cm_data := data\<rparr>)))"

definition blankSnapshot :: "Config \<Rightarrow> ConfigMap" where
  "blankSnapshot config =
     \<lparr>cm_name = ''rke2-packaged-components-snapshot'',
      cm_namespace = nn_namespace (cfg_release config),
      cm_labels = release_labels (nn_name (cfg_release config)) (cfg_release_version config),
      cm_annotations = Map.empty, cm_data = fmempty,
      cm_creation_timestamp = 0, cm_deletion_timestamp = None\<rparr>"

definition cm_key :: "ConfigMap \<Rightarrow> NamespacedName" where
  "cm_key cm = \<lparr>nn_namespace = cm_namespace cm, nn_name = cm_name cm\<rparr>"

definition createSnapshot ::
  "rke2_libs \<Rightarrow> 'w kube \<Rightarrow> 'w helm_client \<Rightarrow> ('w, components) io \<Rightarrow> ConfigMap \<Rightarrow> ('w, ConfigMap) io" where
  "createSnapshot R K HC find_components tpl =
     attempt (wrap ''listing node'' (list_nodes K (LimitNodes 1))) (\<lambda>nodes.
     case nodes of
       [] \<Rightarrow> panic ''index out of range''
     | node # _ \<Rightarrow>
         attempt (wrap ''populating RKE2 packaged components snapshot''
           (populateSnapshot R HC find_components
             (tpl\<lparr>cm_annotations := (cm_annotations tpl)
                    (kubernetesSourceAnnotation \<mapsto> node_kubelet_version node)\<rparr>))) (\<lambda>snapshot.
         attempt (wrap (''creating snapshot '' @ cm_name tpl) (create_config_map K snapshot)) (\<lambda>_.
         wrap (''retrieving snapshot '' @ cm_name tpl) (get_config_map K (cm_key tpl)))))"

fun parse_entries ::
  "rke2_libs \<Rightarrow> (string \<times> string) list \<Rightarrow> PackagedComponentChartSnapshot list outcome" where
  "parse_entries R [] = Ok []"
| "parse_entries R ((name, data) # rest) =
     obind (owrap (''parsing RKE2 packaged component '' @ go_quote name) (lib_snapshot_unmarshal R data))
       (\<lambda>snap. obind (parse_entries R rest) (\<lambda>snaps. Ok (snap # snaps)))"

definition parseSnapshot :: "rke2_libs \<Rightarrow> ConfigMap \<Rightarrow> PackagedComponentsSnapshot outcome" where
  "parseSnapshot R cm =
     obind (parse_entries R (range_entries R (cm_data cm))) (\<lambda>charts.
       Ok \<lparr>snap_creation_time = cm_creation_timestamp cm,
           snap_source_version = label_value (cm_annotations cm) kubernetesSourceAnnotation,
           snap_charts = charts\<rparr>)"

fun poll_deleted :: "'w kube \<Rightarrow> NamespacedName \<Rightarrow> nat \<Rightarrow> ('w, unit) io" where
  "poll_deleted K key 0 = raise (Errorf ''context deadline exceeded'')"
| "poll_deleted K key (Suc n) =
     handle (get_config_map K key)
       (\<lambda>err. if is_not_found err then ok () else raise err)
       (\<lambda>_. poll_deleted K key n)"

text \<open>A zero deletion timestamp counts as none.\<close>

definition being_deleted :: "ConfigMap \<Rightarrow> bool" where
  "being_deleted cm \<longleftrightarrow> (case cm_deletion_timestamp cm of None \<Rightarrow> False | Some t \<Rightarrow> t \<noteq> 0)"

definition deleteSnapshotAndWait :: "rke2_libs \<Rightarrow> 'w kube \<Rightarrow> ConfigMap \<Rightarrow> ('w, unit) io" where
  "deleteSnapshotAndWait R K snapshot =
     attempt
       (if \<not> being_deleted snapshot
        then handle (delete_config_map K snapshot)
               (\<lambda>err. if is_not_found err then ok ()
                      else raise (Wrapf (''deleting RKE2 packaged component snapshot ''
                                    @ go_quote (cm_name snapshot)) err))
               ok
        else ok ())
       (\<lambda>_. poll_deleted K (cm_key snapshot) (lib_polls R))"

definition snapshot_outdated :: "Config \<Rightarrow> ConfigMap \<Rightarrow> bool" where
  "snapshot_outdated config snapshot \<longleftrightarrow>
     cm_labels snapshot ReleaseNameLabel \<noteq> Some (nn_name (cfg_release config))
     \<or> cm_labels snapshot ReleaseVersionLabel \<noteq> Some (SanitizeVersion (cfg_release_version config))"

definition create_blank ::
  "rke2_libs \<Rightarrow> 'w kube \<Rightarrow> 'w helm_client \<Rightarrow> ('w, components) io \<Rightarrow> Config \<Rightarrow> ('w, ConfigMap) io" where
  "create_blank R K HC find_components config =
     wrap (''creating snapshot '' @ cm_name (blankSnapshot config))
       (createSnapshot R K HC find_components (blankSnapshot config))"

definition GenerateSnapshot ::
  "rke2_libs \<Rightarrow> 'w kube \<Rightarrow> 'w helm_client \<Rightarrow> ('w, components) io \<Rightarrow> Config
     \<Rightarrow> ('w, PackagedComponentsSnapshot) io" where
  "GenerateSnapshot R K HC find_components config =
     handle (get_config_map K (cm_key (blankSnapshot config)))
       (\<lambda>err. if \<not> is_not_found err
              then raise (Wrapf ''getting RKE2 packaged component snapshot'' err)
              else attempt (create_blank R K HC find_components config)
                     (\<lambda>snapshot. pure_call (parseSnapshot R snapshot)))
       (\<lambda>snapshot.
         if snapshot_outdated config snapshot
         then attempt (wrap (''waiting for snapshot '' @ cm_name snapshot @ '' deletion'')
                        (deleteSnapshotAndWait R K snapshot)) (\<lambda>_.
              attempt (create_blank R K HC find_components config)
                (\<lambda>snapshot'. pure_call (parseSnapshot R snapshot')))
         else pure_call (parseSnapshot R snapshot))"

definition chartStateChanged ::
  "rke2_libs \<Rightarrow> HelmChartResource \<Rightarrow> PackagedComponentChartSnapshot \<Rightarrow> bool" where
  "chartStateChanged R chart snap \<longleftrightarrow>
     hashContent R (hcr_chart_content chart) \<noteq> pcs_chart_content_sha snap
     \<or> label_value (hcr_annotations chart) chartURLAnnotation \<noteq> pcs_chart_url snap"

text \<open>The loop over the components: the changed ones, then the new ones.\<close>

fun compare_components ::
  "rke2_libs \<Rightarrow> (string \<Rightarrow> PackagedComponentChartSnapshot option) \<Rightarrow> (string \<times> HelmChartResource) list
     \<Rightarrow> chartSnapshotPair list \<Rightarrow> chartSnapshotPair list \<Rightarrow> chartSnapshotPair list" where
  "compare_components R snaps [] changed new = changed @ new"
| "compare_components R snaps ((name, chart) # rest) changed new =
     (case snaps name of
        None \<Rightarrow> compare_components R snaps rest changed (new @ [\<lparr>csp_chart = chart, csp_snapshot = None\<rparr>])
      | Some snap \<Rightarrow>
          if chartStateChanged R chart snap
          then compare_components R snaps rest
                 (changed @ [\<lparr>csp_chart = chart, csp_snapshot = Some snap\<rparr>]) new
          else compare_components R snaps rest changed new)"

definition snapshot_map ::
  "PackagedComponentChartSnapshot list \<Rightarrow> string \<Rightarrow> PackagedComponentChartSnapshot option" where
  "snapshot_map snaps = foldl (\<lambda>m s. m(pcs_name s \<mapsto> s)) Map.empty snaps"

definition findNewOrChangedRKE2PackagedComponents ::
  "rke2_libs \<Rightarrow> ('w, components) io \<Rightarrow> PackagedComponentChartSnapshot list
     \<Rightarrow> ('w, chartSnapshotPair list) io" where
  "findNewOrChangedRKE2PackagedComponents R find_components snaps =
     attempt (wrap ''finding RKE2 packaged components'' find_components) (\<lambda>latest.
       ok (compare_components R (snapshot_map snaps) (range_entries R latest) [] []))"

definition hasHelmReleaseAdvancedPastSnapshot ::
  "'w helm_client \<Rightarrow> chartSnapshotPair \<Rightarrow> ('w, bool) io" where
  "hasHelmReleaseAdvancedPastSnapshot HC pair =
     handle (RetrieveRelease HC (hcr_name (csp_chart pair)))
       (\<lambda>err. if is_release_not_found err then ok False
              else raise (Wrapf (''retrieving RKE2 packaged component Helm release ''
                            @ go_quote (hcr_name (csp_chart pair))) err))
       (\<lambda>release. case csp_snapshot pair of
          Some snap \<Rightarrow> ok (ri_chart_version release \<noteq> pcs_chart_version snap
                        \<or> ri_revisions release > pcs_release_revisions snap)
        | None \<Rightarrow> ok True)"

definition job_completed_after :: "Job \<Rightarrow> go_time \<Rightarrow> bool" where
  "job_completed_after job t =
     (if \<not> list_ex (\<lambda>(ty, s). ty = JobComplete \<and> s = ConditionTrue) (job_conditions job) then False
      else case job_completion_time job of
             None \<Rightarrow> False
           | Some done_at \<Rightarrow> if done_at = 0 then False else done_at > t)"

definition isHelmChartJobComplete ::
  "'w kube \<Rightarrow> 'w helm_client \<Rightarrow> chartSnapshotPair \<Rightarrow> go_time \<Rightarrow> ('w, bool) io" where
  "isHelmChartJobComplete K HC pair snapshotCreation =
     (let chart = csp_chart pair in
      if hcr_job_name chart = '''' then ok False
      else handle (get_job K \<lparr>nn_namespace = hcr_namespace chart, nn_name = hcr_job_name chart\<rparr>)
        (\<lambda>err. if is_not_found err then hasHelmReleaseAdvancedPastSnapshot HC pair else raise err)
        (\<lambda>job. ok (job_completed_after job snapshotCreation)))"

definition components_available :: PhaseStatus where
  "components_available =
     \<lparr>ps_state = K8sPackagedComponentsAvailable, ps_message = ''All RKE2 packaged components available''\<rparr>"

fun await_components ::
  "'w kube \<Rightarrow> 'w helm_client \<Rightarrow> go_time \<Rightarrow> chartSnapshotPair list \<Rightarrow> ('w, PhaseStatus) io" where
  "await_components K HC t [] = ok components_available"
| "await_components K HC t (pair # pairs) =
     attempt (wrap (''validating job for RKE2 packaged component '' @ go_quote (hcr_name (csp_chart pair)))
               (isHelmChartJobComplete K HC pair t)) (\<lambda>complete.
       if \<not> complete
       then ok \<lparr>ps_state = UpgradeInProgress,
                ps_message = ''RKE2 packaged component '' @ go_quote (hcr_name (csp_chart pair))
                               @ '' execution is still in progress''\<rparr>
       else await_components K HC t pairs)"

definition ReconcileAvailability ::
  "rke2_libs \<Rightarrow> 'w kube \<Rightarrow> 'w helm_client \<Rightarrow> ('w, components) io \<Rightarrow> string
     \<Rightarrow> PackagedComponentsSnapshot \<Rightarrow> ('w, PhaseStatus) io" where
  "ReconcileAvailability R K HC find_components targetVersion snapshot =
     attempt (wrap ''finding new or changed RKE2 packaged components''
               (findNewOrChangedRKE2PackagedComponents R find_components (snap_charts snapshot)))
      (\<lambda>pairs.
       if length pairs = 0
       then if targetVersion = snap_source_version snapshot
            then ok components_available
            else ok \<lparr>ps_state = UpgradeInProgress,
                     ps_message = ''Waiting for RKE2 packaged components change after Kubernetes upgrade from ''
                       @ go_quote (snap_source_version snapshot) @ '' to '' @ go_quote targetVersion\<rparr>
       else await_components K HC (snap_creation_time snapshot) pairs)"

definition NewRKE2PackagedComponentsHandler ::
  "rke2_libs \<Rightarrow> 'w kube \<Rightarrow> 'w helm_client \<Rightarrow> ('w, components) io option \<Rightarrow> 'w packaged_handler" where
  "NewRKE2PackagedComponentsHandler R K HC find_components =
     (let f = (case find_components of None \<Rightarrow> findRKE2PackagedComponents K | Some g \<Rightarrow> g) in
      \<lparr>pch_GenerateSnapshot = GenerateSnapshot R K HC f,
       pch_ReconcileAvailability = ReconcileAvailability R K HC f\<rparr>)"

section \<open>The contract of the packaged components\<close>

lemma await_components_state: "returns (await_components K HC t pairs) (\<lambda>s. ps_state s \<in> component_states)"
proof (induction pairs)
  case Nil
  then show ?case by (simp add: returns_ok components_available_def component_states_def)
next
  case (Cons pair pairs)
  then show ?case
    by (auto intro!: returns_attempt_any returns_ok simp: component_states_def)
qed

interpretation rke2: packaged_components "NewRKE2PackagedComponentsHandler R K HC f" for R K HC f
proof
  fix v snapshot
  show "returns (pch_ReconcileAvailability (NewRKE2PackagedComponentsHandler R K HC f) v snapshot)
      (\<lambda>s. ps_state s \<in> component_states)"
    unfolding NewRKE2PackagedComponentsHandler_def Let_def packaged_handler.simps ReconcileAvailability_def
    by (intro returns_attempt_any returns_if returns_ok await_components_state)
      (simp_all add: components_available_def component_states_def)
qed

interpretation k8s: kubernetes_parts "SUCPlanReconciler_Reconcile K" "NewRKE2PackagedComponentsHandler R K HC f"
  for K R HC f ..

section \<open>The log of the packaged components\<close>

text \<open>The phase handles snapshots; it never touches a plan.\<close>

lemma emits_find: "(\<And>r. P r []) \<Longrightarrow> emits (findRKE2PackagedComponents (logged_kube K)) P"
  unfolding findRKE2PackagedComponents_def logged_kube_simps
  by (auto intro!: emits_rules split: outcome.split)

lemma emits_populate_entries:
  "(\<And>r. P r []) \<Longrightarrow> emits (populate_entries R (logged_helm HC) charts data) P"
proof (induction charts arbitrary: data P)
  case Nil
  then show ?case by (auto intro: emits_simple)
next
  case (Cons chart charts)
  have "P r []" for r by (rule Cons.prems)
  then show ?case
    unfolding populate_entries.simps createHelmChartSnapshot_def logged_helm_def helm_client.simps
    by (auto intro!: emits_rules Cons.IH [unfolded logged_helm_def] split: outcome.split)
qed

lemma emits_createSnapshot:
  "emits (createSnapshot R (logged_kube K) (logged_helm HC) (findRKE2PackagedComponents (logged_kube K)) tpl)
     (\<lambda>r evs. no_plan evs)"
  unfolding createSnapshot_def populateSnapshot_def logged_kube_simps
  by (auto intro!: emits_rules emits_find emits_populate_entries split: outcome.split list.split
      simp: no_plan_def touches_plan_def)

lemma emits_poll:
  "(\<And>r. P r []) \<Longrightarrow> emits (poll_deleted (logged_kube K) key n) P"
proof (induction n arbitrary: P)
  case 0
  then show ?case by (auto intro: emits_simple)
next
  case (Suc n)
  have "P r []" for r by (rule Suc.prems)
  then show ?case
    unfolding poll_deleted.simps logged_kube_simps
    by (auto intro!: emits_rules Suc.IH split: outcome.split)
qed

lemma emits_GenerateSnapshot:
  "emits (GenerateSnapshot R (logged_kube K) (logged_helm HC) (findRKE2PackagedComponents (logged_kube K)) cfg)
     (\<lambda>r evs. no_plan evs)"
proof -
  have create: "emits (attempt (create_blank R (logged_kube K) (logged_helm HC)
        (findRKE2PackagedComponents (logged_kube K)) cfg) (\<lambda>s. pure_call (parseSnapshot R s)))
      (\<lambda>r evs. no_plan evs)"
    unfolding create_blank_def
    by (intro emits_attempt emits_wrap emits_mono [OF emits_createSnapshot])
      (auto intro!: emits_rules split: outcome.split)
  have delete: "emits (deleteSnapshotAndWait R (logged_kube K) s) (\<lambda>r evs. no_plan evs)" for s
    unfolding deleteSnapshotAndWait_def logged_kube_simps
    by (auto intro!: emits_rules emits_poll split: outcome.split)
  have again: "emits (attempt (wrap m (deleteSnapshotAndWait R (logged_kube K) s)) (\<lambda>_.
        attempt (create_blank R (logged_kube K) (logged_helm HC)
          (findRKE2PackagedComponents (logged_kube K)) cfg) (\<lambda>s. pure_call (parseSnapshot R s))))
      (\<lambda>r evs. no_plan evs)" for m s
    by (intro emits_attempt [of "wrap m x" for x] emits_wrap emits_mono [OF delete])
      (auto split: outcome.split intro!: emits_mono [OF create])
  show ?thesis
    unfolding GenerateSnapshot_def logged_kube_simps
    by (auto intro!: emits_handle emits_quiet emits_simple create again split: outcome.split)
qed

lemma emits_job_complete:
  "(\<And>r. P r []) \<Longrightarrow> emits (isHelmChartJobComplete (logged_kube K) (logged_helm HC) pair t) P"
  unfolding isHelmChartJobComplete_def hasHelmReleaseAdvancedPastSnapshot_def Let_def logged_kube_simps
    logged_helm_def helm_client.simps
  by (auto intro!: emits_rules split: outcome.split option.split)

lemma emits_await:
  "(\<And>r. P r []) \<Longrightarrow> emits (await_components (logged_kube K) (logged_helm HC) t pairs) P"
proof (induction pairs arbitrary: P)
  case Nil
  then show ?case by (auto intro: emits_simple)
next
  case (Cons pair pairs)
  have "P r []" for r by (rule Cons.prems)
  then show ?case
    unfolding await_components.simps
    by (auto intro!: emits_attempt emits_wrap emits_job_complete emits_simple Cons.IH split: outcome.split)
qed

lemma emits_ReconcileAvailability:
  "(\<And>r. P r []) \<Longrightarrow> emits (ReconcileAvailability R (logged_kube K) (logged_helm HC)
     (findRKE2PackagedComponents (logged_kube K)) v snapshot) P"
  unfolding ReconcileAvailability_def findNewOrChangedRKE2PackagedComponents_def
  by (auto intro!: emits_attempt emits_wrap emits_find emits_simple emits_await split: outcome.split)

section \<open>The Kubernetes phase on RKE2\<close>

abbreviation rke2_handler :: "rke2_libs \<Rightarrow> 'w kube \<Rightarrow> 'w helm_client \<Rightarrow> 'w logged packaged_handler" where
  "rke2_handler R K HC \<equiv> NewRKE2PackagedComponentsHandler R (logged_kube K) (logged_helm HC) None"

text \<open>The log of the phase: the work on the plans in between events that touch no plan; success
  only with every plan verified.\<close>

definition k8s_log ::
  "(LabelSelectorRequirement list option \<Rightarrow> string outcome) \<Rightarrow> KubernetesConfig
     \<Rightarrow> PhaseStatus outcome \<Rightarrow> event list \<Rightarrow> bool" where
  "k8s_log selector_of kc r evs \<longleftrightarrow>
     (\<exists>ps. (no_plan evs \<or> k8s_plans ps kc evs \<and> plan_log ps evs)
        \<and> (\<forall>s. r = Ok s \<and> ps_state s = UpgradeSucceeded \<longrightarrow>
             k8s_plans ps kc evs \<and> verified_plans selector_of (k8s_version kc) ps evs))"

lemma k8s_plans_loop_not_succeeded:
  "returns (reconcile_k8s_plans (SUCPlanReconciler_Reconcile K) v ps)
     (\<lambda>e. \<forall>s. e = Some s \<longrightarrow> ps_state s \<noteq> UpgradeSucceeded)"
proof (induction ps)
  case Nil
  then show ?case by (simp add: returns_ok)
next
  case (Cons p ps)
  have state: "returns (wrap m (SUCPlanReconciler_Reconcile K p)) (\<lambda>r. ps_state (pr_status r) \<noteq> UpgradeSucceeded)" for m
    by (rule returns_wrap, rule returns_mono [OF suc.plan_state]) (auto simp: plan_states_def)
  show ?case
    unfolding reconcile_k8s_plans.simps
    by (rule returns_attempt [OF state], intro returns_if returns_ok Cons.IH) auto
qed

lemma emits_k8s_availability:
  assumes "\<And>r. (\<forall>s. r = Ok s \<longrightarrow> ps_state s = UpgradeSucceeded \<or> True) \<Longrightarrow> P r []"
  shows "emits (attempt (wrap m (ReconcileAvailability R (logged_kube K) (logged_helm HC)
           (findRKE2PackagedComponents (logged_kube K)) v snapshot))
         (\<lambda>s. if ps_state s \<noteq> K8sPackagedComponentsAvailable then ok s else ok t)) P"
  using assms
  by (auto intro!: emits_attempt emits_wrap emits_ReconcileAvailability emits_simple split: outcome.split)

lemma k8s_log_early:
  "no_plan evs \<Longrightarrow> (\<And>s. r = Ok s \<Longrightarrow> ps_state s \<noteq> UpgradeSucceeded) \<Longrightarrow> k8s_log sel kc r evs"
  by (auto simp: k8s_log_def)

text \<open>The work on the plans, after events \<open>pre\<close> that prepared them, and the components after it.\<close>

lemma emits_k8s_plans_and_components:
  assumes "no_plan pre" and "k8s_plans ps kc pre"
  shows "emits (attempt (reconcile_k8s_plans (SUCPlanReconciler_Reconcile (logged_kube K)) (k8s_version kc) ps)
       (\<lambda>early. case early of
          Some status \<Rightarrow> ok status
        | None \<Rightarrow> attempt (wrap m (ReconcileAvailability R (logged_kube K) (logged_helm HC)
                     (findRKE2PackagedComponents (logged_kube K)) v snapshot))
            (\<lambda>s. if ps_state s \<noteq> K8sPackagedComponentsAvailable then ok s else ok t)))
     (\<lambda>r evs. k8s_log (label_selector K) kc r (pre @ evs))"
proof (rule emits_attempt,
    rule emits_mono [OF emits_returns [OF emits_reconcile_k8s_plans k8s_plans_loop_not_succeeded]], goal_cases)
  case (1 res evs)
  have kps: "k8s_plans ps kc (pre @ evs)" using assms(2) by (intro k8s_plans_append disjI1)
  have log: "plan_log ps (pre @ evs)" using plan_log_prefix [OF assms(1), of ps evs] 1 by simp
  show ?case
  proof (cases res)
    case (Ok e)
    show ?thesis
    proof (cases e)
      case None
      then have "verified_plans (label_selector K) (k8s_version kc) ps (pre @ evs)"
        using 1 Ok verified_plans_append by metis
      then show ?thesis
        unfolding Ok None outcome.case option.case
        by (intro emits_k8s_availability) (use kps log in \<open>auto simp: k8s_log_def\<close>)
    next
      case (Some s)
      then show ?thesis using 1 Ok kps log by (auto intro!: emits_simple simp: k8s_log_def)
    qed
  qed (use kps log in \<open>auto simp: k8s_log_def\<close>)
qed

lemma emits_KubernetesReconciler:
  assumes "cfg_kubernetes cfg = Some kc"
  shows "emits (KubernetesReconciler_Reconcile (logged_kube K) (SUCPlanReconciler_Reconcile (logged_kube K))
           (Some (rke2_handler R K HC)) (Some cfg))
     (k8s_log (label_selector K) kc)"
  unfolding KubernetesReconciler_Reconcile_def option.case assms NewRKE2PackagedComponentsHandler_def
    Let_def packaged_handler.simps
proof (rule emits_attempt, rule emits_wrap, rule emits_mono [OF emits_GenerateSnapshot], goal_cases)
  case (1 snap evs0)
  show ?case
  proof (cases snap)
    case (Ok snapshot)
    show ?thesis
      unfolding Ok owrap_simps outcome.case
    proof (rule emits_attempt, rule emits_wrap, rule emits_mono [OF emits_K8s_preparePlans], goal_cases)
      case plans: (1 plans evs1)
      show ?case
      proof (cases plans)
        case (Ok ps)
        have "no_plan (evs0 @ evs1)" and "k8s_plans ps kc (evs0 @ evs1)"
          using 1 plans Ok k8s_plans_append by auto
        from emits_k8s_plans_and_components [OF this] show ?thesis
          unfolding Ok owrap_simps outcome.case by simp
      qed (use 1 plans in \<open>auto intro!: k8s_log_early\<close>)
    qed
  qed (use 1 in \<open>auto intro!: k8s_log_early\<close>)
qed

section \<open>Lemmas\<close>

lemma compare_components_set:
  "set (compare_components R snaps es changed new) = set changed \<union> set new \<union>
     (\<lambda>(name, chart). \<lparr>csp_chart = chart, csp_snapshot = snaps name\<rparr>) `
       {(name, chart) \<in> set es. \<forall>snap. snaps name = Some snap \<longrightarrow> chartStateChanged R chart snap}"
proof (induction R snaps es changed new rule: compare_components.induct)
  case (2 R snaps name chart rest changed new)
  have "{(n, c) \<in> set ((name, chart) # rest). \<forall>snap. snaps n = Some snap \<longrightarrow> chartStateChanged R c snap}
      = (if \<forall>snap. snaps name = Some snap \<longrightarrow> chartStateChanged R chart snap then {(name, chart)} else {})
        \<union> {(n, c) \<in> set rest. \<forall>snap. snaps n = Some snap \<longrightarrow> chartStateChanged R c snap}"
    by auto
  with 2 show ?case by (cases "snaps name") auto
qed simp

definition valid_range :: "rke2_libs \<Rightarrow> bool" where
  "valid_range R \<longleftrightarrow> (\<forall>s. set (lib_range R s) = fset s \<and> distinct (lib_range R s))"

lemma set_range_entries:
  assumes "valid_range R"
  shows "set (range_entries R m) = {(k, v). fmlookup m k = Some v}"
  using assms
  by (auto simp: range_entries_def valid_range_def List.map_filter_def fmlookup_dom_iff image_iff)
    (metis fmdomI option.map(2) option.sel)

lemma range_entries_empty [simp]: "range_entries R fmempty = []"
  by (simp add: range_entries_def List.map_filter_def)

lemma await_components_complete:
  assumes "run_state (await_components K HC t pairs) w = (Ok s, w')"
    and "ps_state s = K8sPackagedComponentsAvailable" and "pair \<in> set pairs"
  shows "\<exists>w1 w2. run_state (isHelmChartJobComplete K HC pair t) w1 = (Ok True, w2)"
  using assms
proof (induction pairs arbitrary: w)
  case Nil
  then show ?case by simp
next
  case (Cons p pairs)
  obtain r w1 where r: "run_state (isHelmChartJobComplete K HC p t) w = (r, w1)" by fastforce
  from Cons.prems(1,2) r have "r = Ok True"
    by (cases r) (auto simp: run_attempt run_wrap split: if_splits)
  moreover from this Cons.prems(1) r have "run_state (await_components K HC t pairs) w1 = (Ok s, w')"
    by (simp add: run_attempt run_wrap)
  ultimately show ?case using Cons r by auto
qed

definition nodes_upgraded ::
  "(LabelSelectorRequirement list option \<Rightarrow> string outcome) \<Rightarrow> string \<Rightarrow> string \<Rightarrow> event list \<Rightarrow> bool" where
  "nodes_upgraded selector_of name version evs \<longleftrightarrow>
     (\<exists>nodes. complete_on selector_of name nodes evs \<and> nodes \<noteq> []
        \<and> (\<forall>n \<in> set nodes. isNodeReady n \<and> \<not> node_unschedulable n
             \<and> kubeletVersionMatches (node_kubelet_version n) version))"

lemma verified_nodes_upgraded:
  "verified_plans f v ps evs \<Longrightarrow> p \<in> set ps \<Longrightarrow> nodes_upgraded f (plan_name p) v evs"
  by (fastforce simp: verified_plans_def nodes_upgraded_def allNodesAtKubernetesVersion_def
      all_nodes_upgraded_iff split: if_splits)

section \<open>Properties\<close>


text \<open>
  C14. In the Kubernetes phase no event concerns the worker plan before the log shows the control
  plane plan of the same version completed, and no event concerns any other plan.
\<close>

theorem kubernetes_workers_after_control_plane:
  assumes "cfg_kubernetes cfg = Some kc"
    and "evs = log_of (KubernetesReconciler_Reconcile (logged_kube K) (SUCPlanReconciler_Reconcile (logged_kube K))
           (Some (rke2_handler R K HC)) (Some cfg)) w"
    and "i < length evs" and "touches_plan n (evs ! i)"
  shows "n = kubernetesControlPlaneName (k8s_version kc)
     \<or> n = kubernetesWorkerName (k8s_version kc)
       \<and> (\<exists>j<i. observes_complete (kubernetesControlPlaneName (k8s_version kc)) (evs ! j))"
proof -
  have ev: "evs ! i \<in> set evs" using assms(3) by simp
  from log_of_emits [OF emits_KubernetesReconciler [OF assms(1)], of K R HC w]
  obtain ps where "no_plan evs \<or> k8s_plans ps kc evs \<and> plan_log ps evs"
    unfolding assms(2) [symmetric] k8s_log_def by blast
  then show ?thesis
  proof
    assume "no_plan evs"
    with ev assms(4) show ?thesis by (auto simp: no_plan_def)
  next
    assume "k8s_plans ps kc evs \<and> plan_log ps evs"
    then obtain cp where cp: "plan_name cp = kubernetesControlPlaneName (k8s_version kc)"
      and "ps = [cp] \<or> (\<exists>wk. plan_name wk = kubernetesWorkerName (k8s_version kc) \<and> ps = [cp, wk])"
      and "plan_log ps evs"
      unfolding k8s_plans_def by (auto split: if_splits)
    then show ?thesis
      using plan_log_pair [of cp _ evs i n] plan_log_single [OF _ ev assms(4)] assms(3,4)
        plan_names_disjoint(1) by metis
  qed
qed

definition witness_snapshot :: ConfigMap where
  "witness_snapshot = (blankSnapshot witness_config)
     \<lparr>cm_annotations := [kubernetesSourceAnnotation \<mapsto> ''v2'']\<rparr>"

definition witness_rke2_kube :: "unit kube" where
  "witness_rke2_kube = witness_kube\<lparr>get_config_map := \<lambda>_. ok witness_snapshot\<rparr>"

definition witness_rke2_libs :: rke2_libs where
  "witness_rke2_libs =
     \<lparr>lib_sha256 = (\<lambda>s. replicate 32 CHR ''x''), lib_snapshot_marshal = (\<lambda>_. Ok []),
      lib_snapshot_unmarshal = (\<lambda>_. Err (Errorf [])), lib_range = sorted_list_of_fset, lib_polls = 15\<rparr>"

definition witness_k8s_run :: "(unit logged, PhaseStatus) io" where
  "witness_k8s_run = KubernetesReconciler_Reconcile (logged_kube witness_rke2_kube)
     (SUCPlanReconciler_Reconcile (logged_kube witness_rke2_kube))
     (Some (rke2_handler witness_rke2_libs witness_rke2_kube \<lparr>RetrieveRelease = (\<lambda>_. raise ReleaseNotFound)\<rparr>))
     (Some witness_config)"


theorem kubernetes_workers_after_control_plane_witness:
  "touches_plan (kubernetesWorkerName (k8s_version witness_k8s)) (log_of witness_k8s_run () ! 3)
     \<and> (\<exists>j<3. observes_complete (kubernetesControlPlaneName (k8s_version witness_k8s)) (log_of witness_k8s_run () ! j))"
proof -
  have len: "length (log_of witness_k8s_run ()) = 5"
    and touch: "touches_plan (kubernetesWorkerName (k8s_version witness_k8s)) (log_of witness_k8s_run () ! 3)"
    by code_simp+
  have three: "3 < length (log_of witness_k8s_run ())" unfolding len by simp
  have cfg: "cfg_kubernetes witness_config = Some witness_k8s" by (simp add: witness_config_def)
  show ?thesis
    using kubernetes_workers_after_control_plane
        [OF cfg arg_cong [OF witness_k8s_run_def, of "\<lambda>m. log_of m ()"] three touch] touch
      plan_names_disjoint(1) [of "k8s_version witness_k8s" "k8s_version witness_k8s"] by metis
qed

subsection \<open>Snapshots\<close>

text \<open>A packaged component with its release, and a snapshot codec that keeps the name of the
  component, which is all that the snapshots of this cluster differ in.\<close>

definition witness_component :: "string \<Rightarrow> HelmChartResource" where
  "witness_component name =
     (new_helm_chart witness_libs \<lparr>hr_release_name = ''r'', hr_release_version = ''1'', hr_strict = False\<rparr>
        (hcc_chart (witness_chart name [])) ''ns'')
     \<lparr>hcr_chart_content := ''content'', hcr_job_name := ''job''\<rparr>"

lemma witness_component_simps [simp]:
  "hcr_name (witness_component n) = n" "hcr_job_name (witness_component n) = ''job''"
  "hcr_chart_content (witness_component n) = ''content''"
  by (simp_all add: witness_component_def new_helm_chart_def witness_libs_def witness_chart_def)

definition witness_info :: ReleaseInfo where
  "witness_info = \<lparr>ri_chart_version = ''1'', ri_namespace = ''ns'', ri_config = None, ri_revisions = 1\<rparr>"

definition witness_codec_libs :: rke2_libs where
  "witness_codec_libs = witness_rke2_libs
     \<lparr>lib_snapshot_marshal := (\<lambda>x.
        if x = chart_snapshot witness_rke2_libs (witness_component (pcs_name x)) witness_info
        then Ok (pcs_name x) else Err (Errorf [])),
      lib_snapshot_unmarshal := (\<lambda>text.
        Ok (chart_snapshot witness_rke2_libs (witness_component text) witness_info))\<rparr>"

lemma hex_digit_inj: "d < 16 \<Longrightarrow> e < 16 \<Longrightarrow> hex_digit d = hex_digit e \<longleftrightarrow> d = e"
  unfolding hex_digit_def
  by (auto dest!: arg_cong [where f = "of_char :: char \<Rightarrow> nat"] simp: of_char_of split: if_splits)

lemma hex_byte_inj:
  "[hex_digit (of_char a div 16), hex_digit (of_char a mod 16)]
     = [hex_digit (of_char b div 16), hex_digit (of_char b mod 16)] \<longleftrightarrow> a = b"
proof -
  have "of_char c div 16 < (16 :: nat)" for c :: char
    using nat_of_char_less_256 [of c] by (simp add: less_mult_imp_div_less)
  then show ?thesis
    by (auto simp: hex_digit_inj) (metis div_mult_mod_eq of_char_eq_iff)
qed

lemma concat_pairs_inj:
  assumes "\<And>a b. f a = f b \<longleftrightarrow> a = b" and "\<And>a. length (f a) = 2"
  shows "concat (map f xs) = concat (map f ys) \<longleftrightarrow> xs = ys"
proof (induction xs arbitrary: ys)
  case Nil
  then show ?case using assms(2) by (cases ys) (auto, metis list.size(3) zero_neq_numeral)
next
  case (Cons x xs)
  show ?case
  proof (cases ys)
    case Nil
    then show ?thesis using assms(2) [of x] by auto
  next
    case (Cons y ys')
    then show ?thesis using Cons.IH [of ys'] assms(1) [of x y] assms(2) by simp
  qed
qed

lemma hashContent_eq: "hashContent R a = hashContent R b \<longleftrightarrow> lib_sha256 R a = lib_sha256 R b"
  unfolding hashContent_def by (rule concat_pairs_inj) (simp_all only: hex_byte_inj list.size)

lemma length_hashContent: "length (hashContent R a) = 2 * length (lib_sha256 R a)"
  by (simp add: hashContent_def length_concat comp_def sum_list_triv)

text \<open>
  A chart counts as changed since its snapshot exactly when its content or its chart URL
  differ from what was recorded, except that a chart recorded without content always counts as
  changed: the snapshot keeps an empty hash for it, the comparison hashes the empty content.
\<close>

theorem chartStateChanged_iff:
  assumes "\<And>s. length (lib_sha256 R s) = 32"
    and "lib_sha256 R (hcr_chart_content chart) = lib_sha256 R (hcr_chart_content old) \<Longrightarrow>
           hcr_chart_content chart = hcr_chart_content old"
  shows "chartStateChanged R chart (chart_snapshot R old info) \<longleftrightarrow>
     hcr_chart_content old = []
     \<or> hcr_chart_content chart \<noteq> hcr_chart_content old
     \<or> label_value (hcr_annotations chart) chartURLAnnotation
         \<noteq> label_value (hcr_annotations old) chartURLAnnotation"
proof -
  have "hashContent R s \<noteq> []" for s
    using length_hashContent [of R s] assms(1) [of s] by auto
  then show ?thesis
    using assms(2) by (auto simp: chartStateChanged_def chart_snapshot_def hashContent_eq)
qed

theorem chartStateChanged_iff_witness:
  "\<not> chartStateChanged witness_rke2_libs (witness_component ''rke2-a'')
       (chart_snapshot witness_rke2_libs (witness_component ''rke2-a'') witness_info)
   \<and> chartStateChanged witness_rke2_libs ((witness_component ''rke2-a'')\<lparr>hcr_chart_content := []\<rparr>)
       (chart_snapshot witness_rke2_libs ((witness_component ''rke2-a'')\<lparr>hcr_chart_content := []\<rparr>) witness_info)"
  by (subst (1 2) chartStateChanged_iff)
    (simp_all add: witness_rke2_libs_def)

definition release_advanced :: "ReleaseInfo \<Rightarrow> PackagedComponentChartSnapshot option \<Rightarrow> bool" where
  "release_advanced info snap \<longleftrightarrow>
     (\<forall>s. snap = Some s \<longrightarrow> ri_chart_version info \<noteq> pcs_chart_version s
        \<or> ri_revisions info > pcs_release_revisions s)"

text \<open>The Helm controller has applied a component after the time \<open>t\<close> of the snapshot: its job is
  complete and completed later than \<open>t\<close>, or the job is gone and the Helm release has moved on.\<close>

definition component_applied ::
  "'w kube \<Rightarrow> 'w helm_client \<Rightarrow> chartSnapshotPair \<Rightarrow> go_time \<Rightarrow> bool" where
  "component_applied K HC pair t \<longleftrightarrow> hcr_job_name (csp_chart pair) \<noteq> [] \<and>
     (let key = \<lparr>nn_namespace = hcr_namespace (csp_chart pair), nn_name = hcr_job_name (csp_chart pair)\<rparr> in
      \<exists>w1 w2. (\<exists>job finished. run_state (get_job K key) w1 = (Ok job, w2)
             \<and> (JobComplete, ConditionTrue) \<in> set (job_conditions job)
             \<and> job_completion_time job = Some finished \<and> t < finished)
        \<or> (\<exists>e info w3. run_state (get_job K key) w1 = (Err e, w2) \<and> is_not_found e
             \<and> run_state (RetrieveRelease HC (hcr_name (csp_chart pair))) w2 = (Ok info, w3)
             \<and> release_advanced info (csp_snapshot pair)))"

lemma job_completed_after_iff:
  "job_completed_after job t \<longleftrightarrow> (JobComplete, ConditionTrue) \<in> set (job_conditions job)
     \<and> (\<exists>finished. job_completion_time job = Some finished \<and> finished \<noteq> 0 \<and> t < finished)"
  by (auto simp: job_completed_after_def list_ex_iff split: option.splits)

lemma isHelmChartJobComplete_True:
  assumes "run_state (isHelmChartJobComplete K HC pair t) w = (Ok True, w')"
  shows "component_applied K HC pair t"
proof -
  let ?key = "\<lparr>nn_namespace = hcr_namespace (csp_chart pair), nn_name = hcr_job_name (csp_chart pair)\<rparr>"
  have name: "hcr_job_name (csp_chart pair) \<noteq> []"
    using assms by (auto simp: isHelmChartJobComplete_def Let_def)
  obtain r w1 where job: "run_state (get_job K ?key) w = (r, w1)" by fastforce
  show ?thesis
  proof (cases r)
    case (Ok j)
    with assms name job show ?thesis
      by (auto simp: isHelmChartJobComplete_def Let_def run_handle component_applied_def
          job_completed_after_iff)
  next
    case (Err e)
    obtain q w2 where rel: "run_state (RetrieveRelease HC (hcr_name (csp_chart pair))) w1 = (q, w2)" by fastforce
    from assms name job Err have nf: "is_not_found e"
      by (auto simp: isHelmChartJobComplete_def Let_def run_handle split: if_splits)
    with assms name job Err rel have "\<exists>info. q = Ok info \<and> release_advanced info (csp_snapshot pair)"
      by (auto simp: isHelmChartJobComplete_def hasHelmReleaseAdvancedPastSnapshot_def Let_def run_handle
          release_advanced_def split: outcome.splits option.splits if_splits)
    with name job Err rel nf show ?thesis
      unfolding component_applied_def Let_def by blast
  next
    case (Panic p)
    with assms name job show ?thesis by (simp add: isHelmChartJobComplete_def Let_def run_handle)
  qed
qed



lemma populate_entries_data:
  "returns (populate_entries R HC charts data) (\<lambda>out. \<forall>name.
     if name \<in> hcr_name ` set charts
     then \<exists>chart info text. chart \<in> set charts \<and> hcr_name chart = name
            \<and> lib_snapshot_marshal R (chart_snapshot R chart info) = Ok text \<and> fmlookup out name = Some text
     else fmlookup out name = fmlookup data name)"
proof (induction charts arbitrary: data)
  case Nil
  then show ?case by (simp add: returns_ok)
next
  case (Cons c cs)
  have taken: "returns (wrap m (createHelmChartSnapshot R HC c)) (\<lambda>snap. \<exists>info. snap = chart_snapshot R c info)" for m
    unfolding createHelmChartSnapshot_def by (auto intro!: returns_intros)
  have marshaled: "returns (wrap m (pure_call (lib_snapshot_marshal R snap))) (\<lambda>text. lib_snapshot_marshal R snap = Ok text)"
    for m snap by (rule returns_wrap) (auto simp: returns_def)
  show ?case
    unfolding populate_entries.simps
  proof (rule returns_attempt [OF taken], rule returns_attempt [OF marshaled], elim exE, goal_cases)
    case (1 snap content info)
    show ?case
    proof (rule returns_mono [OF Cons.IH], intro allI, goal_cases)
      case (1 out name)
      then have out: "if name \<in> hcr_name ` set cs
        then \<exists>chart info text. chart \<in> set cs \<and> hcr_name chart = name
            \<and> lib_snapshot_marshal R (chart_snapshot R chart info) = Ok text \<and> fmlookup out name = Some text
        else fmlookup out name = fmlookup (fmupd (hcr_name c) content data) name" by blast
      show ?case
      proof (cases "name \<in> hcr_name ` set cs")
        case True
        with out show ?thesis by auto
      next
        case False
        with out \<open>lib_snapshot_marshal R snap = Ok content\<close> \<open>snap = chart_snapshot R c info\<close>
        show ?thesis by (cases "name = hcr_name c") (simp, blast, simp)
      qed
    qed
  qed
qed

lemma parse_entries_Ok:
  assumes "\<forall>(k, d) \<in> set es. \<exists>x. lib_snapshot_unmarshal R d = Ok x"
  shows "\<exists>snaps. parse_entries R es = Ok snaps
     \<and> set snaps = {x. \<exists>(k, d) \<in> set es. lib_snapshot_unmarshal R d = Ok x}"
  using assms by (induction es rule: parse_entries.induct) fastforce+

lemma snapshot_map_find: "snapshot_map snaps n = find (\<lambda>s. pcs_name s = n) (rev snaps)"
  unfolding snapshot_map_def by (induction snaps rule: rev_induct) auto

text \<open>
  A populated snapshot: the data holds, under the name of every component found, the text of its
  snapshot, and nothing else.
\<close>

definition populated :: "rke2_libs \<Rightarrow> components \<Rightarrow> (string, string) fmap \<Rightarrow> bool" where
  "populated R latest data \<longleftrightarrow>
     (\<forall>k d. fmlookup data k = Some d \<longrightarrow> (\<exists>chart info. fmlookup latest k = Some chart
        \<and> lib_snapshot_unmarshal R d = Ok (chart_snapshot R chart info)))
   \<and> (\<forall>k. fmlookup latest k \<noteq> None \<longrightarrow> fmlookup data k \<noteq> None)"

lemma populateSnapshot_populated:
  assumes "valid_range R"
    and "\<And>x text. lib_snapshot_marshal R x = Ok text \<Longrightarrow> lib_snapshot_unmarshal R text = Ok x"
    and "run_state find_components w = (Ok latest, w1)"
    and "\<And>name chart. fmlookup latest name = Some chart \<Longrightarrow> hcr_name chart = name"
    and "run_state (populateSnapshot R HC find_components cm) w = (Ok cm', w')" and "cm_data cm = fmempty"
  shows "\<exists>data. cm' = cm\<lparr>cm_data := data\<rparr> \<and> populated R latest data"
proof -
  let ?charts = "map snd (range_entries R latest)"
  have charts: "chart \<in> set ?charts \<longleftrightarrow> fmlookup latest (hcr_name chart) = Some chart" for chart
    using assms(4) set_range_entries [OF assms(1), of latest] by force
  obtain data w2 where run: "run_state (populate_entries R HC ?charts fmempty) w1 = (Ok data, w2)"
    and cm': "cm' = cm\<lparr>cm_data := data\<rparr>"
    using assms(3,5,6) by (auto simp: populateSnapshot_def run_attempt run_wrap split: prod.splits outcome.splits)
  have data: "if name \<in> hcr_name ` set ?charts
     then \<exists>chart info text. chart \<in> set ?charts \<and> hcr_name chart = name
            \<and> lib_snapshot_marshal R (chart_snapshot R chart info) = Ok text \<and> fmlookup data name = Some text
     else fmlookup data name = None" for name
    using returnsD [OF populate_entries_data run] by (simp only: fmempty_lookup) blast
  have "\<exists>chart info. fmlookup latest k = Some chart
      \<and> lib_snapshot_unmarshal R d = Ok (chart_snapshot R chart info)" if "fmlookup data k = Some d" for k d
    using data [of k] that assms(2) charts by (auto split: if_splits)
  moreover have "fmlookup data k \<noteq> None" if "fmlookup latest k \<noteq> None" for k
  proof -
    from that obtain chart where "fmlookup latest k = Some chart" by auto
    then have "k \<in> hcr_name ` set ?charts" using charts assms(4) by (metis image_eqI)
    with data [of k] show ?thesis by auto
  qed
  ultimately show ?thesis using cm' unfolding populated_def by blast
qed

lemma populatedE:
  assumes "populated R latest data" and "fmlookup data k = Some d"
  obtains chart info where "fmlookup latest k = Some chart" "lib_snapshot_unmarshal R d = Ok (chart_snapshot R chart info)"
  using assms(1) [unfolded populated_def, THEN conjunct1, THEN spec [of _ k], THEN spec [of _ d]] assms(2) by blast

text \<open>The chart snapshots read from such data, and what the map of them has under a name.\<close>

lemma populated_parses:
  assumes "valid_range R" and "populated R latest data"
  obtains snaps where "parse_entries R (range_entries R data) = Ok snaps"
    "set snaps = {x. \<exists>k d. fmlookup data k = Some d \<and> lib_snapshot_unmarshal R d = Ok x}"
proof -
  have entries: "set (range_entries R data) = {(k, d). fmlookup data k = Some d}"
    by (rule set_range_entries [OF assms(1)])
  have "\<forall>(k, d) \<in> set (range_entries R data). \<exists>x. lib_snapshot_unmarshal R d = Ok x"
    unfolding entries
  proof clarify
    fix k d assume d: "fmlookup data k = Some d"
    show "\<exists>x. lib_snapshot_unmarshal R d = Ok x"
      by (rule populatedE [OF assms(2) d]) blast
  qed
  from parse_entries_Ok [OF this] that show thesis unfolding entries by auto
qed

lemma populated_snapshot:
  assumes "populated R latest data" and "\<And>name chart. fmlookup latest name = Some chart \<Longrightarrow> hcr_name chart = name"
    and "\<exists>k d. fmlookup data k = Some d \<and> lib_snapshot_unmarshal R d = Ok s"
  shows "\<exists>chart info. fmlookup latest (pcs_name s) = Some chart \<and> s = chart_snapshot R chart info"
proof -
  obtain k d where d: "fmlookup data k = Some d" "lib_snapshot_unmarshal R d = Ok s" using assms(3) by blast
  obtain chart info where "fmlookup latest k = Some chart" "lib_snapshot_unmarshal R d = Ok (chart_snapshot R chart info)"
    by (rule populatedE [OF assms(1) d(1)])
  then show ?thesis using d(2) assms(2) by (auto simp: chart_snapshot_def)
qed

lemma populated_missing:
  assumes "populated R latest data" and "\<And>name chart. fmlookup latest name = Some chart \<Longrightarrow> hcr_name chart = name"
    and "\<forall>s. (\<exists>k d. fmlookup data k = Some d \<and> lib_snapshot_unmarshal R d = Ok s) \<longrightarrow> pcs_name s \<noteq> name"
  shows "fmlookup latest name = None"
proof (rule ccontr)
  assume "fmlookup latest name \<noteq> None"
  then have "fmlookup data name \<noteq> None"
    using assms(1) [unfolded populated_def, THEN conjunct2, THEN spec [of _ name]] by simp
  then obtain d where d: "fmlookup data name = Some d" by auto
  obtain chart info where chart: "fmlookup latest name = Some chart"
    "lib_snapshot_unmarshal R d = Ok (chart_snapshot R chart info)"
    by (rule populatedE [OF assms(1) d])
  with assms(3) d have "pcs_name (chart_snapshot R chart info) \<noteq> name" by blast
  with assms(2) [OF chart(1)] show False by (simp add: chart_snapshot_def)
qed



end
