(* ===== verification/Conditions.thy ===== *)
theory Conditions
  imports Pipeline
begin

text \<open>
  The status conditions of a Release, after \<^verbatim>\<open>internal/controller/condition.go\<close>. The three
  functions of \<^verbatim>\<open>k8s.io/apimachinery\<close> it rests on are the fields of a record; what they are
  documented to do is the locale \<open>condition_laws\<close>.
\<close>

section \<open>Definitions\<close>

record cond_lib =
  FindStatusCondition :: "condition list \<Rightarrow> string \<Rightarrow> condition option"
  SetStatusCondition :: "condition list \<Rightarrow> condition \<Rightarrow> condition list"
  IsStatusConditionTrue :: "condition list \<Rightarrow> string \<Rightarrow> bool"

definition release_conditions :: "Release \<Rightarrow> condition list" where
  "release_conditions release = status_conditions (rel_status release)"

definition set_release_conditions :: "condition list \<Rightarrow> Release \<Rightarrow> Release" where
  "set_release_conditions cs release =
     release\<lparr>rel_status := (rel_status release)\<lparr>status_conditions := cs\<rparr>\<rparr>"

definition find_release_condition :: "cond_lib \<Rightarrow> Release \<Rightarrow> string \<Rightarrow> condition option" where
  "find_release_condition CL release = FindStatusCondition CL (release_conditions release)"

definition setCondition ::
  "cond_lib \<Rightarrow> string \<Rightarrow> condition_status \<Rightarrow> string \<Rightarrow> string \<Rightarrow> Release \<Rightarrow> Release" where
  "setCondition CL conditionType status reason message release =
     set_release_conditions
       (SetStatusCondition CL (release_conditions release)
         \<lparr>cond_type = conditionType, cond_status = status,
          cond_generation = rel_generation release,
          cond_reason = reason, cond_message = message, cond_transition = 0\<rparr>)
       release"

definition set_if_missing :: "cond_lib \<Rightarrow> string \<Rightarrow> string \<Rightarrow> Release \<Rightarrow> Release" where
  "set_if_missing CL conditionType message release =
     (if find_release_condition CL release conditionType = None
      then setCondition CL conditionType ConditionFalse UpgradePending message release
      else release)"

definition initializePendingConditions :: "cond_lib \<Rightarrow> phase list \<Rightarrow> Release \<Rightarrow> Release" where
  "initializePendingConditions CL phases release =
     set_if_missing CL ConditionApplied ''Upgrade pending''
      (foldl (\<lambda>rel p. set_if_missing CL (ConditionType p) ''Waiting for previous phases to complete'' rel)
        (set_if_missing CL ConditionManifestResolved ''Waiting for release manifest to be resolved''
          (set_if_missing CL (ConditionType PhaseLCM) ''Waiting for LCM upgrade phase to complete'' release))
        phases)"

definition setPhaseConditionFromError :: "cond_lib \<Rightarrow> gerr \<Rightarrow> Release \<Rightarrow> Release" where
  "setPhaseConditionFromError CL err release =
     (case as_phase_error err of
        None \<Rightarrow> release
      | Some (p, e) \<Rightarrow> setCondition CL (ConditionType p) ConditionFalse UpgradeFailed (err_msg e) release)"

definition updatePhaseCondition :: "cond_lib \<Rightarrow> Release \<Rightarrow> phase \<times> PhaseStatus \<Rightarrow> Release" where
  "updatePhaseCondition CL release entry =
     (case entry of (p, state) \<Rightarrow>
        if ps_state state = UpgradeSucceeded \<or> ps_state state = UpgradeSkipped
        then (case find_release_condition CL release (ConditionType p) of
                Some existing \<Rightarrow>
                  if cond_status existing = ConditionTrue then release
                  else setCondition CL (ConditionType p) ConditionTrue (ps_state state) (ps_message state) release
              | None \<Rightarrow>
                  setCondition CL (ConditionType p) ConditionTrue (ps_state state) (ps_message state) release)
        else setCondition CL (ConditionType p) ConditionFalse (ps_state state) (ps_message state) release)"

text \<open>The loop over the map of phase states, on its sts in some order.\<close>

definition updatePhaseConditions :: "cond_lib \<Rightarrow> (phase \<times> PhaseStatus) list \<Rightarrow> Release \<Rightarrow> Release" where
  "updatePhaseConditions CL sts release = foldl (updatePhaseCondition CL) release sts"

text \<open>The three variables of the loop in \<open>updateAppliedCondition\<close>.\<close>

record applied_scan =
  all_succeeded :: bool
  failed_phase :: string
  in_progress_phase :: string

definition scan_phase :: "cond_lib \<Rightarrow> Release \<Rightarrow> applied_scan \<Rightarrow> phase \<Rightarrow> applied_scan" where
  "scan_phase CL release sc p =
     (case find_release_condition CL release (ConditionType p) of
        None \<Rightarrow> sc\<lparr>all_succeeded := False\<rparr>
      | Some cond \<Rightarrow>
          if cond_status cond \<noteq> ConditionTrue
          then (let sc' = sc\<lparr>all_succeeded := False\<rparr> in
                if cond_reason cond = UpgradeFailed then sc'\<lparr>failed_phase := ConditionType p\<rparr>
                else if cond_reason cond = UpgradeInProgress \<and> in_progress_phase sc = []
                then sc'\<lparr>in_progress_phase := ConditionType p\<rparr>
                else sc')
          else sc)"

definition scan_phases :: "cond_lib \<Rightarrow> Release \<Rightarrow> phase list \<Rightarrow> applied_scan" where
  "scan_phases CL release phases =
     foldl (scan_phase CL release)
       \<lparr>all_succeeded = True, failed_phase = [], in_progress_phase = []\<rparr> phases"

definition updateAppliedFromPhases :: "cond_lib \<Rightarrow> phase list \<Rightarrow> Release \<Rightarrow> Release" where
  "updateAppliedFromPhases CL phases release =
     (let sc = scan_phases CL release phases in
      if all_succeeded sc
      then setCondition CL ConditionApplied ConditionTrue UpgradeSucceeded
             ''All upgrade phases completed successfully'' release
      else if failed_phase sc \<noteq> []
      then setCondition CL ConditionApplied ConditionFalse UpgradeFailed
             (''Phase '' @ failed_phase sc @ '' failed'') release
      else if in_progress_phase sc \<noteq> []
      then setCondition CL ConditionApplied ConditionFalse UpgradeInProgress
             (''Phase '' @ in_progress_phase sc @ '' is in progress'') release
      else release)"

definition updateAppliedFromManifest :: "cond_lib \<Rightarrow> phase list \<Rightarrow> Release \<Rightarrow> Release" where
  "updateAppliedFromManifest CL phases release =
     (case find_release_condition CL release ConditionManifestResolved of
        None \<Rightarrow> release
      | Some manifest \<Rightarrow>
          if cond_reason manifest = UpgradeFailed
          then setCondition CL ConditionApplied ConditionFalse UpgradeFailed (cond_message manifest) release
          else if cond_status manifest \<noteq> ConditionTrue then release
          else updateAppliedFromPhases CL phases release)"

definition updateAppliedCondition :: "cond_lib \<Rightarrow> phase list \<Rightarrow> Release \<Rightarrow> Release" where
  "updateAppliedCondition CL phases release =
     (case find_release_condition CL release (ConditionType PhaseLCM) of
        Some lcmCond \<Rightarrow>
          if cond_status lcmCond = ConditionFalse \<and> cond_reason lcmCond = UpgradeFailed
          then setCondition CL ConditionApplied ConditionFalse UpgradeFailed
                 ''Upgrade failed as LCM upgrade failed'' release
          else updateAppliedFromManifest CL phases release
      | None \<Rightarrow> updateAppliedFromManifest CL phases release)"

section \<open>The interface of the condition library\<close>

text \<open>What a reader of the status sees of a condition.\<close>

type_synonym condition_view = "condition_status \<times> string \<times> string"

definition view_of :: "condition \<Rightarrow> condition_view" where
  "view_of c = (cond_status c, cond_reason c, cond_message c)"

definition view :: "cond_lib \<Rightarrow> Release \<Rightarrow> string \<Rightarrow> condition_view option" where
  "view CL release t = map_option view_of (find_release_condition CL release t)"

locale condition_laws =
  fixes CL :: cond_lib
  assumes find_none: "FindStatusCondition CL [] t = None"
    and find_set: "map_option view_of (FindStatusCondition CL (SetStatusCondition CL cs c) (cond_type c))
                     = Some (view_of c)"
    and find_other: "t \<noteq> cond_type c \<Longrightarrow>
          FindStatusCondition CL (SetStatusCondition CL cs c) t = FindStatusCondition CL cs t"
    and is_true: "IsStatusConditionTrue CL cs t \<longleftrightarrow>
          (\<exists>c. FindStatusCondition CL cs t = Some c \<and> cond_status c = ConditionTrue)"

text \<open>The view of a phase condition after an update from a phase status.\<close>

definition phase_view :: "PhaseStatus \<Rightarrow> condition_view option \<Rightarrow> condition_view option" where
  "phase_view s old =
     (if status_complete s
      then (if \<exists>r m. old = Some (ConditionTrue, r, m) then old
            else Some (ConditionTrue, ps_state s, ps_message s))
      else Some (ConditionFalse, ps_state s, ps_message s))"

text \<open>The view of the Applied condition that the phases call for; \<open>None\<close> leaves it as it is.\<close>

definition failed_view :: "condition_view option \<Rightarrow> bool" where
  "failed_view v \<longleftrightarrow> (\<exists>st m. v = Some (st, UpgradeFailed, m) \<and> st \<noteq> ConditionTrue)"

definition true_view :: "condition_view option \<Rightarrow> bool" where
  "true_view v \<longleftrightarrow> (\<exists>r m. v = Some (ConditionTrue, r, m))"

definition progress_view :: "condition_view option \<Rightarrow> bool" where
  "progress_view v \<longleftrightarrow> (\<exists>st m. v = Some (st, UpgradeInProgress, m) \<and> st \<noteq> ConditionTrue)"

context condition_laws
begin

lemma view_setCondition [simp]:
  "view CL (setCondition CL t st r m release) t'
     = (if t' = t then Some (st, r, m) else view CL release t')"
proof (cases "t' = t")
  case True
  then show ?thesis
    using find_set [of _ "\<lparr>cond_type = t, cond_status = st, cond_generation = rel_generation release,
        cond_reason = r, cond_message = m, cond_transition = 0\<rparr>"]
    by (simp add: view_def find_release_condition_def setCondition_def release_conditions_def
        set_release_conditions_def view_of_def)
next
  case False
  then show ?thesis
    by (simp add: view_def find_release_condition_def setCondition_def release_conditions_def
        set_release_conditions_def find_other)
qed

lemma find_None_view: "find_release_condition CL release t = None \<longleftrightarrow> view CL release t = None"
  by (simp add: view_def)

lemma view_set_if_missing:
  "view CL (set_if_missing CL t m release) t'
     = (if t' = t \<and> view CL release t = None then Some (ConditionFalse, UpgradePending, m)
        else view CL release t')"
  by (auto simp: set_if_missing_def find_None_view)

lemma view_updatePhaseCondition:
  "view CL (updatePhaseCondition CL release (p, s)) t
     = (if t = ConditionType p then phase_view s (view CL release t) else view CL release t)"
proof -
  have "(\<exists>r m. view CL release t = Some (ConditionTrue, r, m)) \<longleftrightarrow>
      (\<exists>c. find_release_condition CL release t = Some c \<and> cond_status c = ConditionTrue)" for t
    by (auto simp: view_def view_of_def)
  then show ?thesis
    by (auto simp: updatePhaseCondition_def phase_view_def status_complete_def split: option.split)
qed

lemma view_updatePhaseConditions:
  "distinct (map fst sts) \<Longrightarrow>
     view CL (updatePhaseConditions CL sts release) t
       = (case map_of (map (\<lambda>(p, s). (ConditionType p, s)) sts) t of
            None \<Rightarrow> view CL release t
          | Some s \<Rightarrow> phase_view s (view CL release t))"
proof (induction sts arbitrary: release)
  case Nil
  then show ?case by (simp add: updatePhaseConditions_def)
next
  case (Cons entry sts)
  obtain p s where entry: "entry = (p, s)" by (cases entry)
  have "map_of (map (\<lambda>(p, s). (ConditionType p, s)) sts) (ConditionType p) = None"
    using Cons.prems entry by (force simp: map_of_eq_None_iff inj_ConditionType)
  then show ?case
    using Cons.IH [of "updatePhaseCondition CL release (p, s)"] Cons.prems entry
    by (auto simp: updatePhaseConditions_def view_updatePhaseCondition split: option.split)
qed

lemma scan_phases_view:
  "all_succeeded (scan_phases CL release ps) \<longleftrightarrow> (\<forall>p \<in> set ps. true_view (view CL release (ConditionType p)))"
  "failed_phase (scan_phases CL release ps) \<noteq> [] \<longleftrightarrow> (\<exists>p \<in> set ps. failed_view (view CL release (ConditionType p)))"
  "in_progress_phase (scan_phases CL release ps) \<noteq> [] \<longleftrightarrow>
     (\<exists>p \<in> set ps. progress_view (view CL release (ConditionType p)))"
proof -
  have ne: "ConditionType p \<noteq> []" for p by (simp add: ConditionType_def)
  have one: "all_succeeded (scan_phase CL release sc p) \<longleftrightarrow>
        all_succeeded sc \<and> true_view (view CL release (ConditionType p))"
    "failed_phase (scan_phase CL release sc p) = [] \<longleftrightarrow>
        failed_phase sc = [] \<and> \<not> failed_view (view CL release (ConditionType p))"
    "in_progress_phase (scan_phase CL release sc p) = [] \<longleftrightarrow>
        in_progress_phase sc = [] \<and> \<not> progress_view (view CL release (ConditionType p))" for sc p
    by (cases "find_release_condition CL release (ConditionType p)";
        auto simp: scan_phase_def true_view_def failed_view_def progress_view_def view_def view_of_def ne Let_def)+
  have step: "all_succeeded (foldl (scan_phase CL release) sc ps) \<longleftrightarrow>
        all_succeeded sc \<and> (\<forall>p \<in> set ps. true_view (view CL release (ConditionType p)))"
    "failed_phase (foldl (scan_phase CL release) sc ps) = [] \<longleftrightarrow>
        failed_phase sc = [] \<and> (\<forall>p \<in> set ps. \<not> failed_view (view CL release (ConditionType p)))"
    "in_progress_phase (foldl (scan_phase CL release) sc ps) = [] \<longleftrightarrow>
        in_progress_phase sc = [] \<and> (\<forall>p \<in> set ps. \<not> progress_view (view CL release (ConditionType p)))" for sc
    subgoal by (induction ps arbitrary: sc) (auto simp: one(1))
    subgoal by (induction ps arbitrary: sc) (auto simp: one(2))
    subgoal by (induction ps arbitrary: sc) (auto simp: one(3))
    done
  show "all_succeeded (scan_phases CL release ps) \<longleftrightarrow> (\<forall>p \<in> set ps. true_view (view CL release (ConditionType p)))"
    "failed_phase (scan_phases CL release ps) \<noteq> [] \<longleftrightarrow> (\<exists>p \<in> set ps. failed_view (view CL release (ConditionType p)))"
    "in_progress_phase (scan_phases CL release ps) \<noteq> [] \<longleftrightarrow>
       (\<exists>p \<in> set ps. progress_view (view CL release (ConditionType p)))"
    by (simp_all add: scan_phases_def step)
qed

lemma view_updateApplied_other:
  "t \<noteq> ConditionApplied \<Longrightarrow> view CL (updateAppliedCondition CL phases release) t = view CL release t"
  by (simp add: updateAppliedCondition_def updateAppliedFromManifest_def updateAppliedFromPhases_def
      Let_def split: option.split)

text \<open>The Applied condition after the update.\<close>

lemma view_updateApplied:
  "view CL (updateAppliedCondition CL phases release) ConditionApplied =
     (if \<exists>m. view CL release ConditionLCMUpgraded = Some (ConditionFalse, UpgradeFailed, m)
      then Some (ConditionFalse, UpgradeFailed, ''Upgrade failed as LCM upgrade failed'')
      else case view CL release ConditionManifestResolved of
        None \<Rightarrow> view CL release ConditionApplied
      | Some (st, r, m) \<Rightarrow>
          if r = UpgradeFailed then Some (ConditionFalse, UpgradeFailed, m)
          else if st \<noteq> ConditionTrue then view CL release ConditionApplied
          else view CL (updateAppliedFromPhases CL phases release) ConditionApplied)"
proof -
  have "view CL (updateAppliedFromManifest CL phases release) ConditionApplied =
     (case view CL release ConditionManifestResolved of
        None \<Rightarrow> view CL release ConditionApplied
      | Some (st, r, m) \<Rightarrow>
          if r = UpgradeFailed then Some (ConditionFalse, UpgradeFailed, m)
          else if st \<noteq> ConditionTrue then view CL release ConditionApplied
          else view CL (updateAppliedFromPhases CL phases release) ConditionApplied)"
    by (cases "find_release_condition CL release ConditionManifestResolved")
      (auto simp: updateAppliedFromManifest_def view_def [of _ _ ConditionManifestResolved] view_of_def)
  then show ?thesis
    by (cases "find_release_condition CL release ConditionLCMUpgraded")
      (auto simp: updateAppliedCondition_def view_def [of _ _ ConditionLCMUpgraded] view_of_def)
qed

lemma applied_true_phases:
  assumes "true_view (view CL (updateAppliedCondition CL phases release) ConditionApplied)"
    and "\<not> true_view (view CL release ConditionApplied)"
  shows "true_view (view CL release ConditionManifestResolved)
     \<and> (\<forall>p \<in> set phases. true_view (view CL release (ConditionType p)))
     \<and> \<not> (\<exists>m. view CL release ConditionLCMUpgraded = Some (ConditionFalse, UpgradeFailed, m))"
proof -
  have "view CL (updateAppliedFromPhases CL phases release) ConditionApplied
      = view CL (updateAppliedFromPhases CL phases release) ConditionApplied" ..
  then have phases: "true_view (view CL (updateAppliedFromPhases CL phases release) ConditionApplied) \<longrightarrow>
      (\<forall>p \<in> set phases. true_view (view CL release (ConditionType p)))"
    using assms(2) scan_phases_view(1) [of release phases]
    by (auto simp: updateAppliedFromPhases_def Let_def true_view_def)
  show ?thesis
    using assms phases unfolding view_updateApplied
    by (auto simp: true_view_def split: if_splits option.splits prod.splits)
qed

end

section \<open>A list of conditions\<close>

text \<open>The laws hold of a list that keeps one condition per type, the way \<^verbatim>\<open>SetStatusCondition\<close>
  is documented: the condition of that type is replaced in place, keeping its transition time when
  the status does not change, and a new type is appended.\<close>

fun replace_condition :: "condition list \<Rightarrow> condition \<Rightarrow> condition list" where
  "replace_condition [] c = [c]"
| "replace_condition (x # xs) c =
     (if cond_type x = cond_type c
      then (if cond_status x = cond_status c then c\<lparr>cond_transition := cond_transition x\<rparr> else c) # xs
      else x # replace_condition xs c)"

definition list_conditions :: cond_lib where
  "list_conditions =
     \<lparr>FindStatusCondition = (\<lambda>cs t. find (\<lambda>c. cond_type c = t) cs),
      SetStatusCondition = replace_condition,
      IsStatusConditionTrue = (\<lambda>cs t. list_ex (\<lambda>c. cond_type c = t \<and> cond_status c = ConditionTrue)
        (filter (\<lambda>c. cond_type c = t) (take 1 (filter (\<lambda>c. cond_type c = t) cs))))\<rparr>"

interpretation conds: condition_laws list_conditions
proof
  fix cs :: "condition list" and c t
  show "map_option view_of (FindStatusCondition list_conditions (SetStatusCondition list_conditions cs c)
      (cond_type c)) = Some (view_of c)"
    by (induction cs) (auto simp: list_conditions_def view_of_def)
  show "FindStatusCondition list_conditions (SetStatusCondition list_conditions cs c) t
      = FindStatusCondition list_conditions cs t" if "t \<noteq> cond_type c"
    using that by (induction cs) (auto simp: list_conditions_def)
  show "IsStatusConditionTrue list_conditions cs t \<longleftrightarrow>
      (\<exists>c. FindStatusCondition list_conditions cs t = Some c \<and> cond_status c = ConditionTrue)"
    by (induction cs) (auto simp: list_conditions_def)
qed (simp add: list_conditions_def)

section \<open>Properties\<close>

text \<open>
  The status conditions do not depend on the order in which Go walks the map of phase states:
  whatever the order, each condition ends up with the same status, reason and message.
\<close>

theorem updatePhaseConditions_any_order:
  assumes "condition_laws CL" and "distinct (map fst sts)" and "distinct (map fst sts')"
    and "set sts = set sts'"
  shows "view CL (updatePhaseConditions CL sts release) t = view CL (updatePhaseConditions CL sts' release) t"
proof -
  let ?key = "\<lambda>(p, s :: PhaseStatus). (ConditionType p, s)"
  have keys: "distinct (map fst (map ?key xs))" if "distinct (map fst xs)" for xs
  proof -
    have "map fst (map ?key xs) = map ConditionType (map fst xs)" by (simp add: case_prod_beta)
    moreover have "inj_on ConditionType A" for A by (simp add: inj_on_def inj_ConditionType)
    ultimately show ?thesis using that by (simp only: distinct_map)
  qed
  have "map_of (map ?key sts) = map_of (map ?key sts')"
    using map_of_inject_set [OF keys [OF assms(2)] keys [OF assms(3)]] assms(4) by simp
  then show ?thesis
    using condition_laws.view_updatePhaseConditions [OF assms(1)] assms(2,3) by simp
qed

theorem updatePhaseConditions_any_order_witness:
  "\<forall>m n release t. view list_conditions (updatePhaseConditions list_conditions
       [(PhaseOS, \<lparr>ps_state = UpgradeSucceeded, ps_message = m\<rparr>),
        (PhaseKubernetes, \<lparr>ps_state = UpgradeInProgress, ps_message = n\<rparr>)] release) t
   = view list_conditions (updatePhaseConditions list_conditions
       [(PhaseKubernetes, \<lparr>ps_state = UpgradeInProgress, ps_message = n\<rparr>),
        (PhaseOS, \<lparr>ps_state = UpgradeSucceeded, ps_message = m\<rparr>)] release) t"
proof -
  have "ConditionType PhaseOS \<noteq> ConditionType PhaseKubernetes"
    unfolding ConditionType_phases by simp
  then have "PhaseOS \<noteq> PhaseKubernetes" unfolding inj_ConditionType .
  then show ?thesis
    by (intro allI updatePhaseConditions_any_order conds.condition_laws_axioms) auto
qed

text \<open>
  C10. The Release is reported as applied only when the whole upgrade is: the Applied condition turns
  true only if the manifest is resolved, the manager's own upgrade has not failed, and the condition
  of every phase is true.
\<close>

theorem Applied_only_when_all_phases_succeeded:
  assumes "condition_laws CL"
    and "\<not> true_view (view CL release ConditionApplied)"
    and "true_view (view CL (updateAppliedCondition CL phases release) ConditionApplied)"
  shows "true_view (view CL release ConditionManifestResolved)
     \<and> (\<forall>p \<in> set phases. true_view (view CL release (ConditionType p)))
     \<and> (\<nexists>m. view CL release ConditionLCMUpgraded = Some (ConditionFalse, UpgradeFailed, m))"
  using condition_laws.applied_true_phases [OF assms(1,3,2)] by simp

definition witness_release :: Release where
  "witness_release =
     \<lparr>rel_name = ''r'', rel_namespace = ''ns'', rel_generation = 1,
      rel_spec = \<lparr>spec_version = ''2'', spec_registry = ''reg'', spec_disable_drain = False,
                  spec_component_config = None\<rparr>,
      rel_status = \<lparr>status_version = [], status_conditions = [], status_observed_generation = 1\<rparr>\<rparr>"

theorem Applied_only_when_all_phases_succeeded_witness:
  "true_view (view list_conditions
     (setCondition list_conditions (ConditionType PhaseOS) ConditionTrue UpgradeSucceeded []
       (setCondition list_conditions ConditionManifestResolved ConditionTrue UpgradeSucceeded [] witness_release))
     (ConditionType PhaseOS))"
proof -
  let ?rel = "setCondition list_conditions (ConditionType PhaseOS) ConditionTrue UpgradeSucceeded []
    (setCondition list_conditions ConditionManifestResolved ConditionTrue UpgradeSucceeded [] witness_release)"
  have empty: "view list_conditions witness_release t = None" for t
    by (simp add: view_def find_release_condition_def release_conditions_def witness_release_def
        list_conditions_def)
  have os: "view list_conditions ?rel ConditionOSUpgraded = Some (ConditionTrue, UpgradeSucceeded, [])"
    by (simp add: empty)
  have "\<not> true_view (view list_conditions ?rel ConditionApplied)"
    by (simp add: empty true_view_def)
  moreover have "true_view (view list_conditions (updateAppliedCondition list_conditions [PhaseOS] ?rel) ConditionApplied)"
    using os by (simp add: conds.view_updateApplied conds.scan_phases_view empty true_view_def
        updateAppliedFromPhases_def Let_def)
  ultimately show ?thesis
    using Applied_only_when_all_phases_succeeded [OF conds.condition_laws_axioms, of ?rel "[PhaseOS]"] by simp
qed

text \<open>
  A failed or running phase shows in the Applied condition: once the manifest is resolved and the
  manager's own upgrade has not failed, the condition is true with reason Succeeded, false with
  reason Failed, or false with reason InProgress, when every phase condition is true, some phase has
  failed, or none has failed and some phase is in progress. No other condition changes.
\<close>

theorem updateAppliedCondition_spec:
  assumes "condition_laws CL"
    and "view CL release ConditionManifestResolved = Some (ConditionTrue, UpgradeSucceeded, m)"
    and "\<nexists>m. view CL release ConditionLCMUpgraded = Some (ConditionFalse, UpgradeFailed, m)"
  shows "map_option (\<lambda>(st, r, m). (st, r)) (view CL (updateAppliedCondition CL phases release) ConditionApplied) =
     (if \<forall>p \<in> set phases. true_view (view CL release (ConditionType p)) then Some (ConditionTrue, UpgradeSucceeded)
      else if \<exists>p \<in> set phases. failed_view (view CL release (ConditionType p)) then Some (ConditionFalse, UpgradeFailed)
      else if \<exists>p \<in> set phases. progress_view (view CL release (ConditionType p)) then Some (ConditionFalse, UpgradeInProgress)
      else map_option (\<lambda>(st, r, m). (st, r)) (view CL release ConditionApplied))
   \<and> (\<forall>t. t \<noteq> ConditionApplied \<longrightarrow> view CL (updateAppliedCondition CL phases release) t = view CL release t)"
proof -
  note laws = condition_laws.view_updateApplied [OF assms(1)]
    condition_laws.scan_phases_view [OF assms(1)] condition_laws.view_setCondition [OF assms(1)]
  show ?thesis
    using assms(2,3) condition_laws.view_updateApplied_other [OF assms(1), of _ phases release]
    by (simp add: laws updateAppliedFromPhases_def Let_def)
qed

theorem updateAppliedCondition_spec_witness:
  "map_option (\<lambda>(st, r, m). (st, r)) (view list_conditions (updateAppliedCondition list_conditions [PhaseOS]
     (setCondition list_conditions (ConditionType PhaseOS) ConditionFalse UpgradeInProgress []
       (setCondition list_conditions ConditionManifestResolved ConditionTrue UpgradeSucceeded [] witness_release)))
     ConditionApplied) = Some (ConditionFalse, UpgradeInProgress)"
proof -
  let ?rel = "setCondition list_conditions (ConditionType PhaseOS) ConditionFalse UpgradeInProgress []
       (setCondition list_conditions ConditionManifestResolved ConditionTrue UpgradeSucceeded [] witness_release)"
  have empty: "view list_conditions witness_release t = None" for t
    by (simp add: view_def find_release_condition_def release_conditions_def witness_release_def
        list_conditions_def)
  have resolved: "view list_conditions ?rel ConditionManifestResolved = Some (ConditionTrue, UpgradeSucceeded, [])"
    and lcm: "\<nexists>m. view list_conditions ?rel ConditionLCMUpgraded = Some (ConditionFalse, UpgradeFailed, m)"
    and os: "view list_conditions ?rel ConditionOSUpgraded = Some (ConditionFalse, UpgradeInProgress, [])"
    by (simp_all add: empty)
  show ?thesis
    using conjunct1 [OF updateAppliedCondition_spec [OF conds.condition_laws_axioms resolved lcm, of "[PhaseOS]"]]
      os by (simp add: true_view_def failed_view_def progress_view_def)
qed

end
