(* ===== verification/Manifest_Cache.thy ===== *)
theory Manifest_Cache
  imports Kube_Client Plans
begin

text \<open>
  The cache of resolved release manifests in a ConfigMap, after
  \<^verbatim>\<open>internal/release/manifest_cache.go\<close>. The JSON form of a manifest is a parameter.
\<close>

section \<open>Definitions\<close>

record manifest_codec =
  manifest_marshal :: "ResolvedManifest \<Rightarrow> string outcome"
  manifest_unmarshal :: "string \<Rightarrow> ResolvedManifest outcome"

definition manifestCacheConfigMapName :: string where
  "manifestCacheConfigMapName = ''release-manifest-cache''"

definition cache_key :: "string \<Rightarrow> NamespacedName" where
  "cache_key namespace = \<lparr>nn_namespace = namespace, nn_name = manifestCacheConfigMapName\<rparr>"

text \<open>The private \<open>get\<close>: the value under the key, \<open>None\<close> when it is not there.\<close>

definition cache_get :: "'w kube \<Rightarrow> string \<Rightarrow> string \<Rightarrow> ('w, string option) io" where
  "cache_get K namespace key =
     handle (get_config_map K (cache_key namespace))
       (\<lambda>err. if is_not_found err then ok None
              else raise (Wrapf ''getting manifest cache ConfigMap'' err))
       (\<lambda>configMap. ok (fmlookup (cm_data configMap) key))"

text \<open>The object that \<open>set\<close> creates when there is none.\<close>

definition new_cache :: "string \<Rightarrow> string \<Rightarrow> string \<Rightarrow> ConfigMap" where
  "new_cache namespace key value =
     \<lparr>cm_name = manifestCacheConfigMapName, cm_namespace = namespace,
      cm_labels = Map.empty, cm_annotations = Map.empty, cm_data = fmupd key value fmempty,
      cm_creation_timestamp = 0, cm_deletion_timestamp = None\<rparr>"

text \<open>The private \<open>set\<close>. A nil \<open>Data\<close> map is the empty map.\<close>

definition cache_set :: "'w kube \<Rightarrow> string \<Rightarrow> string \<Rightarrow> string \<Rightarrow> ('w, unit) io" where
  "cache_set K namespace key value =
     handle (get_config_map K (cache_key namespace))
       (\<lambda>err. if is_not_found err then create_config_map K (new_cache namespace key value)
              else raise (Wrapf ''getting manifest cache ConfigMap'' err))
       (\<lambda>configMap. update_config_map K (configMap\<lparr>cm_data := fmupd key value (cm_data configMap)\<rparr>))"

definition ManifestCache_Get ::
  "manifest_codec \<Rightarrow> 'w kube \<Rightarrow> string \<Rightarrow> string \<Rightarrow> ('w, ResolvedManifest option) io" where
  "ManifestCache_Get MC K namespace version =
     attempt (cache_get K namespace version) (\<lambda>data. case data of
        None \<Rightarrow> ok None
      | Some text \<Rightarrow>
          attempt (wrap ''unmarshaling cached manifest'' (pure_call (manifest_unmarshal MC text)))
            (\<lambda>manifest. ok (Some manifest)))"

definition ManifestCache_Set ::
  "manifest_codec \<Rightarrow> 'w kube \<Rightarrow> string \<Rightarrow> string \<Rightarrow> ResolvedManifest \<Rightarrow> ('w, unit) io" where
  "ManifestCache_Set MC K namespace version manifest =
     attempt (wrap ''marshaling manifest'' (pure_call (manifest_marshal MC manifest)))
       (\<lambda>data. cache_set K namespace version data)"

section \<open>A server that stores ConfigMaps\<close>

text \<open>
  What the cache expects of the API server: a ConfigMap that was created or updated is what the next
  read of its name returns. \<open>stored\<close> is the ConfigMap the server has under a name.
\<close>

definition cached ::
  "('w \<Rightarrow> NamespacedName \<Rightarrow> ConfigMap option) \<Rightarrow> 'w \<Rightarrow> string \<Rightarrow> string \<Rightarrow> string option" where
  "cached stored w namespace key =
     Option.bind (stored w (cache_key namespace)) (\<lambda>cm. fmlookup (cm_data cm) key)"

locale config_map_store =
  fixes K :: "'w kube"
    and stored :: "'w \<Rightarrow> NamespacedName \<Rightarrow> ConfigMap option"
  assumes get_stored: "run_state (get_config_map K n) w = (r, w') \<Longrightarrow>
      w' = w \<and> (case r of Ok cm \<Rightarrow> stored w n = Some cm \<and> cm_namespace cm = nn_namespace n \<and> cm_name cm = nn_name n
                        | Err e \<Rightarrow> is_not_found e \<longrightarrow> stored w n = None
                        | Panic _ \<Rightarrow> True)"
    and create_stored: "run_state (create_config_map K cm) w = (Ok (), w') \<Longrightarrow>
      stored w' = (stored w)(\<lparr>nn_namespace = cm_namespace cm, nn_name = cm_name cm\<rparr> \<mapsto> cm)"
    and update_stored: "run_state (update_config_map K cm) w = (Ok (), w') \<Longrightarrow>
      stored w' = (stored w)(\<lparr>nn_namespace = cm_namespace cm, nn_name = cm_name cm\<rparr> \<mapsto> cm)"
begin

lemma get_returns_cached:
  assumes "run_state (cache_get K namespace key) w = (Ok v, w')"
  shows "v = cached stored w namespace key \<and> w' = w"
proof -
  obtain r w1 where r: "run_state (get_config_map K (cache_key namespace)) w = (r, w1)" by fastforce
  show ?thesis
    using get_stored [OF r] r assms
    by (cases r) (auto simp: cache_get_def run_handle cached_def split: if_splits)
qed

lemma set_caches:
  assumes "run_state (cache_set K namespace key value) w = (Ok (), w')"
  shows "cached stored w' n k = (if n = namespace \<and> k = key then Some value else cached stored w n k)"
proof -
  obtain r w1 where r: "run_state (get_config_map K (cache_key namespace)) w = (r, w1)" by fastforce
  show ?thesis
  proof (cases r)
    case (Ok cm)
    let ?cm = "cm\<lparr>cm_data := fmupd key value (cm_data cm)\<rparr>"
    have w: "w1 = w" "stored w (cache_key namespace) = Some cm"
      "\<lparr>nn_namespace = cm_namespace ?cm, nn_name = cm_name ?cm\<rparr> = cache_key namespace"
      using get_stored [OF r] Ok by (auto simp: cache_key_def)
    have "run_state (update_config_map K ?cm) w = (Ok (), w')"
      using assms r Ok w(1) by (simp add: cache_set_def run_handle)
    from update_stored [OF this] have "stored w' = (stored w)(cache_key namespace \<mapsto> ?cm)"
      unfolding w(3) .
    then show ?thesis using w(2) by (auto simp: cached_def cache_key_def)
  next
    case (Err e)
    have w: "w1 = w" "stored w (cache_key namespace) = None"
      and created: "run_state (create_config_map K (new_cache namespace key value)) w = (Ok (), w')"
      using get_stored [OF r] assms r Err by (auto simp: cache_set_def run_handle split: if_splits)
    show ?thesis
      using create_stored [OF created] w(2) by (auto simp: cached_def cache_key_def new_cache_def)
  next
    case (Panic p)
    then show ?thesis using r assms by (simp add: cache_set_def run_handle)
  qed
qed

end

text \<open>
  Such a server, which keeps its ConfigMaps in a map and has nothing else. An update of a ConfigMap
  that is gone fails, as does the creation of one that is there.
\<close>

type_synonym config_maps = "NamespacedName \<Rightarrow> ConfigMap option"

definition cm_name_of :: "ConfigMap \<Rightarrow> NamespacedName" where
  "cm_name_of cm = \<lparr>nn_namespace = cm_namespace cm, nn_name = cm_name cm\<rparr>"

definition named_maps :: "config_maps \<Rightarrow> config_maps" where
  "named_maps w n = (case w n of None \<Rightarrow> None | Some cm \<Rightarrow> if cm_name_of cm = n then Some cm else None)"

definition write_map :: "bool \<Rightarrow> ConfigMap \<Rightarrow> (config_maps, unit) io" where
  "write_map new cm = State (\<lambda>w.
     if (named_maps w (cm_name_of cm) = None) = new
     then (Ok (), (named_maps w)(cm_name_of cm \<mapsto> cm))
     else (Err (if new then Conflict [] else NotFound []), w))"

definition absent :: "(config_maps, 'a) io" where
  "absent = raise (NotFound [])"

definition store_kube :: "config_maps kube" where
  "store_kube =
     \<lparr>get_release = (\<lambda>_. absent), list_releases = ok [],
      update_release_status = (\<lambda>_. absent), get_plan = (\<lambda>_. absent),
      create_plan = ok, list_plans = (\<lambda>_ _. ok []), delete_plan = (\<lambda>_. absent),
      get_helm_chart = (\<lambda>_. absent), create_helm_chart = (\<lambda>_. ok ()),
      update_helm_chart = (\<lambda>_. absent), list_helm_charts = (\<lambda>_. ok []),
      get_job = (\<lambda>_. absent),
      get_config_map = (\<lambda>n. State (\<lambda>w. (case named_maps w n of None \<Rightarrow> Err (NotFound []) | Some cm \<Rightarrow> Ok cm, w))),
      create_config_map = write_map True, update_config_map = write_map False,
      delete_config_map = (\<lambda>_. absent), get_secret = (\<lambda>_. absent),
      list_nodes = (\<lambda>_. ok []), label_selector = (\<lambda>_. Ok ''s'')\<rparr>"

lemma named_maps_update: "named_maps ((named_maps w)(cm_name_of cm \<mapsto> cm)) = (named_maps w)(cm_name_of cm \<mapsto> cm)"
  by (rule ext) (auto simp: named_maps_def split: option.splits)

lemma write_map_Ok:
  "run_state (write_map new cm) w = (Ok (), w') \<Longrightarrow> named_maps w' = (named_maps w)(cm_name_of cm \<mapsto> cm)"
  by (auto simp: write_map_def named_maps_update split: if_splits)

interpretation store: config_map_store store_kube named_maps
proof (unfold_locales, goal_cases)
  case (1 n w r w')
  then show ?case
    by (auto simp: store_kube_def named_maps_def cm_name_of_def split: option.splits if_splits)
next
  case (2 cm w w')
  then show ?case
    using write_map_Ok by (simp add: store_kube_def cm_name_of_def)
next
  case (3 cm w w')
  then show ?case
    using write_map_Ok by (simp add: store_kube_def cm_name_of_def)
qed

section \<open>Properties\<close>



end
