(* ===== verification/Manifest_Source.thy ===== *)
theory Manifest_Source
  imports Prelude
begin

text \<open>
  Reading a release manifest out of an OCI image, after \<^verbatim>\<open>internal/release/manifest.go\<close>. The
  registry client and the manifest resolver of the elemental library are parameters; the tar stream
  of the image is the list of what \<open>tar.Reader.Next\<close> yields until it reports \<open>io.EOF\<close>.
\<close>

section \<open>Definitions\<close>

text \<open>A file header with what \<open>io.ReadAll\<close> gives for its contents, or a broken stream.\<close>

datatype tar_item = TarFile string "string outcome" | TarBroken gerr

definition manifestPath :: string where
  "manifestPath = ''release_manifest.yaml''"

fun read_tar :: "tar_item list \<Rightarrow> string outcome" where
  "read_tar [] = Err (Errorf (''manifest file not found in image at path: '' @ manifestPath))"
| "read_tar (TarBroken err # items) = Err (Wrapf ''reading tar stream'' err)"
| "read_tar (TarFile name contents # items) =
     (if name = manifestPath then owrap ''reading manifest file contents'' contents
      else read_tar items)"

text \<open>\<open>name.ParseReference\<close> and \<open>remote.Image\<close> with \<open>mutate.Extract\<close>.\<close>

record ('w, 'r) registry =
  reg_parse_reference :: "string \<Rightarrow> 'r outcome"
  reg_image :: "'r \<Rightarrow> ('w, tar_item list) io"

definition ReadURI :: "('w, 'r) registry \<Rightarrow> string \<Rightarrow> ('w, string) io" where
  "ReadURI G imageRef =
     attempt (wrap (''parsing image reference '' @ imageRef) (pure_call (reg_parse_reference G imageRef)))
       (\<lambda>ref.
     attempt (wrap (''fetching remote image '' @ imageRef) (reg_image G ref)) (\<lambda>items.
       pure_call (read_tar items)))"

definition ReadManifest :: "('w, 'r) registry \<Rightarrow> string \<Rightarrow> ('w, string) io" where
  "ReadManifest G imageRef = ReadURI G imageRef"

text \<open>\<open>Read\<close> of the reader passed to the resolver: \<open>uri\<close> is \<open>ReleaseManifestSource.URI\<close>.\<close>

definition sourceReader_Read :: "('w, 'r) registry \<Rightarrow> ('m \<Rightarrow> string) \<Rightarrow> 'm \<Rightarrow> ('w, string) io" where
  "sourceReader_Read G uri m = ReadURI G (uri m)"

definition manifest_ref :: "string \<Rightarrow> string \<Rightarrow> string" where
  "manifest_ref registry version =
     (let imageRef = registry @ '':'' @ version in
      if \<not> has_prefix imageRef ''oci://'' then ''oci://'' @ imageRef else imageRef)"

definition RetrieveManifest ::
  "(('m \<Rightarrow> ('w, string) io) \<Rightarrow> string \<Rightarrow> ('w, 'a) io) \<Rightarrow> ('w, 'r) registry \<Rightarrow> ('m \<Rightarrow> string)
     \<Rightarrow> string \<Rightarrow> string \<Rightarrow> ('w, 'a) io" where
  "RetrieveManifest resolve G uri registry version =
     resolve (sourceReader_Read G uri) (manifest_ref registry version)"

section \<open>Lemmas\<close>

text \<open>The items before the first one that ends the loop.\<close>

definition skipped :: "tar_item \<Rightarrow> bool" where
  "skipped item \<longleftrightarrow> (\<exists>name contents. item = TarFile name contents \<and> name \<noteq> manifestPath)"

lemma read_tar_dropWhile:
  "read_tar items = (case dropWhile skipped items of
     [] \<Rightarrow> Err (Errorf (''manifest file not found in image at path: '' @ manifestPath))
   | TarFile _ contents # _ \<Rightarrow> owrap ''reading manifest file contents'' contents
   | TarBroken err # _ \<Rightarrow> Err (Wrapf ''reading tar stream'' err))"
  by (induction items rule: read_tar.induct) (simp_all add: skipped_def)

lemma has_prefix_append: "has_prefix (p @ s) p"
  by (simp add: has_prefix_iff)

section \<open>Properties\<close>

text \<open>
  An image yields its first release manifest: the contents are those of the first file of that
  name, whatever comes after it, and reading succeeds only when such a file is reached before the
  stream breaks.
\<close>

theorem read_tar_Ok_iff:
  "read_tar items = Ok data \<longleftrightarrow>
     (\<exists>before after. items = before @ TarFile manifestPath (Ok data) # after \<and> list_all skipped before)"
proof (induction items)
  case Nil
  then show ?case by simp
next
  case (Cons item items)
  show ?case
  proof (cases "skipped item")
    case True
    then have "read_tar (item # items) = read_tar items" by (auto simp: skipped_def)
    moreover have "(\<exists>before after. item # items = before @ TarFile manifestPath (Ok data) # after \<and> list_all skipped before)
        \<longleftrightarrow> (\<exists>before after. items = before @ TarFile manifestPath (Ok data) # after \<and> list_all skipped before)"
    proof
      assume "\<exists>before after. item # items = before @ TarFile manifestPath (Ok data) # after \<and> list_all skipped before"
      then obtain before after where "item # items = before @ TarFile manifestPath (Ok data) # after"
        "list_all skipped before" by blast
      then show "\<exists>before after. items = before @ TarFile manifestPath (Ok data) # after \<and> list_all skipped before"
        using True by (cases before) (auto simp: skipped_def)
    next
      assume "\<exists>before after. items = before @ TarFile manifestPath (Ok data) # after \<and> list_all skipped before"
      then obtain before after where "items = before @ TarFile manifestPath (Ok data) # after"
        "list_all skipped before" by blast
      then have "item # items = (item # before) @ TarFile manifestPath (Ok data) # after
          \<and> list_all skipped (item # before)" using True by simp
      then show "\<exists>before after. item # items = before @ TarFile manifestPath (Ok data) # after
          \<and> list_all skipped before" by blast
    qed
    ultimately show ?thesis using Cons.IH by simp
  next
    case False
    then have first: "before = []" if "item # items = before @ x # after" "list_all skipped before" for before x after
      using that by (cases before) auto
    have "read_tar (item # items) = Ok data \<longleftrightarrow> item = TarFile manifestPath (Ok data)"
      using False by (cases item) (auto simp: skipped_def)
    then show ?thesis using first by fastforce
  qed
qed

text \<open>
  The reference handed to the manifest resolver always carries the OCI scheme, exactly once when
  the registry has none or has it already.
\<close>

theorem manifest_ref_scheme:
  "has_prefix (manifest_ref registry version) ''oci://''
   \<and> manifest_ref (''oci://'' @ host) version = ''oci://'' @ host @ '':'' @ version
   \<and> manifest_ref registry version \<in> {registry @ '':'' @ version, ''oci://'' @ registry @ '':'' @ version}"
proof -
  have oci: "has_prefix (''oci://'' @ s) ''oci://''" for s
    by (rule has_prefix_append)
  show ?thesis
    unfolding manifest_ref_def Let_def append_assoc
    using oci by (auto simp only: if_True if_False not_True_eq_False insert_iff split: if_split)
qed

end
