(* ===== verification/Upgrade_Pipeline.thy ===== *)
theory Upgrade_Pipeline
  imports Rke2_Core
begin

text \<open>
  The pipeline the manager is started with, after \<^verbatim>\<open>cmd/main.go\<close>: the handler of the packaged
  components, chosen by the version of the API server, and the three phase reconcilers in order. The
  contract of the pipeline is interpreted here on the reconcilers of the program.
\<close>

section \<open>Definitions\<close>

text \<open>\<open>strings.Contains\<close>.\<close>

fun contains_text :: "string \<Rightarrow> string \<Rightarrow> bool" where
  "contains_text [] p = has_prefix [] p"
| "contains_text (c # s) p = (has_prefix (c # s) p \<or> contains_text s p)"

definition packagedComponentsHandler ::
  "rke2_libs \<Rightarrow> 'w kube \<Rightarrow> 'w helm_client \<Rightarrow> string \<Rightarrow> 'w packaged_handler option" where
  "packagedComponentsHandler R K HC gitVersion =
     (if contains_text gitVersion ''rke2''
      then Some (NewRKE2PackagedComponentsHandler R K HC None) else None)"

definition upgrade_pipeline ::
  "(string \<Rightarrow> ImageTag outcome) \<Rightarrow> string \<Rightarrow> helm_libs \<Rightarrow> rke2_libs \<Rightarrow> 'w kube
     \<Rightarrow> 'w helm_client \<Rightarrow> string \<Rightarrow> 'w PhaseHandler list" where
  "upgrade_pipeline new_tag env L R K HC gitVersion =
     (let suc = SUCPlanReconciler_Reconcile K in
      [NewOSReconciler new_tag env K suc,
       NewKubernetesReconciler K suc (packagedComponentsHandler R K HC gitVersion),
       NewHelmReconciler L K HC False])"

section \<open>The contract of the pipeline\<close>

lemma contains_text_iff: "contains_text s p \<longleftrightarrow> (\<exists>u v. s = u @ p @ v)"
proof (induction s)
  case Nil
  then show ?case by (auto simp: has_prefix_iff)
next
  case (Cons c s)
  have "(\<exists>u v. c # s = u @ p @ v) \<longleftrightarrow> (\<exists>v. c # s = p @ v) \<or> (\<exists>u v. s = u @ p @ v)"
    by (metis Cons_eq_append_conv append_Cons append_Nil)
  then show ?case using Cons.IH by (simp add: has_prefix_iff)
qed

lemma Phases_upgrade_pipeline [simp]:
  "Phases (upgrade_pipeline new_tag env L R K HC git) = [PhaseOS, PhaseKubernetes, PhaseHelmCharts]"
  by (simp add: upgrade_pipeline_def Phases_def Let_def NewOSReconciler_def NewKubernetesReconciler_def
      NewHelmReconciler_def)

lemma phase_neqI: "ConditionType p \<noteq> ConditionType q \<Longrightarrow> p \<noteq> q"
  by blast

lemma phases_neq [simp]:
  "PhaseOS \<noteq> PhaseKubernetes" "PhaseOS \<noteq> PhaseHelmCharts" "PhaseKubernetes \<noteq> PhaseHelmCharts"
  "PhaseLCM \<noteq> PhaseOS" "PhaseLCM \<noteq> PhaseKubernetes" "PhaseLCM \<noteq> PhaseHelmCharts"
  by (rule phase_neqI, simp)+

lemma kubernetes_contract:
  "phase_handler (NewKubernetesReconciler K (SUCPlanReconciler_Reconcile K)
     (packagedComponentsHandler R K HC git))"
proof (cases "contains_text git ''rke2''")
  case True
  then show ?thesis
    unfolding packagedComponentsHandler_def by (simp add: k8s.kubernetes_phase_handler)
next
  case False
  then have none: "packagedComponentsHandler R K HC git = None"
    by (simp add: packagedComponentsHandler_def)
  show ?thesis
    unfolding none
    by unfold_locales
      (auto intro!: returns_ok returns_panic simp: NewKubernetesReconciler_def
        KubernetesReconciler_Reconcile_def split: option.split)
qed

interpretation main: pipeline_handlers "upgrade_pipeline new_tag env L R K HC git"
  for new_tag env L R K HC git
proof (rule pipeline_handlers.intro)
  fix h
  assume "h \<in> set (upgrade_pipeline new_tag env L R K HC git)"
  then show "phase_handler h"
    using os.phase_handler_axioms kubernetes_contract charts.phase_handler_axioms
    by (auto simp: upgrade_pipeline_def Let_def)
next
  show "distinct (map ph_phase (upgrade_pipeline new_tag env L R K HC git))"
    unfolding Phases_upgrade_pipeline [unfolded Phases_def] by simp
qed

section \<open>Properties\<close>

text \<open>
  C34. Only final phase states reach the status of the Release: whatever the API server, the Helm
  storage and the other controllers do, the manager's pipeline records nothing but InProgress,
  Skipped, Succeeded and Failed, never one of the reports between reconcilers.
\<close>

theorem upgrade_pipeline_reports:
  "fmpred (\<lambda>_ s. ps_state s \<in> reported_states)
     (fst (fst (run_state (Pipeline_Reconcile (upgrade_pipeline new_tag env L R K HC git) config) w)))"
  using main.reports_only by (metis prod.collapse)

text \<open>
  When a run of the manager's pipeline ends without an error and the controller finds all its
  recorded phases complete, none was left out: the OS, Kubernetes and chart phases have all succeeded
  or been skipped.
\<close>

theorem upgrade_pipeline_complete:
  assumes "run_state (Pipeline_Reconcile (upgrade_pipeline new_tag env L R K HC git) (Some cfg)) w
             = ((states, Ok ()), w')"
    and "AllComplete states"
  shows "phase_complete states PhaseOS \<and> phase_complete states PhaseKubernetes
     \<and> phase_complete states PhaseHelmCharts"
  using main.all_recorded [OF assms] by simp

theorem upgrade_pipeline_complete_witness:
  "phase_complete (fst (fst (run_state (Pipeline_Reconcile
       (upgrade_pipeline witness_tag [] witness_libs witness_rke2_libs witness_rke2_kube
          \<lparr>RetrieveRelease = (\<lambda>_. raise ReleaseNotFound)\<rparr> ''v1.33.1+rke2r1'')
       (Some (witness_config\<lparr>cfg_os := None\<rparr>))) ()))) PhaseKubernetes"
proof -
  let ?run = "run_state (Pipeline_Reconcile
       (upgrade_pipeline witness_tag [] witness_libs witness_rke2_libs witness_rke2_kube
          \<lparr>RetrieveRelease = (\<lambda>_. raise ReleaseNotFound)\<rparr> ''v1.33.1+rke2r1'')
       (Some (witness_config\<lparr>cfg_os := None\<rparr>))) ()"
  have "(case ?run of ((states, res), w) \<Rightarrow> AllComplete states \<and> (case res of Ok _ \<Rightarrow> True | _ \<Rightarrow> False))"
    by code_simp
  then have "?run = ((fst (fst ?run), Ok ()), ())" "AllComplete (fst (fst ?run))"
    by (auto simp: prod_eq_iff split: prod.splits outcome.splits)
  from upgrade_pipeline_complete [OF this] show ?thesis by blast
qed

text \<open>
  On a cluster whose version does not name RKE2 the manager does not refuse the upgrade: the
  Kubernetes phase calls a nil handler and panics before it has made any call.
\<close>

theorem other_distribution_panics:
  assumes "\<nexists>u v. git = u @ ''rke2'' @ v" and "cfg_kubernetes cfg = Some kc"
  shows "\<exists>p. run_state (ph_reconcile (upgrade_pipeline new_tag env L R K HC git ! 1) (Some cfg)) w = (Panic p, w)"
proof -
  have "\<not> contains_text git ''rke2''" using assms(1) unfolding contains_text_iff .
  then show ?thesis
    using assms(2)
    by (simp add: upgrade_pipeline_def Let_def packagedComponentsHandler_def NewKubernetesReconciler_def
        KubernetesReconciler_Reconcile_def)
qed

theorem other_distribution_panics_witness:
  "\<exists>p. run_state (ph_reconcile (upgrade_pipeline witness_tag [] witness_libs witness_rke2_libs witness_kube
      \<lparr>RetrieveRelease = (\<lambda>_. raise ReleaseNotFound)\<rparr> ''v1.33.1+k3s1'' ! 1) (Some witness_config)) () = (Panic p, ())"
proof (rule other_distribution_panics)
  have "\<not> contains_text ''v1.33.1+k3s1'' ''rke2''" by code_simp
  then show "\<nexists>u v. ''v1.33.1+k3s1'' = u @ ''rke2'' @ v" unfolding contains_text_iff .
  show "cfg_kubernetes witness_config = Some witness_k8s" by (simp add: witness_config_def)
qed

end
