(* ===== verification/Release_Webhook.thy ===== *)
theory Release_Webhook
  imports Conditions Kube_Client Helm_Reconciler
begin

text \<open>
  The validating webhook of the Release resource, after
  \<^verbatim>\<open>internal/webhook/v1alpha1/release_webhook.go\<close>. The generic version type of
  \<^verbatim>\<open>k8s.io/apimachinery/pkg/util/version\<close> is a parameter. No validator returns warnings.
\<close>

section \<open>Definitions\<close>

record 'v version_lib =
  version_Parse :: "string \<Rightarrow> 'v outcome"
  version_Compare :: "'v \<Rightarrow> string \<Rightarrow> int outcome"

definition validateReleaseVersion :: "'v version_lib \<Rightarrow> string \<Rightarrow> 'v outcome" where
  "validateReleaseVersion V releaseVersion =
     (if releaseVersion = [] then Err (Errorf ''release version is required'')
      else case version_Parse V releaseVersion of
             Ok v \<Rightarrow> Ok v
           | Err err \<Rightarrow> Err (Errorf (go_quote releaseVersion @ '' is not a semantic version''))
           | Panic p \<Rightarrow> Panic p)"

definition validateNoUpgradeInProgress :: "cond_lib \<Rightarrow> Release \<Rightarrow> unit outcome" where
  "validateNoUpgradeInProgress CL release =
     (case find_release_condition CL release ConditionApplied of
        None \<Rightarrow> Ok ()
      | Some appliedCond \<Rightarrow>
          if cond_status appliedCond = ConditionTrue then Ok ()
          else if cond_reason appliedCond = UpgradeFailed then Ok ()
          else Err (Errorf (''cannot edit while upgrade is in '' @ go_quote (cond_reason appliedCond) @ '' state'')))"

fun check_keys :: "string \<Rightarrow> string \<Rightarrow> Secret \<Rightarrow> string list \<Rightarrow> unit outcome" where
  "check_keys chart secretName existing [] = Ok ()"
| "check_keys chart secretName existing (key # keys) =
     (if fmlookup (secret_data existing) key = None
      then Err (Errorf (''chart '' @ go_quote chart @ '' references a '' @ go_quote key
                  @ '' key that is missing from the '' @ go_quote secretName @ '' secret''))
      else check_keys chart secretName existing keys)"

definition secret_key :: "SecretValueSource \<Rightarrow> NamespacedName" where
  "secret_key ref = \<lparr>nn_namespace = HelmChartNamespace, nn_name = svs_name ref\<rparr>"

fun validateHelmValuesSecret :: "'w kube \<Rightarrow> ChartConfig list \<Rightarrow> ('w, unit) io" where
  "validateHelmValuesSecret K [] = ok ()"
| "validateHelmValuesSecret K (chart # charts) =
     (case cc_secret_ref chart of
        None \<Rightarrow> validateHelmValuesSecret K charts
      | Some ref \<Rightarrow>
          handle (get_secret K (secret_key ref))
            (\<lambda>err. if is_not_found err
               then raise (Errorf (''chart '' @ go_quote (cc_chart chart) @ '' references a ''
                      @ go_quote (svs_name ref) @ '' secret that is missing from the ''
                      @ go_quote HelmChartNamespace @ '' namespace''))
               else raise (Wrapf (''retrieving secret '' @ go_quote (svs_name ref)) err))
            (\<lambda>existing.
               attempt (pure_call (check_keys (cc_chart chart) (svs_name ref) existing (svs_keys ref)))
                 (\<lambda>_. validateHelmValuesSecret K charts)))"

definition validate_components :: "'w kube \<Rightarrow> Release \<Rightarrow> ('w, unit) io" where
  "validate_components K release =
     (case spec_component_config (rel_spec release) of
        None \<Rightarrow> ok ()
      | Some helm \<Rightarrow> validateHelmValuesSecret K helm)"

definition ValidateCreate :: "'v version_lib \<Rightarrow> 'w kube \<Rightarrow> Release \<Rightarrow> ('w, unit) io" where
  "ValidateCreate V K release =
     (if spec_registry (rel_spec release) = [] then raise (Errorf ''release registry is required'')
      else attempt (wrap ''validating release version''
             (pure_call (validateReleaseVersion V (spec_version (rel_spec release))))) (\<lambda>_.
           attempt (wrap ''listing existing releases'' (list_releases K)) (\<lambda>items.
           case items of
             first # _ \<Rightarrow> raise (Errorf (''cannot create release '' @ rel_name release
                 @ ''. The cluster has an already created Release object: ''
                 @ rel_namespace first @ ''/'' @ rel_name first))
           | [] \<Rightarrow> validate_components K release)))"

definition compare_with_applied :: "'v version_lib \<Rightarrow> 'v \<Rightarrow> Release \<Rightarrow> Release \<Rightarrow> unit outcome" where
  "compare_with_applied V newVersion oldRelease newRelease =
     (let applied = status_version (rel_status oldRelease) in
      if applied = [] then Ok ()
      else obind (owrap ''comparing versions'' (version_Compare V newVersion applied)) (\<lambda>indicator.
        if indicator = 0 then
          Err (Errorf (''any edits over '' @ go_quote (rel_name newRelease)
                 @ '' must come with an increment of the version''))
        else if indicator = -1 then
          Err (Errorf (''new version must be greater than the currently applied one (''
                 @ go_quote applied @ '')''))
        else Ok ()))"

definition ValidateUpdate ::
  "'v version_lib \<Rightarrow> cond_lib \<Rightarrow> 'w kube \<Rightarrow> Release \<Rightarrow> Release \<Rightarrow> ('w, unit) io" where
  "ValidateUpdate V CL K oldRelease newRelease =
     attempt (pure_call (validateReleaseVersion V (spec_version (rel_spec newRelease)))) (\<lambda>newVersion.
       if spec_registry (rel_spec newRelease) = [] then raise (Errorf ''release registry is required'')
       else attempt (pure_call (validateNoUpgradeInProgress CL oldRelease)) (\<lambda>_.
            attempt (pure_call (compare_with_applied V newVersion oldRelease newRelease)) (\<lambda>_.
            validate_components K newRelease)))"

definition ValidateDelete :: "Release \<Rightarrow> ('w, unit) io" where
  "ValidateDelete release = raise (Errorf ''deleting release objects is not allowed'')"

section \<open>Lemmas\<close>

lemma validateReleaseVersion_Ok:
  "validateReleaseVersion V s = Ok v \<longleftrightarrow> s \<noteq> [] \<and> version_Parse V s = Ok v"
  by (auto simp: validateReleaseVersion_def split: outcome.splits)

lemma check_keys_Ok: "check_keys c n s keys = Ok () \<longleftrightarrow> set keys \<subseteq> fset (fmdom (secret_data s))"
  by (induction keys) (auto simp: fmlookup_dom_iff)

text \<open>An edit is allowed on a Release that has not started, is applied or has failed.\<close>

definition editable :: "cond_lib \<Rightarrow> Release \<Rightarrow> bool" where
  "editable CL release \<longleftrightarrow>
     (case view CL release ConditionApplied of
        None \<Rightarrow> True
      | Some (status, reason, _) \<Rightarrow> status = ConditionTrue \<or> reason = UpgradeFailed)"

lemma validateNoUpgradeInProgress_Ok: "validateNoUpgradeInProgress CL release = Ok () \<longleftrightarrow> editable CL release"
  by (auto simp: validateNoUpgradeInProgress_def editable_def view_def view_of_def split: option.split)

definition newer_than_applied :: "'v version_lib \<Rightarrow> 'v \<Rightarrow> Release \<Rightarrow> bool" where
  "newer_than_applied V v release \<longleftrightarrow>
     status_version (rel_status release) = []
     \<or> (\<exists>i. version_Compare V v (status_version (rel_status release)) = Ok i \<and> i \<notin> {0, -1})"

lemma compare_with_applied_Ok: "compare_with_applied V v old new = Ok () \<longleftrightarrow> newer_than_applied V v old"
  by (auto simp: compare_with_applied_def newer_than_applied_def Let_def obind_eq_Ok_iff)

lemma run_pure_attempt: "run_state (attempt (pure_call r) f) w =
    (case r of Ok a \<Rightarrow> run_state (f a) w | Err e \<Rightarrow> (Err e, w) | Panic p \<Rightarrow> (Panic p, w))"
  by (simp add: run_attempt)

text \<open>The secrets a chart configuration refers to were there, with all their keys.\<close>

definition secret_present :: "'w kube \<Rightarrow> SecretValueSource \<Rightarrow> bool" where
  "secret_present K ref \<longleftrightarrow>
     (\<exists>w1 s w2. run_state (get_secret K (secret_key ref)) w1 = (Ok s, w2)
        \<and> set (svs_keys ref) \<subseteq> fset (fmdom (secret_data s)))"

lemma validateHelmValuesSecret_Ok:
  assumes "run_state (validateHelmValuesSecret K charts) w = (Ok (), w')"
  shows "\<forall>c \<in> set charts. \<forall>ref. cc_secret_ref c = Some ref \<longrightarrow> secret_present K ref"
  using assms
proof (induction charts arbitrary: w)
  case Nil
  then show ?case by simp
next
  case (Cons c cs)
  show ?case
  proof (cases "cc_secret_ref c")
    case None
    then show ?thesis using Cons by auto
  next
    case (Some ref)
    obtain r w1 where r: "run_state (get_secret K (secret_key ref)) w = (r, w1)" by fastforce
    with Cons.prems Some obtain s where s: "r = Ok s"
      by (cases r) (auto simp: run_handle split: if_splits)
    with Cons.prems Some r have keys: "check_keys (cc_chart c) (svs_name ref) s (svs_keys ref) = Ok ()"
      and rest: "run_state (validateHelmValuesSecret K cs) w1 = (Ok (), w')"
      by (auto simp: run_handle run_pure_attempt split: outcome.splits)
    have "secret_present K ref"
      using r s keys unfolding secret_present_def check_keys_Ok by blast
    then show ?thesis using Cons.IH [OF rest] Some by simp
  qed
qed

lemma validate_components_Ok:
  assumes "run_state (validate_components K release) w = (Ok (), w')"
    and "spec_component_config (rel_spec release) = Some charts" and "c \<in> set charts"
    and "cc_secret_ref c = Some ref"
  shows "secret_present K ref"
  using validateHelmValuesSecret_Ok [of K charts w w'] assms by (simp add: validate_components_def)

section \<open>Properties\<close>


definition witness_versions :: "string version_lib" where
  "witness_versions =
     \<lparr>version_Parse = (\<lambda>s. Ok s), version_Compare = (\<lambda>v s. Ok (if v = s then 0 else 1))\<rparr>"

definition witness_secret_kube :: "unit kube" where
  "witness_secret_kube =
     witness_kube\<lparr>get_secret := \<lambda>_. ok \<lparr>secret_data = fmupd ''values.yaml'' ''a: 1'' fmempty\<rparr>\<rparr>"

definition witness_chart_config :: ChartConfig where
  "witness_chart_config =
     \<lparr>cc_chart = ''metallb'', cc_values = None,
      cc_secret_ref = Some \<lparr>svs_name = ''secret'', svs_keys = [''values.yaml'']\<rparr>\<rparr>"



text \<open>
  The verdict on an update does not look at the version it replaces: two Releases that differ only
  in \<open>spec.version\<close> can be updated to the same new Release, so after a failed upgrade the target
  version can be lowered as long as it stays above the applied one.
\<close>

theorem ValidateUpdate_ignores_old_target:
  "ValidateUpdate V CL K (old\<lparr>rel_spec := (rel_spec old)\<lparr>spec_version := u\<rparr>\<rparr>) new = ValidateUpdate V CL K old new"
proof -
  let ?old = "old\<lparr>rel_spec := (rel_spec old)\<lparr>spec_version := u\<rparr>\<rparr>"
  have "validateNoUpgradeInProgress CL ?old = validateNoUpgradeInProgress CL old"
    by (simp add: validateNoUpgradeInProgress_def find_release_condition_def release_conditions_def
        cong: option.case_cong)
  moreover have "compare_with_applied V v ?old new = compare_with_applied V v old new" for v
    by (simp add: compare_with_applied_def)
  ultimately show ?thesis by (simp only: ValidateUpdate_def)
qed

end
