(* ===== verification/Controller_State.thy ===== *)
theory Controller_State
  imports Conditions Manifest_Cache Upgrade_Pipeline
begin

text \<open>
  What the release controller holds while it reconciles: the raw manifests it keeps in memory between
  reconciliations (the map \<open>RawManifests\<close>), the Release object that its functions change through a
  pointer, and the world behind its clients; with the calls that reach each part, and what a call
  keeps of them.
\<close>

section \<open>The state\<close>

record 'w ctl =
  ct_raw :: "(string, string) fmap"
  ct_release :: Release
  ct_world :: 'w

text \<open>A client call inside the controller.\<close>

definition on_world :: "('w, 'a) io \<Rightarrow> ('w ctl, 'a) io" where
  "on_world m = State (\<lambda>s. case run_state m (ct_world s) of (r, w) \<Rightarrow> (r, s\<lparr>ct_world := w\<rparr>))"

definition change_release :: "(Release \<Rightarrow> Release) \<Rightarrow> ('w ctl, unit) io" where
  "change_release f = State (\<lambda>s. (Ok (), s\<lparr>ct_release := f (ct_release s)\<rparr>))"

definition with_release :: "(Release \<Rightarrow> ('w ctl, 'a) io) \<Rightarrow> ('w ctl, 'a) io" where
  "with_release f = State (\<lambda>s. run_state (f (ct_release s)) s)"

definition raw_lookup :: "string \<Rightarrow> ('w ctl, string option) io" where
  "raw_lookup key = State (\<lambda>s. (Ok (fmlookup (ct_raw s) key), s))"

definition raw_store :: "string \<Rightarrow> string \<Rightarrow> ('w ctl, unit) io" where
  "raw_store key value = State (\<lambda>s. (Ok (), s\<lparr>ct_raw := fmupd key value (ct_raw s)\<rparr>))"

text \<open>\<open>defer f(release)\<close> around the rest of a function: it runs on every way out.\<close>

definition deferred :: "(Release \<Rightarrow> Release) \<Rightarrow> ('w ctl, 'a) io \<Rightarrow> ('w ctl, 'a) io" where
  "deferred f m = State (\<lambda>s. case run_state m s of (r, s') \<Rightarrow> (r, s'\<lparr>ct_release := f (ct_release s')\<rparr>))"

lemma run_ctl [run_simps]:
  "run_state (on_world m) s = (case run_state m (ct_world s) of (r, w) \<Rightarrow> (r, s\<lparr>ct_world := w\<rparr>))"
  "run_state (change_release f) s = (Ok (), s\<lparr>ct_release := f (ct_release s)\<rparr>)"
  "run_state (with_release g) s = run_state (g (ct_release s)) s"
  "run_state (raw_lookup key) s = (Ok (fmlookup (ct_raw s) key), s)"
  "run_state (raw_store key value) s = (Ok (), s\<lparr>ct_raw := fmupd key value (ct_raw s)\<rparr>)"
  "run_state (deferred f n) s = (case run_state n s of (r, s') \<Rightarrow> (r, s'\<lparr>ct_release := f (ct_release s')\<rparr>))"
  by (simp_all add: on_world_def change_release_def with_release_def raw_lookup_def raw_store_def deferred_def)

section \<open>Relating the state before and after\<close>

text \<open>
  \<open>links m Q\<close>: whatever the state \<open>s\<close>, a run of \<open>m\<close> from \<open>s\<close> that ends in \<open>s'\<close> with the result
  \<open>r\<close> satisfies \<open>Q s r s'\<close>. The rules below follow the structure of a call, as the rules of a
  weakest precondition calculus do.
\<close>

definition links :: "('w ctl, 'a) io \<Rightarrow> ('w ctl \<Rightarrow> 'a outcome \<Rightarrow> 'w ctl \<Rightarrow> bool) \<Rightarrow> bool" where
  "links m Q \<longleftrightarrow> (\<forall>s. case run_state m s of (r, s') \<Rightarrow> Q s r s')"

definition keeps :: "('w ctl, 'a) io \<Rightarrow> ('w ctl \<Rightarrow> 'b) \<Rightarrow> bool" where
  "keeps m f \<longleftrightarrow> links m (\<lambda>s r s'. f s' = f s)"

named_theorems keeps_intros \<open>calls that leave a part of the controller state as it is\<close>

lemma keepsD: "keeps m f \<Longrightarrow> run_state m s = (r, s') \<Longrightarrow> f s' = f s"
  unfolding keeps_def links_def by (drule spec [of _ s]) simp

lemma keepsI: "(\<And>s r s'. run_state m s = (r, s') \<Longrightarrow> f s' = f s) \<Longrightarrow> keeps m f"
  unfolding keeps_def links_def by (auto split: prod.splits)

lemma keeps_simple [keeps_intros]:
  "keeps (ok a) f" "keeps (raise e) f" "keeps (panic p) f" "keeps (pure_call r) f"
  "keeps (raw_lookup key) f"
  by (auto intro!: keepsI simp: run_ctl)

lemma keeps_handle [keeps_intros]:
  "keeps m f \<Longrightarrow> (\<And>e. keeps (h e) f) \<Longrightarrow> (\<And>a. keeps (g a) f) \<Longrightarrow> keeps (handle m h g) f"
proof (rule keepsI, goal_cases)
  case (1 s r s')
  obtain q s1 where q: "run_state m s = (q, s1)" by fastforce
  have "f s1 = f s" by (rule keepsD [OF 1(1) q])
  moreover have "f s' = f s1"
    using 1(4) q keepsD [OF 1(2)] keepsD [OF 1(3)] by (cases q) (auto simp: run_handle)
  ultimately show ?case by simp
qed

lemma keeps_attempt [keeps_intros]: "keeps m f \<Longrightarrow> (\<And>a. keeps (g a) f) \<Longrightarrow> keeps (attempt m g) f"
  unfolding attempt_def by (intro keeps_intros)

lemma keeps_wrap [keeps_intros]: "keeps m f \<Longrightarrow> keeps (wrap p m) f"
  unfolding wrap_def by (intro keeps_intros)

lemma keeps_with_release [keeps_intros]: "(\<And>rel. keeps (g rel) f) \<Longrightarrow> keeps (with_release g) f"
  by (rule keepsI) (auto simp: run_ctl dest: keepsD)

lemma keeps_deferred: "keeps m f \<Longrightarrow> (\<And>s x. f (s\<lparr>ct_release := x\<rparr>) = f s) \<Longrightarrow> keeps (deferred h m) f"
  by (rule keepsI) (auto simp: run_ctl dest: keepsD split: prod.splits)

lemma keeps_parts [keeps_intros]:
  "keeps (on_world m) ct_release" "keeps (on_world m) ct_raw"
  "keeps (change_release g) ct_raw" "keeps (change_release g) ct_world"
  "keeps (raw_store k v) ct_release" "keeps (raw_store k v) ct_world"
  by (auto intro!: keepsI simp: run_ctl split: prod.splits)

end
