(* ===== verification/Release_Controller.thy ===== *)
theory Release_Controller
  imports Controller_State Manifest_Source
begin

text \<open>
  The reconciler of the Release resource, after \<^verbatim>\<open>internal/controller/release_controller.go\<close>: the
  self-upgrade of the manager's own charts, the manifest, the configuration, the cleanup of old
  plans, the pipeline and the status.
\<close>

section \<open>What the controller is made of\<close>

text \<open>The part of a core manifest that \<open>lcmUpgradeConfig\<close> reads with its own types.\<close>

record lcm_chart =
  lc_chart :: string
  lc_repository :: string
  lc_version :: string
  lc_values :: "gmap option"

record lcm_core =
  lc_charts :: "lcm_chart list"
  lc_repositories :: "(string \<times> string) list"

text \<open>
  The fields of \<open>ReleaseReconciler\<close> and the library functions it calls: \<open>rc_read_manifest\<close> is
  \<open>ReadManifest\<close> of the package \<open>release\<close>, \<open>rc_parse_core\<close> and \<open>rc_parse_solution\<close> are
  \<open>yaml.Unmarshal\<close> into the two anonymous structs (the second gives \<open>CorePlatform.Image\<close>),
  \<open>rc_range\<close> the order in which Go walks the map of phase states, \<open>rc_status_equal\<close> is
  \<open>equality.Semantic.DeepEqual\<close> on two statuses, and \<open>rc_retries\<close> how often
  \<open>retry.RetryOnConflict\<close> tries again after its first attempt.
\<close>

record 'w ReleaseReconciler =
  rc_client :: "'w kube"
  rc_helm_client :: "'w helm_client"
  rc_pipeline :: "'w PhaseHandler list"
  rc_retrieve_manifest :: "string \<Rightarrow> string \<Rightarrow> ('w, ResolvedManifest) io"
  rc_read_manifest :: "string \<Rightarrow> ('w, string) io"
  rc_parse_core :: "string \<Rightarrow> lcm_core outcome"
  rc_parse_solution :: "string \<Rightarrow> string outcome"
  rc_conditions :: cond_lib
  rc_helm_libs :: helm_libs
  rc_manifest_codec :: manifest_codec
  rc_new_tag :: "string \<Rightarrow> ImageTag outcome"
  rc_range :: "phase fset \<Rightarrow> phase list"
  rc_status_equal :: "ReleaseStatus \<Rightarrow> ReleaseStatus \<Rightarrow> bool"
  rc_retries :: nat

text \<open>\<open>ctrl.Result\<close>: after how many seconds to requeue, 0 for not at all.\<close>

record ctrl_result =
  requeue_after :: nat

definition requeueInterval :: nat where
  "requeueInterval = 30"

definition elementalLifecycleManager :: string where
  "elementalLifecycleManager = ''elemental-lifecycle-manager''"

definition elementalLifecycleManagerCRDs :: string where
  "elementalLifecycleManagerCRDs = ''elemental-lifecycle-manager-crds''"

definition release_nn :: "Release \<Rightarrow> NamespacedName" where
  "release_nn release = \<lparr>nn_namespace = rel_namespace release, nn_name = rel_name release\<rparr>"

section \<open>The self-upgrade of the manager\<close>

text \<open>One turn of the loop over the component configurations. A nil map is the empty map.\<close>

definition runtime_config_of :: "ChartConfig \<Rightarrow> RuntimeHelmChartConfig" where
  "runtime_config_of c =
     \<lparr>rc_values = cc_values c,
      rc_secret_ref = map_option (\<lambda>ref. \<lparr>rsvs_name = svs_name ref, rsvs_keys = svs_keys ref\<rparr>) (cc_secret_ref c)\<rparr>"

definition runtimeHelmChartConfigs ::
  "Release \<Rightarrow> string list \<Rightarrow> (string, RuntimeHelmChartConfig) fmap" where
  "runtimeHelmChartConfigs release charts =
     (case spec_component_config (rel_spec release) of
        None \<Rightarrow> fmempty
      | Some helm \<Rightarrow>
          foldl (\<lambda>configs c.
            if length charts > 0 \<and> cc_chart c \<notin> set charts then configs
            else fmupd (cc_chart c) (runtime_config_of c) configs) fmempty helm)"

definition getOrRetrieveUpgradeManifest :: "'w ReleaseReconciler \<Rightarrow> Release \<Rightarrow> ('w ctl, string) io" where
  "getOrRetrieveUpgradeManifest r release =
     (let imageRef = spec_registry (rel_spec release) @ '':'' @ spec_version (rel_spec release) in
      attempt (raw_lookup imageRef) (\<lambda>cached. case cached of
        Some data \<Rightarrow> ok data
      | None \<Rightarrow>
          attempt (on_world (rc_read_manifest r imageRef)) (\<lambda>manifestData.
          attempt (pure_call (rc_parse_solution r manifestData)) (\<lambda>image.
          attempt (if image \<noteq> [] then on_world (rc_read_manifest r image) else ok manifestData)
           (\<lambda>manifestData.
          attempt (raw_store imageRef manifestData) (\<lambda>_. ok manifestData))))))"

definition lcm_helm :: "lcm_core \<Rightarrow> Helm" where
  "lcm_helm core =
     \<lparr>helm_charts = map (\<lambda>c. \<lparr>hc_name = [], hc_chart = lc_chart c, hc_version = lc_version c,
          hc_repository = lc_repository c, hc_namespace = [], hc_values = lc_values c, hc_depends_on = []\<rparr>)
        (filter (\<lambda>c. lc_chart c = elementalLifecycleManager \<or> lc_chart c = elementalLifecycleManagerCRDs)
          (lc_charts core)),
      helm_repositories = map (\<lambda>(n, u). \<lparr>repo_name = n, repo_url = u\<rparr>) (lc_repositories core)\<rparr>"

definition lcmUpgradeConfig :: "'w ReleaseReconciler \<Rightarrow> Release \<Rightarrow> ('w ctl, Config) io" where
  "lcmUpgradeConfig r release =
     attempt (getOrRetrieveUpgradeManifest r release) (\<lambda>data.
     attempt (pure_call (rc_parse_core r data)) (\<lambda>core.
     attempt (pure_call (BuildHelmChartConfig (Some (lcm_helm core)) None
                (runtimeHelmChartConfigs release [elementalLifecycleManager]))) (\<lambda>charts.
     ok \<lparr>cfg_release = release_nn release, cfg_release_version = spec_version (rel_spec release),
         cfg_os = None, cfg_kubernetes = None, cfg_helm_charts = charts\<rparr>)))"

definition reconcileLCM :: "'w ReleaseReconciler \<Rightarrow> Config \<Rightarrow> ('w, PhaseStatus) io" where
  "reconcileLCM r config =
     handle (ph_reconcile (NewHelmReconciler (rc_helm_libs r) (rc_client r) (rc_helm_client r) True) (Some config))
       (\<lambda>err. raise (PhaseError PhaseLCM err)) ok"

section \<open>The configuration of the pipeline\<close>

definition getOrRetrieveManifest :: "'w ReleaseReconciler \<Rightarrow> Release \<Rightarrow> ('w, ResolvedManifest) io" where
  "getOrRetrieveManifest r release =
     (let version = spec_version (rel_spec release);
          fetch = attempt (rc_retrieve_manifest r (spec_registry (rel_spec release)) version) (\<lambda>manifest.
            handle (ManifestCache_Set (rc_manifest_codec r) (rc_client r) (rel_namespace release) version manifest)
              (\<lambda>err. ok manifest) (\<lambda>_. ok manifest))
      in handle (ManifestCache_Get (rc_manifest_codec r) (rc_client r) (rel_namespace release) version)
           (\<lambda>err. fetch)
           (\<lambda>manifest. case manifest of Some m \<Rightarrow> ok m | None \<Rightarrow> fetch))"

definition drain_for :: "nat \<Rightarrow> nat \<Rightarrow> DrainOpts" where
  "drain_for controlPlane worker =
     (if controlPlane > 1 \<and> worker \<le> 1 then \<lparr>drain_control_plane = True, drain_worker = False\<rparr>
      else if controlPlane = 1 \<and> worker > 1 then \<lparr>drain_control_plane = False, drain_worker = True\<rparr>
      else if controlPlane \<le> 1 \<and> worker \<le> 1 then \<lparr>drain_control_plane = False, drain_worker = False\<rparr>
      else \<lparr>drain_control_plane = True, drain_worker = True\<rparr>)"

definition parseDrainOpts :: "'w kube \<Rightarrow> Release \<Rightarrow> ('w, DrainOpts) io" where
  "parseDrainOpts K release =
     (if spec_disable_drain (rel_spec release)
      then ok \<lparr>drain_control_plane = False, drain_worker = False\<rparr>
      else attempt (wrap ''listing nodes'' (list_nodes K AllNodes)) (\<lambda>nodes.
        let (controlPlane, worker) =
          foldl (\<lambda>(c, w) node. if node_labels node ControlPlaneLabel \<noteq> None then (Suc c, w) else (c, Suc w))
            (0, 0) nodes
        in ok (drain_for controlPlane worker)))"

definition parseUpgradeConfig ::
  "'w ReleaseReconciler \<Rightarrow> ResolvedManifest \<Rightarrow> Release \<Rightarrow> ('w, Config) io" where
  "parseUpgradeConfig r manifest release =
     attempt (wrap ''parsing drain options'' (parseDrainOpts (rc_client r) release)) (\<lambda>opts.
     attempt (pure_call (NewConfig (rc_new_tag r) (Some manifest) (spec_version (rel_spec release))
                (release_nn release)
                (Some \<lparr>rtc_drain_opts = Some opts, rtc_helm_charts = runtimeHelmChartConfigs release []\<rparr>)))
      (\<lambda>config.
     ok (config\<lparr>cfg_helm_charts :=
           filter (\<lambda>c. hc_chart (hcc_chart c) \<notin> {elementalLifecycleManager, elementalLifecycleManagerCRDs})
             (cfg_helm_charts config)\<rparr>)))"

section \<open>Cleaning up old plans\<close>

text \<open>The loop over the plans: the errors of the deletions that failed, in order.\<close>

fun delete_plans :: "'w kube \<Rightarrow> Plan list \<Rightarrow> ('w, gerr list) io" where
  "delete_plans K [] = ok []"
| "delete_plans K (p # ps) =
     handle (delete_plan K p)
       (\<lambda>err. attempt (delete_plans K ps) (\<lambda>errs. ok (Wrapf (''deleting plan '' @ plan_name p) err # errs)))
       (\<lambda>_. delete_plans K ps)"

definition cleanupOldVersionPlans :: "'w kube \<Rightarrow> string \<Rightarrow> string \<Rightarrow> ('w, unit) io" where
  "cleanupOldVersionPlans K releaseName oldVersion =
     attempt (wrap ''listing old plans''
               (list_plans K PlanNamespace (release_labels releaseName oldVersion))) (\<lambda>plans.
     attempt (delete_plans K plans) (\<lambda>errs.
     if errs \<noteq> [] then raise (Joined errs) else ok ()))"

section \<open>reconcileNormal\<close>

text \<open>The entries of the phase states in the order Go walks the map.\<close>

definition phase_entries :: "'w ReleaseReconciler \<Rightarrow> phase_states \<Rightarrow> (phase \<times> PhaseStatus) list" where
  "phase_entries r states =
     List.map_filter (\<lambda>p. map_option (Pair p) (fmlookup states p)) (rc_range r (fmdom states))"

text \<open>The pipeline as a call: with an error the result is not used.\<close>

definition run_pipeline :: "'w ReleaseReconciler \<Rightarrow> Config \<Rightarrow> ('w, phase_states) io" where
  "run_pipeline r config =
     State_Monad.bind (Pipeline_Reconcile (rc_pipeline r) (Some config)) (\<lambda>(states, res).
       pure_call (obind res (\<lambda>_. Ok states)))"

text \<open>The two places that handle the error of a configuration: a mistake of the user is shown in the
  Applied condition and ends the reconciliation without an error.\<close>

definition config_error :: "'w ReleaseReconciler \<Rightarrow> string \<Rightarrow> gerr \<Rightarrow> ('w ctl, ctrl_result) io" where
  "config_error r prefix err =
     (case as_runtime_config_error err of
        Some m \<Rightarrow>
          attempt (change_release (setCondition (rc_conditions r) ConditionApplied ConditionFalse UpgradeFailed m))
            (\<lambda>_. ok \<lparr>requeue_after = 0\<rparr>)
      | None \<Rightarrow> raise (Wrapf prefix err))"

text \<open>The gate: the manager upgrades itself first. \<open>Some\<close> result ends the reconciliation.\<close>

definition lcm_phase :: "'w ReleaseReconciler \<Rightarrow> ('w ctl, ctrl_result option) io" where
  "lcm_phase r =
     (let CL = rc_conditions r; finished = (\<lambda>m. attempt m (\<lambda>result. ok (Some result))) in
      with_release (\<lambda>release.
        if IsStatusConditionTrue CL (release_conditions release) (ConditionType PhaseLCM) then ok None
        else
          handle (lcmUpgradeConfig r release)
            (\<lambda>err. finished (config_error r ''parsing upgrade config for LCM upgrade'' err))
            (\<lambda>config.
          handle (on_world (reconcileLCM r config))
            (\<lambda>err. attempt (change_release (setPhaseConditionFromError CL err))
                     (\<lambda>_. ok (Some \<lparr>requeue_after = 0\<rparr>)))
            (\<lambda>status.
          attempt (change_release (\<lambda>rel. updatePhaseCondition CL rel (PhaseLCM, status))) (\<lambda>_.
          if ps_state status \<noteq> UpgradeSucceeded then ok (Some \<lparr>requeue_after = requeueInterval\<rparr>)
          else ok None)))))"

definition resolve_manifest :: "'w ReleaseReconciler \<Rightarrow> ('w ctl, ResolvedManifest) io" where
  "resolve_manifest r =
     (let CL = rc_conditions r in
      with_release (\<lambda>release.
        handle (on_world (getOrRetrieveManifest r release))
          (\<lambda>err. attempt (change_release (setCondition CL ConditionManifestResolved ConditionFalse UpgradeFailed
                             (''Failed to retrieve release manifest: '' @ err_msg err)))
                   (\<lambda>_. raise (Wrapf ''retrieving release manifest'' err)))
          (\<lambda>manifest.
            attempt (change_release (setCondition CL ConditionManifestResolved ConditionTrue UpgradeSucceeded
                             ''Release manifest retrieved successfully''))
              (\<lambda>_. ok manifest))))"

definition cleanup_phase :: "'w ReleaseReconciler \<Rightarrow> Config \<Rightarrow> ('w ctl, unit) io" where
  "cleanup_phase r config =
     with_release (\<lambda>release.
       let old = status_version (rel_status release) in
       if old \<noteq> [] \<and> old \<noteq> cfg_release_version config
       then wrap (''cleaning up plans for version '' @ old)
              (on_world (cleanupOldVersionPlans (rc_client r) (rel_name release) old))
       else ok ())"

definition set_status_version :: "string \<Rightarrow> Release \<Rightarrow> Release" where
  "set_status_version v release = release\<lparr>rel_status := (rel_status release)\<lparr>status_version := v\<rparr>\<rparr>"

definition pipeline_phase :: "'w ReleaseReconciler \<Rightarrow> Config \<Rightarrow> ('w ctl, ctrl_result) io" where
  "pipeline_phase r config =
     (let CL = rc_conditions r in
      handle (on_world (run_pipeline r config))
        (\<lambda>err. attempt (change_release (setPhaseConditionFromError CL err))
                 (\<lambda>_. raise (Wrapf ''reconciling upgrade'' err)))
        (\<lambda>states.
          attempt (change_release (updatePhaseConditions CL (phase_entries r states))) (\<lambda>_.
          if AllComplete states
          then attempt (change_release (set_status_version (cfg_release_version config)))
                 (\<lambda>_. ok \<lparr>requeue_after = 0\<rparr>)
          else ok \<lparr>requeue_after = requeueInterval\<rparr>)))"

text \<open>The rest of the function once the manager itself is up to date.\<close>

definition platform_upgrade :: "'w ReleaseReconciler \<Rightarrow> ('w ctl, ctrl_result) io" where
  "platform_upgrade r =
     attempt (resolve_manifest r) (\<lambda>manifest.
     with_release (\<lambda>release.
       handle (on_world (parseUpgradeConfig r manifest release))
         (\<lambda>err. config_error r ''parsing upgrade config'' err)
         (\<lambda>config. attempt (cleanup_phase r config) (\<lambda>_. pipeline_phase r config))))"

definition observe_generation :: "'w ReleaseReconciler \<Rightarrow> Release \<Rightarrow> Release" where
  "observe_generation r release =
     initializePendingConditions (rc_conditions r) (Phases (rc_pipeline r))
       (release\<lparr>rel_status := (rel_status release)
          \<lparr>status_observed_generation := rel_generation release, status_conditions := []\<rparr>\<rparr>)"

definition reconcileNormal :: "'w ReleaseReconciler \<Rightarrow> ('w ctl, ctrl_result) io" where
  "reconcileNormal r =
     with_release (\<lambda>release.
       if status_observed_generation (rel_status release) \<noteq> rel_generation release
       then attempt (change_release (observe_generation r)) (\<lambda>_. ok \<lparr>requeue_after = 1\<rparr>)
       else deferred (updateAppliedCondition (rc_conditions r) (Phases (rc_pipeline r)))
         (attempt (lcm_phase r) (\<lambda>early.
            case early of Some result \<Rightarrow> ok result | None \<Rightarrow> platform_upgrade r)))"

section \<open>Reconcile\<close>

text \<open>\<open>client.IgnoreNotFound\<close> and \<open>retry.RetryOnConflict\<close>.\<close>

definition ignore_not_found :: "gerr \<Rightarrow> unit outcome" where
  "ignore_not_found err = (if is_not_found err then Ok () else Err err)"

fun retry_on_conflict :: "nat \<Rightarrow> ('w, unit) io \<Rightarrow> ('w, unit) io" where
  "retry_on_conflict 0 m = m"
| "retry_on_conflict (Suc n) m =
     handle m (\<lambda>err. if is_conflict err then retry_on_conflict n m else raise err) ok"

definition updateReleaseStatus ::
  "'w ReleaseReconciler \<Rightarrow> NamespacedName \<Rightarrow> ReleaseStatus \<Rightarrow> ('w, unit) io" where
  "updateReleaseStatus r nn status =
     retry_on_conflict (rc_retries r)
       (handle (get_release (rc_client r) nn) (\<lambda>err. pure_call (ignore_not_found err))
         (\<lambda>latest. update_release_status (rc_client r) (latest\<lparr>rel_status := status\<rparr>)))"

text \<open>\<open>errors.Join\<close> of the error of the reconciliation, which may be nil, and another one.\<close>

definition join_errors :: "'a outcome \<Rightarrow> gerr \<Rightarrow> gerr" where
  "join_errors res err = (case res of Err e \<Rightarrow> Joined [e, err] | _ \<Rightarrow> Joined [err])"

text \<open>The result of \<open>reconcileNormal\<close> as a value, so that the status is written before an error is
  returned; a panic still leaves the function.\<close>

definition reconcile_result :: "'w ReleaseReconciler \<Rightarrow> ('w ctl, ctrl_result outcome) io" where
  "reconcile_result r = handle (reconcileNormal r) (\<lambda>err. ok (Err err)) (\<lambda>result. ok (Ok result))"

definition Reconcile :: "'w ReleaseReconciler \<Rightarrow> NamespacedName \<Rightarrow> ('w ctl, ctrl_result) io" where
  "Reconcile r req =
     handle (on_world (get_release (rc_client r) req))
       (\<lambda>err. attempt (pure_call (ignore_not_found err)) (\<lambda>_. ok \<lparr>requeue_after = 0\<rparr>))
       (\<lambda>original.
     attempt (change_release (\<lambda>_. original)) (\<lambda>_.
     attempt (reconcile_result r) (\<lambda>res.
     with_release (\<lambda>release.
       if \<not> rc_status_equal r (rel_status original) (rel_status release)
       then handle (on_world (updateReleaseStatus r req (rel_status release)))
              (\<lambda>statusErr. raise (join_errors res statusErr))
              (\<lambda>_. pure_call res)
       else pure_call res))))"

section \<open>Mapping events to requests\<close>

text \<open>\<open>obj.GetLabels()[k]\<close> is empty for a missing label, and an error of the list gives no request.\<close>

definition release_requests :: "'w kube \<Rightarrow> string \<Rightarrow> ('w, NamespacedName list) io" where
  "release_requests K releaseName =
     (if releaseName = [] then ok []
      else handle (list_releases K) (\<lambda>err. ok []) (\<lambda>items.
        case find (\<lambda>rel. rel_name rel = releaseName) items of
          Some rel \<Rightarrow> ok [release_nn rel]
        | None \<Rightarrow> ok []))"

definition mapPlanToRelease :: "'w kube \<Rightarrow> Plan \<Rightarrow> ('w, NamespacedName list) io" where
  "mapPlanToRelease K plan = release_requests K (label_value (plan_labels plan) ReleaseNameLabel)"

definition mapHelmChartToRelease :: "'w kube \<Rightarrow> HelmChartResource \<Rightarrow> ('w, NamespacedName list) io" where
  "mapHelmChartToRelease K chart =
     (if hcr_namespace chart \<noteq> HelmChartNamespace then ok []
      else release_requests K (label_value (hcr_labels chart) ReleaseNameLabel))"

section \<open>The manager's controller\<close>

text \<open>
  The controller that \<^verbatim>\<open>cmd/main.go\<close> starts: the library functions of \<open>libs\<close>, the Helm client
  over the storage \<open>last_release\<close>, the pipeline of the three phases, and the manifest functions of
  the package \<open>release\<close>.
\<close>

definition manager_reconciler ::
  "'w ReleaseReconciler \<Rightarrow> string \<Rightarrow> rke2_libs \<Rightarrow> string \<Rightarrow> (string \<Rightarrow> ('w, storage_release) io)
     \<Rightarrow> (('m \<Rightarrow> ('w, string) io) \<Rightarrow> string \<Rightarrow> ('w, ResolvedManifest) io)
     \<Rightarrow> ('w, 'r) registry \<Rightarrow> ('m \<Rightarrow> string) \<Rightarrow> 'w ReleaseReconciler" where
  "manager_reconciler libs env R gitVersion last_release resolve G uri =
     libs\<lparr>rc_helm_client := StorageClient last_release,
          rc_pipeline := upgrade_pipeline (rc_new_tag libs) env (rc_helm_libs libs) R (rc_client libs)
                           (StorageClient last_release) gitVersion,
          rc_retrieve_manifest := RetrieveManifest resolve G uri,
          rc_read_manifest := ReadManifest G\<rparr>"

end
