(* ===== verification/Controller_Lemmas.thy ===== *)
theory Controller_Lemmas
  imports Release_Controller
begin

text \<open>
  The controller against the interfaces it relies on: what its operations keep of the Release, what
  the gate of the self-upgrade establishes, and the facts about a whole reconciliation that the
  properties of the controller rest on. The manager's own controller is interpreted at the end.
\<close>

section \<open>The parts of a Release that conditions do not touch\<close>

text \<open>What a function on the status conditions leaves alone.\<close>

definition only_conditions :: "(Release \<Rightarrow> Release) \<Rightarrow> bool" where
  "only_conditions f \<longleftrightarrow> (\<forall>rel. \<exists>cs. f rel = set_release_conditions cs rel)"

lemma set_release_conditions_simps [simp]:
  "rel_spec (set_release_conditions cs rel) = rel_spec rel"
  "rel_name (set_release_conditions cs rel) = rel_name rel"
  "rel_namespace (set_release_conditions cs rel) = rel_namespace rel"
  "rel_generation (set_release_conditions cs rel) = rel_generation rel"
  "status_version (rel_status (set_release_conditions cs rel)) = status_version (rel_status rel)"
  "status_observed_generation (rel_status (set_release_conditions cs rel)) = status_observed_generation (rel_status rel)"
  "set_release_conditions cs (set_release_conditions ds rel) = set_release_conditions cs rel"
  "set_release_conditions (release_conditions rel) rel = rel"
  by (simp_all add: set_release_conditions_def release_conditions_def)

named_theorems only_intros \<open>functions that change the conditions of a Release and nothing else\<close>

lemma only_id [only_intros]: "only_conditions (\<lambda>rel. rel)"
  unfolding only_conditions_def by (metis set_release_conditions_simps(8))

lemma only_comp: "only_conditions f \<Longrightarrow> only_conditions g \<Longrightarrow> only_conditions (\<lambda>rel. f (g rel))"
  unfolding only_conditions_def by (metis set_release_conditions_simps(7))

lemma only_setCondition [only_intros]: "only_conditions (setCondition CL t st r m)"
  unfolding only_conditions_def setCondition_def by blast

lemma only_updatePhaseCondition [only_intros]: "only_conditions (\<lambda>rel. updatePhaseCondition CL rel e)"
  unfolding only_conditions_def
proof
  fix rel
  show "\<exists>cs. updatePhaseCondition CL rel e = set_release_conditions cs rel"
    using only_setCondition [of CL] only_id unfolding only_conditions_def updatePhaseCondition_def
    by (cases e) (auto split: option.split)
qed

lemma only_updatePhaseConditions [only_intros]: "only_conditions (updatePhaseConditions CL sts)"
proof (induction sts)
  case Nil
  then show ?case using only_id by (simp add: updatePhaseConditions_def)
next
  case (Cons e sts)
  have "updatePhaseConditions CL (e # sts) = (\<lambda>rel. updatePhaseConditions CL sts (updatePhaseCondition CL rel e))"
    by (simp add: updatePhaseConditions_def fun_eq_iff)
  then show ?case using only_comp [OF Cons.IH only_updatePhaseCondition] by simp
qed

lemma only_setPhaseConditionFromError [only_intros]: "only_conditions (setPhaseConditionFromError CL e)"
  using only_setCondition only_id unfolding only_conditions_def setPhaseConditionFromError_def
  by (auto split: option.split)

lemma only_updateAppliedCondition [only_intros]: "only_conditions (updateAppliedCondition CL ps)"
  unfolding only_conditions_def
proof
  fix rel
  have set: "\<exists>cs. setCondition CL t st r m rel = set_release_conditions cs rel" for t st r m
    using only_setCondition [of CL] unfolding only_conditions_def by blast
  have keep: "\<exists>cs. rel = set_release_conditions cs rel"
    by (metis set_release_conditions_simps(8))
  show "\<exists>cs. updateAppliedCondition CL ps rel = set_release_conditions cs rel"
    using set keep
    by (auto simp: updateAppliedCondition_def updateAppliedFromManifest_def updateAppliedFromPhases_def Let_def
        split: option.split)
qed

text \<open>Everything of a Release but its conditions.\<close>

definition rest_of :: "Release \<Rightarrow> Release" where
  "rest_of rel = set_release_conditions [] rel"

lemma only_rest: "only_conditions f \<Longrightarrow> rest_of (f rel) = rest_of rel"
  unfolding only_conditions_def rest_of_def by (metis set_release_conditions_simps(7))

lemma rest_ofD:
  assumes "rest_of rel = rest_of rel'"
  shows "rel_spec rel = rel_spec rel'" "status_version (rel_status rel) = status_version (rel_status rel')"
    "rel_name rel = rel_name rel'" "rel_namespace rel = rel_namespace rel'"
  using arg_cong [OF assms, of rel_spec] arg_cong [OF assms, of "\<lambda>r. status_version (rel_status r)"]
    arg_cong [OF assms, of rel_name] arg_cong [OF assms, of rel_namespace]
  by (simp_all add: rest_of_def)

lemma rest_generation:
  assumes "rest_of rel = rest_of rel'"
  shows "rel_generation rel = rel_generation rel'"
    "status_observed_generation (rel_status rel) = status_observed_generation (rel_status rel')"
  using arg_cong [OF assms, of rel_generation]
    arg_cong [OF assms, of "\<lambda>rel. status_observed_generation (rel_status rel)"]
  by (simp_all add: rest_of_def)

text \<open>What observing a new generation does.\<close>

lemma only_set_if_missing [only_intros]: "only_conditions (set_if_missing CL t m)"
  using only_setCondition [of CL] only_id unfolding only_conditions_def set_if_missing_def by auto

lemma rest_observe_generation:
  "rest_of (observe_generation r rel)
     = rest_of (rel\<lparr>rel_status := (rel_status rel)\<lparr>status_observed_generation := rel_generation rel\<rparr>\<rparr>)"
proof -
  have loop: "rest_of (foldl (\<lambda>rel p. set_if_missing CL (f p) m rel) rel ps) = rest_of rel" for CL f m ps rel
    by (induction ps arbitrary: rel) (simp_all add: only_rest [OF only_set_if_missing])
  show ?thesis
    unfolding observe_generation_def initializePendingConditions_def
    by (simp only: loop only_rest [OF only_set_if_missing])
      (simp add: rest_of_def set_release_conditions_def)
qed

lemma observe_generation_simps:
  "status_version (rel_status (observe_generation r rel)) = status_version (rel_status rel)"
  "rel_spec (observe_generation r rel) = rel_spec rel"
  "rel_generation (observe_generation r rel) = rel_generation rel"
  "status_observed_generation (rel_status (observe_generation r rel)) = rel_generation rel"
  using rest_ofD(1,2) [OF rest_observe_generation, of r rel]
    rest_generation [OF rest_observe_generation, of r rel]
  by simp_all

lemma view_initializePending:
  assumes "condition_laws CL" and "release_conditions release = []"
  shows "view CL (initializePendingConditions CL ps release) t =
     (if t = ConditionLCMUpgraded then Some (ConditionFalse, UpgradePending, ''Waiting for LCM upgrade phase to complete'')
      else if t = ConditionManifestResolved
        then Some (ConditionFalse, UpgradePending, ''Waiting for release manifest to be resolved'')
      else if t \<in> ConditionType ` set ps
        then Some (ConditionFalse, UpgradePending, ''Waiting for previous phases to complete'')
      else if t = ConditionApplied then Some (ConditionFalse, UpgradePending, ''Upgrade pending'')
      else None)"
proof -
  note missing = condition_laws.view_set_if_missing [OF assms(1)]
  have loop: "view CL (foldl (\<lambda>rel p. set_if_missing CL (ConditionType p) m rel) rel ps) t
      = (if t \<in> ConditionType ` set ps \<and> view CL rel t = None
         then Some (ConditionFalse, UpgradePending, m) else view CL rel t)" for m rel t
    by (induction ps arbitrary: rel) (auto simp: missing)
  have empty: "view CL release t = None" for t
    using assms(2) condition_laws.find_none [OF assms(1)]
    by (simp add: view_def find_release_condition_def)
  show ?thesis
    by (simp add: initializePendingConditions_def missing loop empty)
qed

lemma view_observe_generation:
  assumes "condition_laws (rc_conditions r)"
  shows "view (rc_conditions r) (observe_generation r rel) t =
     (if t \<in> {ConditionLCMUpgraded, ConditionManifestResolved, ConditionApplied}
               \<union> ConditionType ` set (Phases (rc_pipeline r))
      then Some (ConditionFalse, UpgradePending,
        if t = ConditionLCMUpgraded then ''Waiting for LCM upgrade phase to complete''
        else if t = ConditionManifestResolved then ''Waiting for release manifest to be resolved''
        else if t \<in> ConditionType ` set (Phases (rc_pipeline r)) then ''Waiting for previous phases to complete''
        else ''Upgrade pending'')
      else None)"
  unfolding observe_generation_def
  by (subst view_initializePending [OF assms]) (simp_all add: release_conditions_def)

abbreviation ct_rest :: "'w ctl \<Rightarrow> Release" where
  "ct_rest s \<equiv> rest_of (ct_release s)"

lemma keeps_rest_release: "keeps m ct_release \<Longrightarrow> keeps m ct_rest"
  by (rule keepsI) (simp add: keepsD)

lemma keeps_rest [keeps_intros]:
  "keeps (on_world m) ct_rest" "keeps (raw_store k v) ct_rest"
  "only_conditions f \<Longrightarrow> keeps (change_release f) ct_rest"
  by (auto intro!: keepsI simp: run_ctl only_rest split: prod.splits)

lemma keeps_deferred_rest: "keeps m ct_rest \<Longrightarrow> only_conditions f \<Longrightarrow> keeps (deferred f m) ct_rest"
  by (rule keepsI) (auto simp: run_ctl only_rest dest: keepsD split: prod.splits)

lemma keeps_config_error [keeps_intros]: "keeps (config_error r p e) ct_rest"
  unfolding config_error_def by (auto intro!: keeps_intros only_intros split: option.split)

lemma keeps_upgrade_manifest [keeps_intros]: "keeps (getOrRetrieveUpgradeManifest r rel) ct_release"
  unfolding getOrRetrieveUpgradeManifest_def Let_def
  by (intro keeps_intros) (auto intro!: keeps_intros split: option.split)

lemma keeps_lcmUpgradeConfig [keeps_intros]: "keeps (lcmUpgradeConfig r rel) ct_release"
  unfolding lcmUpgradeConfig_def by (intro keeps_intros)

lemma keeps_lcm_phase [keeps_intros]: "keeps (lcm_phase r) ct_rest"
  unfolding lcm_phase_def Let_def
  by (auto intro!: keeps_with_release keeps_handle keeps_attempt keeps_simple keeps_rest keeps_config_error
      keeps_rest_release [OF keeps_lcmUpgradeConfig] only_intros)

lemma keeps_resolve_manifest [keeps_intros]: "keeps (resolve_manifest r) ct_rest"
  unfolding resolve_manifest_def Let_def
  by (auto intro!: keeps_with_release keeps_handle keeps_attempt keeps_simple keeps_rest only_intros)

lemma keeps_cleanup_phase [keeps_intros]: "keeps (cleanup_phase r config) ct_release"
  unfolding cleanup_phase_def Let_def by (auto intro!: keeps_intros)

section \<open>The interfaces of the controller\<close>

text \<open>
  What the reconciler relies on: the condition library, a pipeline whose handlers keep their
  contract and which has no phase for the self-upgrade, and a walk over a map that visits each key
  once.
\<close>

locale release_controller = condition_laws "rc_conditions r" + pipeline_handlers "rc_pipeline r"
  for r :: "'w ReleaseReconciler" +
  assumes lcm_apart: "PhaseLCM \<notin> set (Phases (rc_pipeline r))"
    and range_keys: "set (rc_range r A) = fset A" "distinct (rc_range r A)"

lemma ConditionType_neq [simp]:
  "ConditionType p \<noteq> ConditionApplied" "ConditionType p \<noteq> ConditionManifestResolved"
  "ConditionApplied \<noteq> ConditionType p" "ConditionManifestResolved \<noteq> ConditionType p"
proof -
  have "rev (ConditionType p) \<noteq> rev ConditionApplied" "rev (ConditionType p) \<noteq> rev ConditionManifestResolved"
    by (simp_all add: ConditionType_def condition_types)
  then show "ConditionType p \<noteq> ConditionApplied" "ConditionType p \<noteq> ConditionManifestResolved"
    "ConditionApplied \<noteq> ConditionType p" "ConditionManifestResolved \<noteq> ConditionType p"
    by auto
qed

lemma set_phase_entries:
  assumes "\<And>A. set (rc_range r A) = fset A" and "\<And>A. distinct (rc_range r A)"
  shows "set (phase_entries r states) = {(p, st). fmlookup states p = Some st}"
    and "distinct (map fst (phase_entries r states))"
proof -
  have entries: "phase_entries r states = map (\<lambda>p. (p, the (fmlookup states p))) (rc_range r (fmdom states))"
  proof -
    have "\<forall>p \<in> set (rc_range r (fmdom states)). fmlookup states p \<noteq> None"
      by (simp add: assms(1) fmlookup_dom_iff)
    then have "List.map_filter (\<lambda>p. map_option (Pair p) (fmlookup states p)) ps
        = map (\<lambda>p. (p, the (fmlookup states p))) ps" if "set ps \<subseteq> set (rc_range r (fmdom states))" for ps
      using that by (induction ps) (auto simp: List.map_filter_def)
    then show ?thesis by (simp add: phase_entries_def)
  qed
  show "set (phase_entries r states) = {(p, st). fmlookup states p = Some st}"
    by (auto simp: entries assms(1) fmlookup_dom_iff)
  show "distinct (map fst (phase_entries r states))"
    by (simp add: entries comp_def assms(2))
qed

context release_controller
begin

abbreviation sees :: "'w ctl \<Rightarrow> string \<Rightarrow> condition_view option" where
  "sees s t \<equiv> view (rc_conditions r) (ct_release s) t"

text \<open>Past the gate the condition of the self-upgrade is true.\<close>

lemma lcm_phase_passed:
  assumes "run_state (lcm_phase r) s = (Ok None, s1)"
  shows "true_view (sees s1 ConditionLCMUpgraded)"
proof (cases "IsStatusConditionTrue (rc_conditions r) (release_conditions (ct_release s)) ConditionLCMUpgraded")
  case True
  with assms have "s1 = s" by (simp add: lcm_phase_def Let_def run_ctl)
  with True show ?thesis
    unfolding is_true by (auto simp: true_view_def view_def find_release_condition_def view_of_def)
next
  case False
  obtain c s2 where c: "run_state (lcmUpgradeConfig r (ct_release s)) s = (c, s2)" by fastforce
  with assms False obtain config where config: "c = Ok config"
    by (cases c) (auto simp: lcm_phase_def Let_def run_ctl run_handle run_attempt split: prod.splits outcome.splits)
  obtain q w3 where q: "run_state (reconcileLCM r config) (ct_world s2) = (q, w3)" by fastforce
  with assms False c config obtain status where "q = Ok status" "ps_state status = UpgradeSucceeded"
    "s1 = s2\<lparr>ct_world := w3, ct_release := updatePhaseCondition (rc_conditions r) (ct_release s2) (PhaseLCM, status)\<rparr>"
    by (cases q) (auto simp: lcm_phase_def Let_def run_ctl run_handle run_attempt split: if_splits)
  then show ?thesis
    using view_updatePhaseCondition [of "ct_release s2" PhaseLCM status ConditionLCMUpgraded]
    by (auto simp: phase_view_def status_complete_def true_view_def)
qed

lemma resolve_manifest_Ok:
  assumes "run_state (resolve_manifest r) s = (Ok manifest, s1)"
  shows "sees s1 t = (if t = ConditionManifestResolved
      then Some (ConditionTrue, UpgradeSucceeded, ''Release manifest retrieved successfully'') else sees s t)"
proof -
  obtain q w1 where "run_state (getOrRetrieveManifest r (ct_release s)) (ct_world s) = (q, w1)" by fastforce
  with assms show ?thesis
    by (cases q) (auto simp: resolve_manifest_def Let_def run_ctl run_handle run_attempt)
qed

text \<open>The conditions after a run of the pipeline: those of the phases it recorded change.\<close>

lemma map_of_phase_entries:
  "map_of (map (\<lambda>(p, s). (ConditionType p, s)) (phase_entries r states)) t = Some st \<longleftrightarrow>
     (\<exists>p. fmlookup states p = Some st \<and> t = ConditionType p)"
proof -
  have "map fst (map (\<lambda>(p, s). (ConditionType p, s)) (phase_entries r states))
      = map ConditionType (map fst (phase_entries r states))" by (simp add: case_prod_beta)
  moreover have "inj_on ConditionType A" for A by (simp add: inj_on_def inj_ConditionType)
  ultimately have "distinct (map fst (map (\<lambda>(p, s). (ConditionType p, s)) (phase_entries r states)))"
    using set_phase_entries(2) [OF range_keys] by (simp only: distinct_map)
  then show ?thesis
    by (subst map_of_eq_Some_iff) (auto simp: set_phase_entries(1) [OF range_keys])
qed

lemma phases_after_pipeline:
  assumes "fmlookup states p = Some st"
  shows "view (rc_conditions r) (updatePhaseConditions (rc_conditions r) (phase_entries r states) rel) (ConditionType p)
     = phase_view st (view (rc_conditions r) rel (ConditionType p))"
proof -
  have "map_of (map (\<lambda>(p, s). (ConditionType p, s)) (phase_entries r states)) (ConditionType p) = Some st"
    using assms unfolding map_of_phase_entries by blast
  then show ?thesis
    by (simp add: view_updatePhaseConditions [OF set_phase_entries(2) [OF range_keys]])
qed

lemma others_after_pipeline:
  assumes "\<And>p. t = ConditionType p \<Longrightarrow> fmlookup states p = None"
  shows "view (rc_conditions r) (updatePhaseConditions (rc_conditions r) (phase_entries r states) rel) t
     = view (rc_conditions r) rel t"
proof -
  have "map_of (map (\<lambda>(p, s). (ConditionType p, s)) (phase_entries r states)) t \<noteq> Some st" for st
    using assms unfolding map_of_phase_entries by auto
  then show ?thesis
    by (simp add: view_updatePhaseConditions [OF set_phase_entries(2) [OF range_keys]] split: option.split)
qed

end

section \<open>A whole reconciliation\<close>

lemma pipeline_phase_cases:
  assumes "run_state (pipeline_phase r config) s = (res, s')"
  shows "ct_rest s' = ct_rest s
     \<or> (\<exists>states w. run_state (run_pipeline r config) (ct_world s) = (Ok states, w) \<and> AllComplete states
          \<and> ct_release s' = set_status_version (cfg_release_version config)
              (updatePhaseConditions (rc_conditions r) (phase_entries r states) (ct_release s)))"
proof -
  obtain q w where q: "run_state (run_pipeline r config) (ct_world s) = (q, w)" by fastforce
  show ?thesis
    using assms q only_rest [OF only_setPhaseConditionFromError] only_rest [OF only_updatePhaseConditions]
    by (cases q) (auto simp: pipeline_phase_def Let_def run_ctl run_handle run_attempt split: if_splits)
qed

text \<open>What a run of \<open>platform_upgrade\<close> that changes more than conditions went through.\<close>

lemma platform_upgrade_cases:
  assumes "run_state (platform_upgrade r) s = (res, s')" and "ct_rest s' \<noteq> ct_rest s"
  obtains manifest s1 config s2 where "run_state (resolve_manifest r) s = (Ok manifest, s1)"
    "fst (run_state (parseUpgradeConfig r manifest (ct_release s1)) (ct_world s1)) = Ok config"
    "ct_release s2 = ct_release s1" "run_state (pipeline_phase r config) s2 = (res, s')"
proof -
  obtain m s1 where m: "run_state (resolve_manifest r) s = (m, s1)" by fastforce
  have rest: "ct_rest s1 = ct_rest s" by (rule keepsD [OF keeps_resolve_manifest m])
  obtain manifest where manifest: "m = Ok manifest"
    using assms m rest by (cases m) (auto simp: platform_upgrade_def run_attempt)
  obtain c w2 where c: "run_state (parseUpgradeConfig r manifest (ct_release s1)) (ct_world s1) = (c, w2)" by fastforce
  let ?s2 = "s1\<lparr>ct_world := w2\<rparr>"
  have "ct_rest b = ct_rest s1" if "run_state (config_error r p e) ?s2 = (a, b)" for p e a b
    using keepsD [OF keeps_config_error that] by simp
  then obtain config where config: "c = Ok config"
    using assms m rest manifest c
    by (cases c) (auto simp: platform_upgrade_def run_attempt run_ctl run_handle)
  obtain u s3 where u: "run_state (cleanup_phase r config) ?s2 = (u, s3)" by fastforce
  have release: "ct_release s3 = ct_release s1" using keepsD [OF keeps_cleanup_phase u] by simp
  have "run_state (pipeline_phase r config) s3 = (res, s')"
    using assms m rest manifest c config u release
    by (cases u) (auto simp: platform_upgrade_def run_attempt run_ctl run_handle)
  with that m manifest c config release show thesis by auto
qed

lemma config_version:
  "returns (parseUpgradeConfig r manifest release)
     (\<lambda>config. cfg_release_version config = spec_version (rel_spec release)
        \<and> (\<forall>c \<in> set (cfg_helm_charts config).
             hc_chart (hcc_chart c) \<notin> {elementalLifecycleManager, elementalLifecycleManagerCRDs}))"
proof -
  have "cfg_release_version config = v" if "NewConfig nt m v nn (Some rt) = Ok config" for nt m v nn rt config
    using that by (auto simp: NewConfig_def obind_eq_Ok_iff Let_def split: option.splits)
  then have new: "returns (pure_call (NewConfig nt m v nn (Some rt))) (\<lambda>config. cfg_release_version config = v)"
    for nt m v nn rt by (auto intro: returnsI)
  show ?thesis
    unfolding parseUpgradeConfig_def
    by (intro returns_attempt_any returns_attempt [OF new] returns_ok) simp
qed

context release_controller
begin

lemma run_pipeline_complete:
  assumes "run_state (run_pipeline r config) w = (Ok states, w')" and "AllComplete states"
    and "p \<in> set (Phases (rc_pipeline r))"
  shows "\<exists>st. fmlookup states p = Some st \<and> status_complete st"
proof -
  obtain sts res w1 where run: "run_state (Pipeline_Reconcile (rc_pipeline r) (Some config)) w = ((sts, res), w1)"
    by (metis surjective_pairing)
  with assms(1) have "res = Ok ()" "sts = states"
    by (cases res; auto simp: run_pipeline_def)+
  with all_recorded run assms(2,3) show ?thesis unfolding phase_complete_def by metis
qed

lemma run_pipeline_phases:
  assumes "run_state (run_pipeline r config) w = (Ok states, w')" and "fmlookup states p = Some st"
  shows "p \<in> set (Phases (rc_pipeline r))"
proof -
  obtain sts res w1 where run: "run_state (Pipeline_Reconcile (rc_pipeline r) (Some config)) w = ((sts, res), w1)"
    by (metis surjective_pairing)
  with assms(1) have sts: "sts = states"
    by (cases res; auto simp: run_pipeline_def)+
  obtain n where "fmdom sts = fset_of_list (take n (Phases (rc_pipeline r)))"
    using ends [OF run] by blast
  with assms(2) sts show ?thesis
    using in_set_takeD by (fastforce dest: fmdomI simp: fset_of_list_elem)
qed

text \<open>
  The run of a reconciliation that records a version: the self-upgrade passes, the manifest resolves,
  and the pipeline is complete.
\<close>

lemma version_recorded_run:
  assumes "run_state (reconcileNormal r) s = (res, s')"
    and "status_version (rel_status (ct_release s')) \<noteq> status_version (rel_status (ct_release s))"
  obtains s1 s5 where "run_state (lcm_phase r) s = (Ok None, s1)" and "run_state (platform_upgrade r) s1 = (res, s5)"
    and "ct_release s' = updateAppliedCondition (rc_conditions r) (Phases (rc_pipeline r)) (ct_release s5)"
    and "ct_rest s1 = ct_rest s" and "ct_rest s5 \<noteq> ct_rest s1"
proof -
  let ?CL = "rc_conditions r" and ?ps = "Phases (rc_pipeline r)"
  from assms have same: "status_observed_generation (rel_status (ct_release s)) = rel_generation (ct_release s)"
    by (auto simp: reconcileNormal_def run_ctl run_attempt observe_generation_simps split: if_splits)
  obtain e s1 where e: "run_state (lcm_phase r) s = (e, s1)" by fastforce
  have rest: "ct_rest s1 = ct_rest s" by (rule keepsD [OF keeps_lcm_phase e])
  obtain s5 where deferred: "ct_release s' = updateAppliedCondition ?CL ?ps (ct_release s5)"
    and s5: "run_state (attempt (lcm_phase r) (\<lambda>early. case early of Some result \<Rightarrow> ok result
               | None \<Rightarrow> platform_upgrade r)) s = (res, s5)"
    using assms(1) same by (auto simp: reconcileNormal_def run_ctl split: prod.splits)
  have changed: "ct_rest s5 \<noteq> ct_rest s"
    using assms(2) deferred only_rest [OF only_updateAppliedCondition, of ?CL ?ps "ct_release s5"] rest_ofD(2) by metis
  then have "e = Ok None" and "run_state (platform_upgrade r) s1 = (res, s5)"
    using s5 e rest by (auto simp: run_attempt split: outcome.splits option.splits)
  then show thesis using that e deferred rest changed by simp
qed

lemma platform_upgrade_recorded:
  assumes "run_state (platform_upgrade r) s1 = (res, s5)" and "ct_rest s5 \<noteq> ct_rest s1"
  obtains manifest s2 w w' config states where "run_state (resolve_manifest r) s1 = (Ok manifest, s2)"
    and "run_state (run_pipeline r config) w = (Ok states, w')" and "AllComplete states"
    and "ct_release s5 = set_status_version (spec_version (rel_spec (ct_release s1)))
            (updatePhaseConditions (rc_conditions r) (phase_entries r states) (ct_release s2))"
proof -
  obtain manifest s2 config s3 where m: "run_state (resolve_manifest r) s1 = (Ok manifest, s2)"
    and c: "fst (run_state (parseUpgradeConfig r manifest (ct_release s2)) (ct_world s2)) = Ok config"
    and s3: "ct_release s3 = ct_release s2" "run_state (pipeline_phase r config) s3 = (res, s5)"
    using platform_upgrade_cases [OF assms(1)] assms(2) by metis
  have rest2: "ct_rest s2 = ct_rest s1" by (rule keepsD [OF keeps_resolve_manifest m])
  have "cfg_release_version config = spec_version (rel_spec (ct_release s1))"
    using returnsD [OF config_version, of r manifest "ct_release s2" "ct_world s2" config] c
      rest_ofD(1) [OF rest2] by (metis surjective_pairing)
  then show thesis using pipeline_phase_cases [OF s3(2)] assms(2) rest2 s3(1) m that by metis
qed

text \<open>What the user sees after the phase conditions of a complete pipeline are set.\<close>

lemma complete_pipeline_views:
  assumes "run_state (run_pipeline r config) w = (Ok states, w')" and "AllComplete states"
  shows "p \<in> set (Phases (rc_pipeline r)) \<Longrightarrow> true_view (view (rc_conditions r)
      (updatePhaseConditions (rc_conditions r) (phase_entries r states) rel) (ConditionType p))"
    and "view (rc_conditions r) (updatePhaseConditions (rc_conditions r) (phase_entries r states) rel) ConditionLCMUpgraded
      = view (rc_conditions r) rel ConditionLCMUpgraded"
    and "view (rc_conditions r) (updatePhaseConditions (rc_conditions r) (phase_entries r states) rel) ConditionManifestResolved
      = view (rc_conditions r) rel ConditionManifestResolved"
proof -
  show "true_view (view (rc_conditions r)
      (updatePhaseConditions (rc_conditions r) (phase_entries r states) rel) (ConditionType p))"
    if "p \<in> set (Phases (rc_pipeline r))"
  proof -
    from that obtain st where "fmlookup states p = Some st" "status_complete st"
      using run_pipeline_complete [OF assms] by blast
    then show ?thesis by (simp add: phases_after_pipeline) (auto simp: phase_view_def true_view_def)
  qed
  have "fmlookup states p = None" if "ConditionLCMUpgraded = ConditionType p" for p
  proof -
    from that have "p = PhaseLCM" unfolding ConditionType_phases(1) [symmetric] inj_ConditionType by simp
    then show ?thesis using run_pipeline_phases [OF assms(1)] lcm_apart by (cases "fmlookup states p") auto
  qed
  then show "view (rc_conditions r) (updatePhaseConditions (rc_conditions r) (phase_entries r states) rel) ConditionLCMUpgraded
      = view (rc_conditions r) rel ConditionLCMUpgraded"
    by (rule others_after_pipeline)
  show "view (rc_conditions r) (updatePhaseConditions (rc_conditions r) (phase_entries r states) rel) ConditionManifestResolved
      = view (rc_conditions r) rel ConditionManifestResolved"
    by (rule others_after_pipeline) simp
qed

lemma applied_when_all_true:
  assumes "true_view (view (rc_conditions r) rel ConditionLCMUpgraded)"
    and "view (rc_conditions r) rel ConditionManifestResolved
       = Some (ConditionTrue, UpgradeSucceeded, ''Release manifest retrieved successfully'')"
    and "\<forall>p \<in> set (Phases (rc_pipeline r)). true_view (view (rc_conditions r) rel (ConditionType p))"
  shows "view (rc_conditions r) (updateAppliedCondition (rc_conditions r) (Phases (rc_pipeline r)) rel) ConditionApplied
     = Some (ConditionTrue, UpgradeSucceeded, ''All upgrade phases completed successfully'')"
  using assms scan_phases_view(1) [of rel "Phases (rc_pipeline r)"]
  by (auto simp: view_updateApplied updateAppliedFromPhases_def Let_def true_view_def)

text \<open>A new \<open>status.version\<close> is the target version, and then everything else is done.\<close>

lemma version_recorded:
  assumes "run_state (reconcileNormal r) s = (res, s')"
    and "status_version (rel_status (ct_release s')) \<noteq> status_version (rel_status (ct_release s))"
  shows "status_version (rel_status (ct_release s')) = spec_version (rel_spec (ct_release s))
     \<and> true_view (sees s' ConditionLCMUpgraded)
     \<and> (\<forall>p \<in> set (Phases (rc_pipeline r)). true_view (sees s' (ConditionType p)))
     \<and> sees s' ConditionApplied
         = Some (ConditionTrue, UpgradeSucceeded, ''All upgrade phases completed successfully'')"
proof -
  let ?CL = "rc_conditions r" and ?ps = "Phases (rc_pipeline r)"
  obtain s1 s5 where e: "run_state (lcm_phase r) s = (Ok None, s1)"
    and s5: "run_state (platform_upgrade r) s1 = (res, s5)" "ct_rest s5 \<noteq> ct_rest s1"
    and deferred: "ct_release s' = updateAppliedCondition ?CL ?ps (ct_release s5)" and rest: "ct_rest s1 = ct_rest s"
    by (rule version_recorded_run [OF assms])
  obtain manifest s2 w w' config states where m: "run_state (resolve_manifest r) s1 = (Ok manifest, s2)"
    and states: "run_state (run_pipeline r config) w = (Ok states, w')" "AllComplete states"
    and rel5: "ct_release s5 = set_status_version (spec_version (rel_spec (ct_release s1)))
            (updatePhaseConditions ?CL (phase_entries r states) (ct_release s2))"
    by (rule platform_upgrade_recorded [OF s5])
  have view5: "sees s5 t = view ?CL (updatePhaseConditions ?CL (phase_entries r states) (ct_release s2)) t" for t
    by (simp add: rel5 view_def find_release_condition_def release_conditions_def set_status_version_def)
  have lcm: "true_view (sees s5 ConditionLCMUpgraded)"
    unfolding view5 complete_pipeline_views(2) [OF states] using lcm_phase_passed [OF e]
    by (simp add: resolve_manifest_Ok [OF m])
  have manifest: "sees s5 ConditionManifestResolved
      = Some (ConditionTrue, UpgradeSucceeded, ''Release manifest retrieved successfully'')"
    unfolding view5 complete_pipeline_views(3) [OF states] by (simp add: resolve_manifest_Ok [OF m])
  have phases: "\<forall>p \<in> set ?ps. true_view (sees s5 (ConditionType p))"
    unfolding view5 using complete_pipeline_views(1) [OF states] by blast
  have "sees s' t = sees s5 t" if "t \<noteq> ConditionApplied" for t
    unfolding deferred by (rule view_updateApplied_other [OF that])
  moreover have "status_version (rel_status (ct_release s')) = spec_version (rel_spec (ct_release s))"
    using rest_ofD(2) [OF only_rest [OF only_updateAppliedCondition], of ?CL ?ps "ct_release s5"] rest_ofD(1) [OF rest]
    by (simp add: deferred rel5 set_status_version_def)
  ultimately show ?thesis using lcm phases applied_when_all_true [OF lcm manifest phases] by (simp add: deferred)
qed

end

section \<open>The log before the gate\<close>

abbreviation ct_log :: "'w logged ctl \<Rightarrow> event list" where
  "ct_log s \<equiv> snd (ct_world s)"

lemma keeps_log_quiet [keeps_intros]: "keeps (on_world (quiet m)) ct_log"
  by (rule keepsI) (auto simp: run_ctl quiet_def split: prod.splits)

lemma keeps_log_parts [keeps_intros]:
  "keeps (change_release f) ct_log" "keeps (raw_store k v) ct_log"
  by (auto intro!: keepsI simp: run_ctl)

lemma keeps_log_config_error: "keeps (config_error r p e) ct_log"
  unfolding config_error_def by (auto intro!: keeps_intros split: option.split)

text \<open>The manager's own charts.\<close>

definition lcm_chart_config :: "HelmChartConfig \<Rightarrow> bool" where
  "lcm_chart_config c \<longleftrightarrow> hc_chart (hcc_chart c) \<in> {elementalLifecycleManager, elementalLifecycleManagerCRDs}"

lemma BuildHelmChartConfig_charts:
  assumes "BuildHelmChartConfig (Some (lcm_helm core)) None rcs = Ok cs" and "c \<in> set cs"
  shows "lcm_chart_config c"
proof -
  have "cs = chart_configs_of (Some (lcm_helm core)) rcs"
    using assms(1) by (auto simp: BuildHelmChartConfig_eq chart_configs_of_def Let_def split: if_splits)
  with assms(2) show ?thesis
    by (auto simp: chart_configs_of_def chart_config_of_def lcm_helm_def lcm_chart_config_def Let_def
        split: option.splits)
qed

definition lcm_config :: "Release \<Rightarrow> Config \<Rightarrow> bool" where
  "lcm_config release config \<longleftrightarrow> cfg_release config = release_nn release
     \<and> cfg_release_version config = spec_version (rel_spec release)
     \<and> (\<forall>c \<in> set (cfg_helm_charts config). lcm_chart_config c)"

lemma lcmUpgradeConfig_charts: "returns (lcmUpgradeConfig r release) (lcm_config release)"
proof -
  have built: "returns (pure_call (BuildHelmChartConfig (Some (lcm_helm core)) None rcs))
      (\<lambda>cs. \<forall>c \<in> set cs. lcm_chart_config c)" for core rcs
    using BuildHelmChartConfig_charts by (auto intro: returnsI)
  show ?thesis
    unfolding lcmUpgradeConfig_def
    by (intro returns_attempt_any returns_attempt [OF built] returns_ok) (simp add: lcm_config_def)
qed

lemma lcmUpgradeConfig_log:
  assumes "\<And>i. rc_read_manifest r i = quiet (rd i)"
  shows "keeps (lcmUpgradeConfig r rel) ct_log"
proof -
  have "keeps (getOrRetrieveUpgradeManifest r rel) ct_log"
    unfolding getOrRetrieveUpgradeManifest_def Let_def assms
    by (intro keeps_intros) (auto intro!: keeps_intros split: option.split)
  then show ?thesis unfolding lcmUpgradeConfig_def by (intro keeps_intros)
qed

text \<open>At most one event: a write of one of the manager's charts for this release.\<close>

definition lcm_write :: "helm_libs \<Rightarrow> Release \<Rightarrow> event list \<Rightarrow> bool" where
  "lcm_write L release evs \<longleftrightarrow>
     evs = [] \<or> (\<exists>c ev. evs = [ev] \<and> lcm_chart_config c
        \<and> writes_chart L \<lparr>hr_release_name = rel_name release,
                          hr_release_version = spec_version (rel_spec release), hr_strict = True\<rparr> c ev)"

lemma emits_reconcileLCM:
  assumes "rc_client r = logged_kube K" and "rc_helm_client r = logged_helm HC" and "lcm_config release config"
  shows "emits (reconcileLCM r config) (\<lambda>res evs. lcm_write (rc_helm_libs r) release evs
     \<and> (\<forall>s. res = Ok s \<longrightarrow> ps_state s = UpgradeSucceeded \<longrightarrow> evs = []))"
  unfolding reconcileLCM_def NewHelmReconciler_def assms(1,2) PhaseHandler.simps
proof (rule emits_handle, rule emits_mono [OF emits_HelmReconciler], goal_cases)
  case (1 res evs)
  have config: "nn_name (cfg_release config) = rel_name release"
    "cfg_release_version config = spec_version (rel_spec release)"
    "\<forall>c \<in> set (cfg_helm_charts config). lcm_chart_config c"
    using assms(3) by (simp_all add: lcm_config_def release_nn_def)
  have written: "lcm_write (rc_helm_libs r) release evs"
    using 1 config unfolding lcm_write_def by fastforce
  show ?case
    using 1 written by (cases res) (auto intro!: emits_simple)
qed

text \<open>A gate that has run: the log of the self-upgrade, empty when the gate is passed.\<close>

lemma lcm_phase_log:
  assumes "rc_client r = logged_kube K" and "rc_helm_client r = logged_helm HC"
    and "\<And>i. rc_read_manifest r i = quiet (rd i)"
    and "run_state (lcm_phase r) s = (e, s1)"
  shows "\<exists>evs. ct_log s1 = ct_log s @ evs \<and> lcm_write (rc_helm_libs r) (ct_release s) evs
     \<and> (e = Ok None \<longrightarrow> evs = [])"
proof (cases "IsStatusConditionTrue (rc_conditions r) (release_conditions (ct_release s)) ConditionLCMUpgraded")
  case True
  with assms(4) show ?thesis by (simp add: lcm_phase_def Let_def run_ctl lcm_write_def)
next
  case False
  obtain c s2 where c: "run_state (lcmUpgradeConfig r (ct_release s)) s = (c, s2)" by fastforce
  have log: "ct_log s2 = ct_log s" by (rule keepsD [OF lcmUpgradeConfig_log [OF assms(3)] c])
  show ?thesis
  proof (cases c)
    case (Ok config)
    have config: "lcm_config (ct_release s) config"
      using returnsD [OF lcmUpgradeConfig_charts] c Ok by blast
    obtain w2 l2 where s2: "ct_world s2 = (w2, l2)" by fastforce
    obtain q w3 l3 where q: "run_state (reconcileLCM r config) (w2, l2) = (q, (w3, l3))" by (metis prod_cases3)
    obtain new where new: "l3 = l2 @ new" "lcm_write (rc_helm_libs r) (ct_release s) new"
      "\<And>st. q = Ok st \<Longrightarrow> ps_state st = UpgradeSucceeded \<Longrightarrow> new = []"
      using emitsD [OF emits_reconcileLCM [OF assms(1,2) config] q] by blast
    have "ct_log s1 = l3 \<and> (e = Ok None \<longrightarrow> (\<exists>st. q = Ok st \<and> ps_state st = UpgradeSucceeded))"
      using assms(4) False c Ok s2 q
      by (cases q) (auto simp: lcm_phase_def Let_def run_ctl run_handle run_attempt split: if_splits)
    with new log s2 show ?thesis by auto
  next
    case (Err err)
    have "ct_log s1 = ct_log s2 \<and> e \<noteq> Ok None"
      using assms(4) False c Err keepsD [OF keeps_log_config_error, of r _ err s2]
      by (auto simp: lcm_phase_def Let_def run_ctl run_handle run_attempt split: prod.splits outcome.splits)
    with log show ?thesis by (simp add: lcm_write_def)
  next
    case (Panic p)
    with assms(4) False c log show ?thesis
      by (simp add: lcm_phase_def Let_def run_ctl run_handle lcm_write_def)
  qed
qed

context release_controller
begin

text \<open>The rest of a reconciliation never takes the self-upgrade back.\<close>

lemma pipeline_phase_keeps_lcm:
  assumes "run_state (pipeline_phase r config) s = (res, s')"
  shows "sees s' ConditionLCMUpgraded = sees s ConditionLCMUpgraded"
proof -
  have phase: "p \<notin> set (Phases (rc_pipeline r))" if "ConditionLCMUpgraded = ConditionType p" for p
    using that lcm_apart unfolding ConditionType_phases(1) [symmetric] inj_ConditionType by simp
  obtain q w where q: "run_state (run_pipeline r config) (ct_world s) = (q, w)" by fastforce
  show ?thesis
  proof (cases q)
    case (Ok states)
    have "view (rc_conditions r) (updatePhaseConditions (rc_conditions r) (phase_entries r states) (ct_release s))
        ConditionLCMUpgraded = sees s ConditionLCMUpgraded"
      using phase run_pipeline_phases [OF q [unfolded Ok]]
      by (intro others_after_pipeline) (metis not_Some_eq)
    then show ?thesis
      using assms q Ok
      by (auto simp: pipeline_phase_def Let_def run_ctl run_handle run_attempt set_status_version_def
          view_def find_release_condition_def release_conditions_def split: if_splits)
  next
    case (Err err)
    obtain sts e w1 where run: "run_state (Pipeline_Reconcile (rc_pipeline r) (Some config)) (ct_world s) = ((sts, e), w1)"
      by (metis surjective_pairing)
    with q Err have "e = Err err" by (cases e) (auto simp: run_pipeline_def)
    then obtain n e' where "n < length (rc_pipeline r)" "err = PhaseError (Phases (rc_pipeline r) ! n) e'"
      using ends [OF run] by (auto simp: run_ends_def)
    then have "\<exists>p e'. err = PhaseError p e' \<and> p \<in> set (Phases (rc_pipeline r))"
      by (auto simp: Phases_def)
    then have "view (rc_conditions r) (setPhaseConditionFromError (rc_conditions r) err (ct_release s)) ConditionLCMUpgraded
        = sees s ConditionLCMUpgraded"
      using phase by (auto simp: setPhaseConditionFromError_def)
    then show ?thesis
      using assms q Err by (auto simp: pipeline_phase_def Let_def run_ctl run_handle run_attempt)
  next
    case (Panic p)
    with assms q show ?thesis by (auto simp: pipeline_phase_def Let_def run_ctl run_handle run_attempt)
  qed
qed

lemma resolve_manifest_keeps_lcm:
  assumes "run_state (resolve_manifest r) s = (res, s')"
  shows "sees s' ConditionLCMUpgraded = sees s ConditionLCMUpgraded"
proof -
  obtain q w1 where "run_state (getOrRetrieveManifest r (ct_release s)) (ct_world s) = (q, w1)" by fastforce
  with assms show ?thesis
    by (cases q) (auto simp: resolve_manifest_def Let_def run_ctl run_handle run_attempt)
qed

lemma config_error_keeps_lcm:
  "run_state (config_error r p e) s = (res, s') \<Longrightarrow> sees s' ConditionLCMUpgraded = sees s ConditionLCMUpgraded"
  by (auto simp: config_error_def run_attempt run_ctl split: option.splits)

lemma platform_upgrade_keeps_lcm:
  assumes "run_state (platform_upgrade r) s = (res, s')"
  shows "sees s' ConditionLCMUpgraded = sees s ConditionLCMUpgraded"
proof -
  obtain m s1 where m: "run_state (resolve_manifest r) s = (m, s1)" by fastforce
  show ?thesis
  proof (cases m)
    case (Ok manifest)
    obtain c w2 where c: "run_state (parseUpgradeConfig r manifest (ct_release s1)) (ct_world s1) = (c, w2)" by fastforce
    let ?s2 = "s1\<lparr>ct_world := w2\<rparr>"
    have rest: "run_state (case c of Ok config \<Rightarrow> attempt (cleanup_phase r config) (\<lambda>_. pipeline_phase r config)
        | Err e \<Rightarrow> config_error r ''parsing upgrade config'' e | Panic p \<Rightarrow> panic p) ?s2 = (res, s')"
      using assms m Ok c by (cases c) (auto simp: platform_upgrade_def run_attempt run_ctl run_handle)
    have "sees s' ConditionLCMUpgraded = sees ?s2 ConditionLCMUpgraded"
    proof (cases c)
      case (Ok config)
      obtain u s3 where u: "run_state (cleanup_phase r config) ?s2 = (u, s3)" by fastforce
      have "ct_release s3 = ct_release ?s2" by (rule keepsD [OF keeps_cleanup_phase u])
      then show ?thesis
        using rest Ok u pipeline_phase_keeps_lcm [of config s3 res s'] by (cases u) (auto simp: run_attempt)
    qed (use rest config_error_keeps_lcm in auto)
    then show ?thesis using resolve_manifest_keeps_lcm [OF m] by simp
  qed (use assms m resolve_manifest_keeps_lcm [OF m] in \<open>auto simp: platform_upgrade_def run_attempt\<close>)
qed

end

text \<open>The gate, on the whole function.\<close>

lemma gate:
  assumes rc: "release_controller r" and "rc_client r = logged_kube K" and "rc_helm_client r = logged_helm HC"
    and "\<And>i. rc_read_manifest r i = quiet (rd i)"
    and "run_state (reconcileNormal r) s = (res, s')"
    and "\<not> true_view (view (rc_conditions r) (ct_release s') ConditionLCMUpgraded)"
  shows "\<exists>evs. ct_log s' = ct_log s @ evs \<and> lcm_write (rc_helm_libs r) (ct_release s) evs"
proof (cases "status_observed_generation (rel_status (ct_release s)) = rel_generation (ct_release s)")
  case False
  with assms(5) have "ct_log s' = ct_log s" by (auto simp: reconcileNormal_def run_ctl run_attempt)
  then show ?thesis by (simp add: lcm_write_def)
next
  case True
  obtain e s1 where e: "run_state (lcm_phase r) s = (e, s1)" by fastforce
  obtain s5 where deferred: "ct_release s' = updateAppliedCondition (rc_conditions r) (Phases (rc_pipeline r)) (ct_release s5)"
      "ct_log s' = ct_log s5"
    and s5: "run_state (attempt (lcm_phase r) (\<lambda>early. case early of Some result \<Rightarrow> ok result
               | None \<Rightarrow> platform_upgrade r)) s = (res, s5)"
    using assms(5) True by (auto simp: reconcileNormal_def run_ctl split: prod.splits)
  have lcm: "\<not> true_view (view (rc_conditions r) (ct_release s5) ConditionLCMUpgraded)"
    using assms(6) unfolding deferred(1)
    by (simp add: condition_laws.view_updateApplied_other [OF release_controller.axioms(1) [OF rc]])
  have "e \<noteq> Ok None"
  proof
    assume passed: "e = Ok None"
    then have "run_state (platform_upgrade r) s1 = (res, s5)" using s5 e by (simp add: run_attempt)
    from release_controller.platform_upgrade_keeps_lcm [OF rc this] lcm
      release_controller.lcm_phase_passed [OF rc e [unfolded passed]] show False by simp
  qed
  then have "s5 = s1" using s5 e by (auto simp: run_attempt split: outcome.splits option.splits)
  then show ?thesis using lcm_phase_log [OF assms(2-4) e] deferred(2) by auto
qed

section \<open>The manager's controller\<close>

text \<open>The locale holds of the controller of the program, with the list of conditions and a walk in
  key order, whatever its clients and its other libraries are.\<close>

abbreviation ordered_libs :: "'w ReleaseReconciler \<Rightarrow> 'w ReleaseReconciler" where
  "ordered_libs libs \<equiv> libs\<lparr>rc_conditions := list_conditions, rc_range := sorted_list_of_fset\<rparr>"

interpretation manager: release_controller
    "manager_reconciler (ordered_libs libs) env R git last_release resolve G uri"
  for libs env R git last_release resolve G uri
proof (intro release_controller.intro release_controller_axioms.intro, goal_cases)
  case 1
  then show ?case using conds.condition_laws_axioms by (simp add: manager_reconciler_def)
next
  case 2
  then show ?case using main.pipeline_handlers_axioms by (simp add: manager_reconciler_def)
next
  case 3
  then show ?case by (simp add: manager_reconciler_def)
qed (simp_all add: manager_reconciler_def sorted_list_of_fset.rep_eq)

end
