(* ===== verification/Controller_Properties.thy ===== *)
theory Controller_Properties
  imports Controller_Lemmas
begin

text \<open>
  The properties of the release controller: when it records a version, what it does before it has
  upgraded itself, how it chooses the nodes to drain, how it cleans up, and how it writes the status.
\<close>

section \<open>A small controller\<close>

text \<open>A cluster where every plan is complete and the node runs the target version, with a release
  that has passed the gate.\<close>

definition witness_manifest :: ResolvedManifest where
  "witness_manifest =
     \<lparr>rm_core = Some \<lparr>core_os_image = Some ''os:2'',
                      core_kubernetes = Some \<lparr>mk_image = [], mk_version = ''v2''\<rparr>, core_helm = None\<rparr>,
      rm_solution = None\<rparr>"

definition witness_registry :: "(unit, string) registry" where
  "witness_registry = \<lparr>reg_parse_reference = Ok, reg_image = (\<lambda>_. ok [TarFile manifestPath (Ok [])])\<rparr>"

definition witness_controller_libs :: "unit ReleaseReconciler" where
  "witness_controller_libs =
     \<lparr>rc_client = witness_rke2_kube, rc_helm_client = \<lparr>RetrieveRelease = (\<lambda>_. raise ReleaseNotFound)\<rparr>,
      rc_pipeline = [], rc_retrieve_manifest = (\<lambda>_ _. raise (Errorf [])),
      rc_read_manifest = (\<lambda>_. raise (Errorf [])), rc_parse_core = (\<lambda>_. Err (Errorf [])),
      rc_parse_solution = (\<lambda>_. Ok []), rc_conditions = list_conditions, rc_helm_libs = witness_libs,
      rc_manifest_codec = \<lparr>manifest_marshal = (\<lambda>_. Ok ''m''), manifest_unmarshal = (\<lambda>_. Ok witness_manifest)\<rparr>,
      rc_new_tag = witness_tag, rc_range = sorted_list_of_fset, rc_status_equal = (=), rc_retries = 4\<rparr>"

definition witness_controller :: "unit ReleaseReconciler" where
  "witness_controller = manager_reconciler (ordered_libs witness_controller_libs) [] witness_rke2_libs
     ''v1.33.1+rke2r1'' (\<lambda>_. raise ReleaseNotFound) (\<lambda>read ref. ok witness_manifest) witness_registry (\<lambda>m. m)"

definition witness_ctl :: "unit ctl" where
  "witness_ctl = \<lparr>ct_raw = fmempty,
     ct_release = setCondition list_conditions ConditionLCMUpgraded ConditionTrue UpgradeSucceeded [] witness_release,
     ct_world = ()\<rparr>"

lemma witness_controller: "release_controller witness_controller"
  unfolding witness_controller_def by (rule manager.release_controller_axioms)

section \<open>Properties\<close>

text \<open>
  C4. A version is recorded as applied only when everything is: whenever a reconciliation changes
  \<open>status.version\<close>, it becomes the target version, the manager's own upgrade and every phase of the
  pipeline are shown as successful, and the Applied condition says so.
\<close>

theorem version_means_applied:
  assumes "release_controller r" and "run_state (reconcileNormal r) s = (res, s')"
    and "status_version (rel_status (ct_release s')) \<noteq> status_version (rel_status (ct_release s))"
  shows "status_version (rel_status (ct_release s')) = spec_version (rel_spec (ct_release s))
     \<and> true_view (view (rc_conditions r) (ct_release s') ConditionLCMUpgraded)
     \<and> (\<forall>p \<in> set (Phases (rc_pipeline r)). true_view (view (rc_conditions r) (ct_release s') (ConditionType p)))
     \<and> view (rc_conditions r) (ct_release s') ConditionApplied
         = Some (ConditionTrue, UpgradeSucceeded, ''All upgrade phases completed successfully'')"
  using release_controller.version_recorded [OF assms] by blast

theorem version_means_applied_witness:
  "view list_conditions (ct_release (snd (run_state (reconcileNormal witness_controller) witness_ctl))) ConditionApplied
     = Some (ConditionTrue, UpgradeSucceeded, ''All upgrade phases completed successfully'')"
proof -
  let ?s' = "snd (run_state (reconcileNormal witness_controller) witness_ctl)"
  have "status_version (rel_status (ct_release ?s')) \<noteq> status_version (rel_status (ct_release witness_ctl))"
    by code_simp
  moreover have "rc_conditions witness_controller = list_conditions"
    by (simp add: witness_controller_def manager_reconciler_def)
  ultimately show ?thesis
    using version_means_applied [OF witness_controller surjective_pairing] by simp
qed

subsection \<open>The gate of the self-upgrade\<close>

lemma quiet_attempt: "attempt (quiet m) (\<lambda>a. quiet (f a)) = quiet (attempt m f)"
  by (rule state.expand, rule ext)
    (auto simp: run_attempt run_quiet quiet_def split: prod.splits outcome.splits)

lemma quiet_pure: "quiet (pure_call x) = pure_call x" "quiet (ok a) = ok a" "quiet (raise e) = raise e"
  by (auto intro!: state.expand ext simp: quiet_def)

lemma quiet_wrap: "wrap p (quiet m) = quiet (wrap p m)"
  by (rule state.expand, rule ext) (auto simp: run_wrap run_quiet quiet_def split: prod.splits)

text \<open>Reading through quiet clients is quiet.\<close>

lemma quiet_StorageClient: "StorageClient (\<lambda>n. quiet (stored n)) = logged_helm (StorageClient stored)"
proof -
  have "StorageClient_RetrieveRelease (\<lambda>n. quiet (stored n)) name = quiet (StorageClient_RetrieveRelease stored name)" for name
    unfolding StorageClient_RetrieveRelease_def quiet_attempt [symmetric]
    by (rule arg_cong [where f = "attempt (quiet (stored name))"])
      (auto simp: quiet_pure split: storage_release.split)
  then show ?thesis by (simp add: StorageClient_def logged_helm_def fun_eq_iff)
qed

lemma quiet_ReadManifest:
  "ReadManifest \<lparr>reg_parse_reference = ref_of, reg_image = (\<lambda>i. quiet (fetch i))\<rparr> u
     = quiet (ReadManifest \<lparr>reg_parse_reference = ref_of, reg_image = fetch\<rparr> u)"
  by (simp only: ReadManifest_def ReadURI_def registry.simps quiet_attempt [symmetric] quiet_wrap [symmetric]
      quiet_pure)


text \<open>A controller that finds one of its charts installed and has no HelmChart for it yet.\<close>

definition gate_libs :: "unit logged ReleaseReconciler" where
  "gate_libs =
     \<lparr>rc_client = logged_kube witness_kube, rc_helm_client = logged_helm \<lparr>RetrieveRelease = (\<lambda>_. raise ReleaseNotFound)\<rparr>,
      rc_pipeline = [], rc_retrieve_manifest = (\<lambda>_ _. raise (Errorf [])),
      rc_read_manifest = (\<lambda>_. raise (Errorf [])),
      rc_parse_core = (\<lambda>_. Ok \<lparr>lc_charts = [\<lparr>lc_chart = elementalLifecycleManager, lc_repository = ''repo'',
                                             lc_version = ''2'', lc_values = None\<rparr>],
                               lc_repositories = [(''repo'', ''oci://charts'')]\<rparr>),
      rc_parse_solution = (\<lambda>_. Ok []), rc_conditions = list_conditions, rc_helm_libs = witness_libs,
      rc_manifest_codec = \<lparr>manifest_marshal = (\<lambda>_. Ok ''m''), manifest_unmarshal = (\<lambda>_. Ok witness_manifest)\<rparr>,
      rc_new_tag = witness_tag, rc_range = sorted_list_of_fset, rc_status_equal = (=), rc_retries = 4\<rparr>"

definition gate_storage :: "string \<Rightarrow> (unit, storage_release) io" where
  "gate_storage n = ok (V1Release \<lparr>sr_chart_version = ''1'', sr_namespace = ''ns'', sr_config = None, sr_version = 1\<rparr>)"

definition gate_controller :: "unit logged ReleaseReconciler" where
  "gate_controller = manager_reconciler (ordered_libs gate_libs) [] witness_rke2_libs ''v1.33.1+rke2r1''
     (\<lambda>n. quiet (gate_storage n)) (\<lambda>read ref. ok witness_manifest)
     \<lparr>reg_parse_reference = Ok, reg_image = (\<lambda>_. quiet (ok [TarFile manifestPath (Ok [])]))\<rparr> (\<lambda>m. m)"

definition gate_ctl :: "unit logged ctl" where
  "gate_ctl = \<lparr>ct_raw = fmempty, ct_release = witness_release, ct_world = ((), [])\<rparr>"


subsection \<open>A new target\<close>

text \<open>
  C26. A new target starts afresh: when the generation of the Release has not been observed, the
  reconciliation makes no call and keeps no old condition. It records the generation, marks the
  self-upgrade, the manifest, every phase and the whole as pending, and asks to run again at once.
\<close>

theorem new_target_starts_pending:
  assumes "release_controller r"
    and "status_observed_generation (rel_status (ct_release s)) \<noteq> rel_generation (ct_release s)"
  shows "\<exists>s'. run_state (reconcileNormal r) s = (Ok \<lparr>requeue_after = 1\<rparr>, s')
     \<and> ct_world s' = ct_world s \<and> ct_raw s' = ct_raw s
     \<and> status_observed_generation (rel_status (ct_release s')) = rel_generation (ct_release s)
     \<and> (\<forall>t. if t \<in> {ConditionLCMUpgraded, ConditionManifestResolved, ConditionApplied}
                    \<union> ConditionType ` set (Phases (rc_pipeline r))
            then \<exists>m. view (rc_conditions r) (ct_release s') t = Some (ConditionFalse, UpgradePending, m)
            else view (rc_conditions r) (ct_release s') t = None)"
  using assms(2) view_observe_generation [OF release_controller.axioms(1) [OF assms(1)], of "ct_release s"]
  by (simp add: reconcileNormal_def run_ctl run_attempt observe_generation_simps)

theorem new_target_starts_pending_witness:
  "\<exists>s'. run_state (reconcileNormal witness_controller)
       (witness_ctl\<lparr>ct_release := witness_release\<lparr>rel_generation := 2\<rparr>\<rparr>) = (Ok \<lparr>requeue_after = 1\<rparr>, s')
     \<and> status_observed_generation (rel_status (ct_release s')) = 2"
  using new_target_starts_pending [OF witness_controller,
      of "witness_ctl\<lparr>ct_release := witness_release\<lparr>rel_generation := 2\<rparr>\<rparr>"]
  by (auto simp: witness_release_def)

subsection \<open>Draining\<close>

lemma count_nodes:
  "foldl (\<lambda>(c, w) node. if P node then (Suc c, w) else (c, Suc w)) (a, b) nodes
     = (a + length (filter P nodes), b + length (filter (\<lambda>n. \<not> P n) nodes))"
  by (induction nodes arbitrary: a b) auto

text \<open>
  Nodes are drained only where others can take over: a group is drained when it has more than one
  node, the workers exactly then, the control plane also when there is none of it and the workers
  are drained; the only node of a group never is.
\<close>

theorem parseDrainOpts_spec:
  assumes "\<not> spec_disable_drain (rel_spec release)"
    and "run_state (list_nodes K AllNodes) w = (Ok nodes, w')"
  shows "\<exists>opts. run_state (parseDrainOpts K release) w = (Ok opts, w')
     \<and> (let cp = length (filter (\<lambda>n. node_labels n ControlPlaneLabel \<noteq> None) nodes);
            wk = length (filter (\<lambda>n. node_labels n ControlPlaneLabel = None) nodes)
        in (drain_worker opts \<longleftrightarrow> wk > 1)
         \<and> (drain_control_plane opts \<longleftrightarrow> cp > 1 \<or> cp = 0 \<and> wk > 1))"
proof -
  have "drain_worker (drain_for c k) \<longleftrightarrow> k > 1" "drain_control_plane (drain_for c k) \<longleftrightarrow> c > 1 \<or> c = 0 \<and> k > 1" for c k
    by (auto simp: drain_for_def)
  then show ?thesis
    using assms by (simp add: parseDrainOpts_def run_attempt run_wrap count_nodes Let_def)
qed

theorem parseDrainOpts_spec_witness:
  "fst (run_state (parseDrainOpts (witness_kube\<lparr>list_nodes := \<lambda>_. ok [witness_node, witness_node]\<rparr>) witness_release) ())
     = Ok \<lparr>drain_control_plane = True, drain_worker = True\<rparr>"
proof -
  let ?K = "witness_kube\<lparr>list_nodes := \<lambda>_. ok [witness_node, witness_node]\<rparr>"
  have "\<not> spec_disable_drain (rel_spec witness_release)" by (simp add: witness_release_def)
  moreover have "run_state (list_nodes ?K AllNodes) () = (Ok [witness_node, witness_node], ())" by simp
  ultimately obtain opts where "run_state (parseDrainOpts ?K witness_release) () = (Ok opts, ())"
    "drain_worker opts" "drain_control_plane opts"
    using parseDrainOpts_spec by (fastforce simp: witness_node_def Let_def)
  then show ?thesis by simp
qed

subsection \<open>Cleaning up\<close>

lemma delete_plans_all:
  assumes "\<And>p w q. fst (run_state (delete_plan K p) w) \<noteq> Panic q"
  shows "\<exists>results errs w2. run_state (delete_plans (logged_kube K) ps) (w, evs)
        = (Ok errs, (w2, evs @ map2 DeletePlan ps results))
      \<and> length results = length ps \<and> (errs = [] \<longleftrightarrow> set results \<subseteq> {Ok ()})"
proof (induction ps arbitrary: w evs)
  case Nil
  then show ?case by simp
next
  case (Cons p ps)
  obtain r w1 where r: "run_state (delete_plan K p) w = (r, w1)" by fastforce
  obtain results errs w2 where ih:
    "run_state (delete_plans (logged_kube K) ps) (w1, evs @ [DeletePlan p r])
       = (Ok errs, (w2, (evs @ [DeletePlan p r]) @ map2 DeletePlan ps results))"
    "length results = length ps" "errs = [] \<longleftrightarrow> set results \<subseteq> {Ok ()}"
    using Cons.IH [of w1 "evs @ [DeletePlan p r]"] by blast
  show ?case
  proof (cases r)
    case (Ok u)
    then show ?thesis
      using ih r by (intro exI [of _ "r # results"] exI [of _ errs] exI [of _ w2])
        (simp add: run_handle run_noted)
  next
    case (Err e)
    then show ?thesis
      using ih r
      by (intro exI [of _ "r # results"] exI [of _ "Wrapf (''deleting plan '' @ plan_name p) e # errs"] exI [of _ w2])
        (simp add: run_handle run_noted run_attempt)
  next
    case (Panic q)
    then show ?thesis using r assms [of p w q] by simp
  qed
qed

text \<open>
  C21. The cleanup tries to delete every plan of the old version, once and in order, whatever happens
  to the others, and reports success exactly when all of them were deleted.
\<close>

theorem cleanup_deletes_all:
  assumes "run_state (list_plans K PlanNamespace (release_labels name old)) w = (Ok plans, w1)"
    and "\<And>p w q. fst (run_state (delete_plan K p) w) \<noteq> Panic q"
  shows "\<exists>results. length results = length plans
     \<and> log_of (cleanupOldVersionPlans (logged_kube K) name old) w = map2 DeletePlan plans results
     \<and> (fst (run_state (cleanupOldVersionPlans (logged_kube K) name old) (w, [])) = Ok () \<longleftrightarrow> set results \<subseteq> {Ok ()})"
proof -
  obtain results errs w2 where "run_state (delete_plans (logged_kube K) plans) (w1, [])
      = (Ok errs, (w2, map2 DeletePlan plans results))"
    "length results = length plans" "errs = [] \<longleftrightarrow> set results \<subseteq> {Ok ()}"
    using delete_plans_all [of K plans w1 "[]"] assms(2) by auto
  then show ?thesis
    using assms(1)
    by (intro exI [of _ results])
      (auto simp: cleanupOldVersionPlans_def log_of_def run_attempt run_wrap run_quiet)
qed

theorem cleanup_deletes_all_witness:
  "\<exists>r. log_of (cleanupOldVersionPlans (logged_kube (witness_kube
        \<lparr>list_plans := \<lambda>_ _. ok [witness_plan \<lparr>nn_namespace = [], nn_name = ''old''\<rparr>]\<rparr>)) ''r'' ''1'') ()
     = [DeletePlan (witness_plan \<lparr>nn_namespace = [], nn_name = ''old''\<rparr>) r]"
proof -
  let ?p = "witness_plan \<lparr>nn_namespace = [], nn_name = ''old''\<rparr>"
  let ?K = "witness_kube\<lparr>list_plans := \<lambda>_ _. ok [?p]\<rparr>"
  have listed: "run_state (list_plans ?K PlanNamespace (release_labels ''r'' ''1'')) () = (Ok [?p], ())" by simp
  have safe: "fst (run_state (delete_plan ?K p) w) \<noteq> Panic q" for p w q by (simp add: witness_kube_def)
  obtain results where "length results = length [?p]"
    "log_of (cleanupOldVersionPlans (logged_kube ?K) ''r'' ''1'') () = map2 DeletePlan [?p] results"
    using cleanup_deletes_all [OF listed safe] by blast
  then show ?thesis by (cases results) auto
qed

text \<open>
  The plans that are listed for deletion are found by the sanitized version: when the old and the new
  version sanitize to the same text, the labels are those of the new plans.
\<close>

lemma cleanup_labels: "release_labels n old = release_labels n new \<longleftrightarrow> SanitizeVersion old = SanitizeVersion new"
proof
  assume "release_labels n old = release_labels n new"
  from fun_cong [OF this, of ReleaseVersionLabel] show "SanitizeVersion old = SanitizeVersion new"
    by simp
qed (simp add: release_labels_def)

theorem same_label_versions:
  "release_labels n ''1.0.0+a'' = release_labels n ''1.0.0-a''"
proof -
  have "SanitizeVersion ''1.0.0+a'' = SanitizeVersion ''1.0.0-a''" by code_simp
  then show ?thesis by (simp add: release_labels_def)
qed

subsection \<open>Writing the status\<close>

text \<open>
  C28. The status is written before an error is returned: whatever \<open>reconcileNormal\<close> returned, when it
  changed the status the new status is written, and the error of the reconciliation is returned
  with it, joined with the error of the write if that failed too.
\<close>

theorem status_written_despite_errors:
  assumes "run_state (get_release (rc_client r) req) (ct_world s) = (Ok original, w1)"
    and "run_state (reconcileNormal r) (s\<lparr>ct_release := original, ct_world := w1\<rparr>) = (res, s2)"
    and "\<And>p. res \<noteq> Panic p"
    and "\<not> rc_status_equal r (rel_status original) (rel_status (ct_release s2))"
    and "run_state (updateReleaseStatus r req (rel_status (ct_release s2))) (ct_world s2) = (u, w3)"
  shows "run_state (Reconcile r req) s =
     (case u of
        Ok _ \<Rightarrow> res
      | Err e \<Rightarrow> Err (Joined ((case res of Err e' \<Rightarrow> [e'] | _ \<Rightarrow> []) @ [e]))
      | Panic p \<Rightarrow> Panic p, s2\<lparr>ct_world := w3\<rparr>)"
proof -
  have swap: "s\<lparr>ct_world := w1, ct_release := original\<rparr> = s\<lparr>ct_release := original, ct_world := w1\<rparr>" by simp
  have result: "run_state (reconcile_result r) (s\<lparr>ct_release := original, ct_world := w1\<rparr>) = (Ok res, s2)"
    using assms(2,3) by (cases res) (simp_all add: reconcile_result_def run_handle, blast)
  show ?thesis
    using assms(1,4,5) result
    by (cases u; cases res) (simp_all add: Reconcile_def run_handle run_attempt run_ctl join_errors_def swap)
qed

theorem status_written_despite_errors_witness:
  "\<exists>s'. run_state (Reconcile (witness_controller\<lparr>rc_client := witness_kube\<lparr>get_release := \<lambda>_. ok (witness_release\<lparr>rel_generation := 2\<rparr>)\<rparr>\<rparr>)
       \<lparr>nn_namespace = ''ns'', nn_name = ''r''\<rparr>) witness_ctl = (Ok \<lparr>requeue_after = 1\<rparr>, s')"
proof -
  let ?rel = "witness_release\<lparr>rel_generation := 2\<rparr>"
  let ?r = "witness_controller\<lparr>rc_client := witness_kube\<lparr>get_release := \<lambda>_. ok ?rel\<rparr>\<rparr>"
  let ?s = "witness_ctl\<lparr>ct_release := ?rel, ct_world := ()\<rparr>"
  let ?s2 = "?s\<lparr>ct_release := observe_generation ?r ?rel\<rparr>"
  have get: "run_state (get_release (rc_client ?r) \<lparr>nn_namespace = ''ns'', nn_name = ''r''\<rparr>) (ct_world witness_ctl)
      = (Ok ?rel, ())" by simp
  have normal: "run_state (reconcileNormal ?r) ?s = (Ok \<lparr>requeue_after = 1\<rparr>, ?s2)"
    by (simp add: reconcileNormal_def run_ctl run_attempt witness_release_def)
  have "status_observed_generation (rel_status (observe_generation ?r ?rel)) = 2"
    by code_simp
  then have "rel_status ?rel \<noteq> rel_status (ct_release ?s2)" by (auto simp: witness_release_def)
  then have diff: "\<not> rc_status_equal ?r (rel_status ?rel) (rel_status (ct_release ?s2))"
    by (simp add: witness_controller_def manager_reconciler_def witness_controller_libs_def)
  have upd: "run_state (updateReleaseStatus ?r \<lparr>nn_namespace = ''ns'', nn_name = ''r''\<rparr> (rel_status (ct_release ?s2)))
      (ct_world ?s2) = (Ok (), ())"
    by (cases "rc_retries ?r") (simp_all add: updateReleaseStatus_def run_handle witness_kube_def)
  from status_written_despite_errors [OF get normal _ diff upd] show ?thesis by simp
qed

text \<open>What one attempt of a status update writes, and the attempts up to a bound.\<close>

definition written_once :: "ReleaseStatus \<Rightarrow> unit outcome \<Rightarrow> event list \<Rightarrow> bool" where
  "written_once status res evs \<longleftrightarrow>
     evs = [] \<or> (\<exists>rel. rel_status rel = status \<and> evs = [UpdateReleaseStatus rel res])"

definition written_tries :: "ReleaseStatus \<Rightarrow> nat \<Rightarrow> event list \<Rightarrow> bool" where
  "written_tries status n evs \<longleftrightarrow> (\<exists>tries. evs = map (\<lambda>(rel, u). UpdateReleaseStatus rel u) tries
     \<and> length tries \<le> n
     \<and> list_all (\<lambda>(rel, u). rel_status rel = status) tries
     \<and> list_all (\<lambda>(rel, u). \<exists>e. u = Err e \<and> is_conflict e) (butlast tries))"

lemma written_once_tries:
  assumes "written_once status res evs"
  shows "written_tries status (Suc n) evs"
  using assms unfolding written_once_def written_tries_def
  by (elim disjE exE) (auto intro: exI [of _ "[]"] exI [of _ "[(rel, res)]" for rel])

lemma written_tries_append:
  assumes "written_once status (Err e) evs" and "is_conflict e" and "written_tries status n evs'"
  shows "written_tries status (Suc n) (evs @ evs')"
proof -
  obtain tries where tries: "evs' = map (\<lambda>(rel, u). UpdateReleaseStatus rel u) tries" "length tries \<le> n"
    "list_all (\<lambda>(rel, u). rel_status rel = status) tries"
    "list_all (\<lambda>(rel, u). \<exists>e. u = Err e \<and> is_conflict e) (butlast tries)"
    using assms(3) unfolding written_tries_def by blast
  from assms(1) show ?thesis
    unfolding written_once_def
  proof (elim disjE exE)
    assume "evs = []"
    then show ?thesis using tries unfolding written_tries_def by (intro exI [of _ tries]) simp
  next
    fix rel
    assume "rel_status rel = status \<and> evs = [UpdateReleaseStatus rel (Err e)]"
    then show ?thesis
      using tries assms(2) unfolding written_tries_def by (intro exI [of _ "(rel, Err e) # tries"]) auto
  qed
qed

lemma update_once:
  "emits (handle (get_release (logged_kube K) nn) (\<lambda>err. pure_call (ignore_not_found err))
      (\<lambda>latest. update_release_status (logged_kube K) (latest\<lparr>rel_status := status\<rparr>))) (written_once status)"
  unfolding logged_kube_simps
proof (rule emits_handle, rule emits_quiet, goal_cases)
  case (1 q)
  show ?case
  proof (cases q)
    case (Ok a)
    show ?thesis
      unfolding Ok outcome.case
      by (rule emits_noted) (auto simp: written_once_def intro!: exI [of _ "a\<lparr>rel_status := status\<rparr>"])
  next
    case (Err e)
    show ?thesis unfolding Err outcome.case by (rule emits_simple(4)) (simp add: written_once_def)
  qed (simp add: written_once_def)
qed

lemma retries_bounded:
  assumes "emits m (written_once status)"
  shows "emits (retry_on_conflict n m) (\<lambda>res. written_tries status (Suc n))"
proof (induction n)
  case 0
  show ?case unfolding retry_on_conflict.simps by (rule emits_mono [OF assms]) (rule written_once_tries)
next
  case (Suc n)
  show ?case
    unfolding retry_on_conflict.simps
  proof (rule emits_handle, rule emits_mono [OF assms], goal_cases)
    case (1 res evs)
    note once = written_once_tries [OF this]
    show ?case
    proof (cases res)
      case (Err e)
      show ?thesis
        unfolding Err outcome.case
      proof (split if_split, intro conjI impI)
        assume "is_conflict e"
        then show "emits (retry_on_conflict n m) (\<lambda>r n2. written_tries status (Suc (Suc n)) (evs @ n2))"
          using written_tries_append 1 unfolding Err by (intro emits_mono [OF Suc.IH])
      next
        show "emits (raise e) (\<lambda>r n2. written_tries status (Suc (Suc n)) (evs @ n2))"
          using once by (intro emits_simple) simp
      qed
    qed (use once in \<open>auto intro: emits_simple\<close>)
  qed
qed

text \<open>
  C29. A status update is bounded: it writes at most once more often than it retries, each time the
  same status on the Release as read just before, and goes on only after a conflict.
\<close>

theorem status_update_bounded:
  "emits (updateReleaseStatus (r\<lparr>rc_client := logged_kube K\<rparr>) nn status) (\<lambda>res evs.
     \<exists>tries. evs = map (\<lambda>(rel, u). UpdateReleaseStatus rel u) tries
       \<and> length tries \<le> Suc (rc_retries r)
       \<and> list_all (\<lambda>(rel, u). rel_status rel = status) tries
       \<and> list_all (\<lambda>(rel, u). \<exists>e. u = Err e \<and> is_conflict e) (butlast tries))"
  using retries_bounded [OF update_once, unfolded written_tries_def] by (simp add: updateReleaseStatus_def)

subsection \<open>Events lead back to the Release\<close>

text \<open>
  The work the controller starts wakes it up again: with the one Release that the webhook allows,
  an event of a plan or a HelmChart that carries the labels of the release maps to a request for
  that Release, and one that carries no release label to none.
\<close>

theorem own_events_lead_back:
  assumes "run_state (list_releases K) w = (Ok [rel], w')" and "rel_name rel \<noteq> []"
  shows "(plan_labels plan = release_labels (rel_name rel) v \<longrightarrow>
        run_state (mapPlanToRelease K plan) w = (Ok [release_nn rel], w'))
     \<and> (hcr_namespace chart = HelmChartNamespace \<and> hcr_labels chart ReleaseNameLabel = Some (rel_name rel) \<longrightarrow>
        run_state (mapHelmChartToRelease K chart) w = (Ok [release_nn rel], w'))
     \<and> (plan_labels plan ReleaseNameLabel = None \<longrightarrow> run_state (mapPlanToRelease K plan) w = (Ok [], w))"
  using assms
  by (simp add: mapPlanToRelease_def mapHelmChartToRelease_def release_requests_def label_value_def
      run_handle)

theorem own_events_lead_back_witness:
  "run_state (mapPlanToRelease (witness_kube\<lparr>list_releases := ok [witness_release]\<rparr>)
      (KubernetesControlPlane ''r'' ''1.0.0'' ''v2'' True)) () = (Ok [release_nn witness_release], ())"
proof -
  let ?K = "witness_kube\<lparr>list_releases := ok [witness_release]\<rparr>"
  have listed: "run_state (list_releases ?K) () = (Ok [witness_release], ())" by simp
  have name: "rel_name witness_release \<noteq> []" by (simp add: witness_release_def)
  have "plan_labels (KubernetesControlPlane ''r'' ''1.0.0'' ''v2'' True)
      = release_labels (rel_name witness_release) ''1.0.0''"
    by (simp add: KubernetesControlPlane_def witness_release_def)
  then show ?thesis using own_events_lead_back [OF listed name] by blast
qed

subsection \<open>Resolving the manifest\<close>

text \<open>
  C33. Trouble with the manifest cache never stops an upgrade: the only error that resolving the
  manifest returns is one of the registry, and a manifest that is cached is returned without
  asking the registry, whichever registry the Release now names.
\<close>

theorem manifest_cache_optional:
  "(\<forall>e w'. run_state (getOrRetrieveManifest r rel) w = (Err e, w') \<longrightarrow>
      (\<exists>w1 w2. run_state (rc_retrieve_manifest r (spec_registry (rel_spec rel)) (spec_version (rel_spec rel))) w1
         = (Err e, w2)))
   \<and> (\<forall>m w'. run_state (ManifestCache_Get (rc_manifest_codec r) (rc_client r) (rel_namespace rel)
                   (spec_version (rel_spec rel))) w = (Ok (Some m), w') \<longrightarrow>
      run_state (getOrRetrieveManifest r rel) w = (Ok m, w'))"
proof (intro conjI allI impI)
  fix e w'
  let ?get = "ManifestCache_Get (rc_manifest_codec r) (rc_client r) (rel_namespace rel) (spec_version (rel_spec rel))"
  let ?fetch = "rc_retrieve_manifest r (spec_registry (rel_spec rel)) (spec_version (rel_spec rel))"
  assume err: "run_state (getOrRetrieveManifest r rel) w = (Err e, w')"
  obtain g w1 where g: "run_state ?get w = (g, w1)" by fastforce
  obtain q w2 where q: "run_state ?fetch w1 = (q, w2)" by fastforce
  have "q = Err e"
    using err g q
    by (cases g; cases q)
      (auto simp: getOrRetrieveManifest_def Let_def run_handle run_attempt split: option.splits prod.splits outcome.splits)
  with q show "\<exists>w1 w2. run_state ?fetch w1 = (Err e, w2)" by blast
next
  fix m w'
  assume "run_state (ManifestCache_Get (rc_manifest_codec r) (rc_client r) (rel_namespace rel)
                   (spec_version (rel_spec rel))) w = (Ok (Some m), w')"
  then show "run_state (getOrRetrieveManifest r rel) w = (Ok m, w')"
    by (simp add: getOrRetrieveManifest_def Let_def run_handle)
qed

theorem manifest_cache_optional_witness:
  "fst (run_state (getOrRetrieveManifest (witness_controller\<lparr>rc_client := witness_kube
        \<lparr>get_config_map := \<lambda>_. ok (new_cache ''ns'' ''2'' ''cached'')\<rparr>\<rparr>) witness_release) ()) = Ok witness_manifest"
proof -
  let ?r = "witness_controller\<lparr>rc_client := witness_kube\<lparr>get_config_map := \<lambda>_. ok (new_cache ''ns'' ''2'' ''cached'')\<rparr>\<rparr>"
  have "run_state (ManifestCache_Get (rc_manifest_codec ?r) (rc_client ?r) (rel_namespace witness_release)
      (spec_version (rel_spec witness_release))) () = (Ok (Some witness_manifest), ())"
    by (simp add: ManifestCache_Get_def run_attempt run_wrap cache_get_def run_handle new_cache_def
        witness_controller_def manager_reconciler_def witness_controller_libs_def witness_release_def)
  then show ?thesis
    using conjunct2 [OF manifest_cache_optional, rule_format, of ?r witness_release "()" witness_manifest "()"] by simp
qed

subsection \<open>A failed self-upgrade\<close>

text \<open>
  C24. A self-upgrade that fails ends the reconciliation: nothing of the platform is touched, the
  conditions of the self-upgrade and of the whole say Failed, the first with the cause, and no error
  is returned, so the controller waits for the next event of a chart instead of retrying.
\<close>

theorem failed_self_upgrade_stops:
  assumes "release_controller r"
    and "status_observed_generation (rel_status (ct_release s)) = rel_generation (ct_release s)"
    and "\<not> true_view (view (rc_conditions r) (ct_release s) ConditionLCMUpgraded)"
    and "run_state (lcmUpgradeConfig r (ct_release s)) s = (Ok config, s1)"
    and "run_state (ph_reconcile (NewHelmReconciler (rc_helm_libs r) (rc_client r) (rc_helm_client r) True) (Some config))
           (ct_world s1) = (Err e, w2)"
  shows "\<exists>s'. run_state (reconcileNormal r) s = (Ok \<lparr>requeue_after = 0\<rparr>, s') \<and> ct_world s' = w2
     \<and> view (rc_conditions r) (ct_release s') ConditionLCMUpgraded = Some (ConditionFalse, UpgradeFailed, err_msg e)
     \<and> view (rc_conditions r) (ct_release s') ConditionApplied
         = Some (ConditionFalse, UpgradeFailed, ''Upgrade failed as LCM upgrade failed'')"
proof -
  let ?CL = "rc_conditions r"
  note laws = release_controller.axioms(1) [OF assms(1)]
  have gate: "\<not> IsStatusConditionTrue ?CL (release_conditions (ct_release s)) ConditionLCMUpgraded"
    using assms(3) unfolding condition_laws.is_true [OF laws]
    by (auto simp: true_view_def view_def find_release_condition_def view_of_def)
  let ?rel = "setPhaseConditionFromError ?CL (PhaseError PhaseLCM e) (ct_release s1)"
  have lcm: "run_state (lcm_phase r) s = (Ok (Some \<lparr>requeue_after = 0\<rparr>), s1\<lparr>ct_world := w2, ct_release := ?rel\<rparr>)"
    using assms(4,5) gate by (simp add: lcm_phase_def Let_def run_ctl run_handle run_attempt reconcileLCM_def)
  let ?s' = "s1\<lparr>ct_world := w2, ct_release := updateAppliedCondition ?CL (Phases (rc_pipeline r)) ?rel\<rparr>"
  have "run_state (reconcileNormal r) s = (Ok \<lparr>requeue_after = 0\<rparr>, ?s')"
    using assms(2) lcm by (simp add: reconcileNormal_def run_ctl run_attempt)
  moreover have "view ?CL ?rel ConditionLCMUpgraded = Some (ConditionFalse, UpgradeFailed, err_msg e)"
    by (simp add: setPhaseConditionFromError_def condition_laws.view_setCondition [OF laws])
  ultimately show ?thesis
    by (intro exI [of _ ?s'])
      (simp add: condition_laws.view_updateApplied_other [OF laws] condition_laws.view_updateApplied [OF laws])
qed

theorem failed_self_upgrade_stops_witness:
  "\<exists>s'. run_state (reconcileNormal (gate_controller\<lparr>rc_client := logged_kube (witness_kube
          \<lparr>get_helm_chart := \<lambda>_. raise (Errorf ''boom'')\<rparr>)\<rparr>)) gate_ctl = (Ok \<lparr>requeue_after = 0\<rparr>, s')
     \<and> view list_conditions (ct_release s') ConditionApplied
         = Some (ConditionFalse, UpgradeFailed, ''Upgrade failed as LCM upgrade failed'')"
proof -
  let ?r = "gate_controller\<lparr>rc_client := logged_kube (witness_kube\<lparr>get_helm_chart := \<lambda>_. raise (Errorf ''boom'')\<rparr>)\<rparr>"
  have "release_controller gate_controller"
    unfolding gate_controller_def by (rule manager.release_controller_axioms)
  then have r: "release_controller ?r"
    by (simp add: release_controller_def release_controller_axioms_def)
  have conds: "rc_conditions ?r = list_conditions"
    by (simp add: gate_controller_def manager_reconciler_def)
  have gen: "status_observed_generation (rel_status (ct_release gate_ctl)) = rel_generation (ct_release gate_ctl)"
    by (simp add: gate_ctl_def witness_release_def)
  have lcm: "\<not> true_view (view (rc_conditions ?r) (ct_release gate_ctl) ConditionLCMUpgraded)"
    by (simp add: conds gate_ctl_def true_view_def view_def find_release_condition_def release_conditions_def
        witness_release_def list_conditions_def)
  obtain c s1 where c: "run_state (lcmUpgradeConfig ?r (ct_release gate_ctl)) gate_ctl = (c, s1)" by fastforce
  have "(case fst (run_state (lcmUpgradeConfig ?r (ct_release gate_ctl)) gate_ctl) of Ok config \<Rightarrow>
      (case fst (run_state (ph_reconcile (NewHelmReconciler (rc_helm_libs ?r) (rc_client ?r) (rc_helm_client ?r) True)
          (Some config)) (ct_world (snd (run_state (lcmUpgradeConfig ?r (ct_release gate_ctl)) gate_ctl)))) of
        Err e \<Rightarrow> True | _ \<Rightarrow> False) | _ \<Rightarrow> False)"
    by code_simp
  then have "case c of Ok config \<Rightarrow>
      (case fst (run_state (ph_reconcile (NewHelmReconciler (rc_helm_libs ?r) (rc_client ?r) (rc_helm_client ?r) True)
          (Some config)) (ct_world s1)) of Err e \<Rightarrow> True | _ \<Rightarrow> False) | _ \<Rightarrow> False"
    unfolding c fst_conv snd_conv .
  then obtain config where config: "c = Ok config"
    and failed: "case fst (run_state (ph_reconcile (NewHelmReconciler (rc_helm_libs ?r) (rc_client ?r) (rc_helm_client ?r) True)
          (Some config)) (ct_world s1)) of Err e \<Rightarrow> True | _ \<Rightarrow> False"
    by (cases c) (simp_all only: outcome.case)
  obtain q w2 where q: "run_state (ph_reconcile (NewHelmReconciler (rc_helm_libs ?r) (rc_client ?r) (rc_helm_client ?r) True)
          (Some config)) (ct_world s1) = (q, w2)" by (rule prod.exhaust)
  obtain e where e: "q = Err e"
    using failed unfolding q fst_conv by (cases q) (simp_all only: outcome.case)
  from failed_self_upgrade_stops [OF r gen lcm c [unfolded config] q [unfolded e]] show ?thesis
    unfolding conds by blast
qed

end
