(* ===== verification/Release_Lifecycle.thy ===== *)
theory Release_Lifecycle
  imports Controller_Properties
begin

text \<open>
  A Release over time. The life of a Release as its user may rely on it is a small state machine; the
  cluster, where the controller reconciles, loses status updates and is restarted, other controllers
  act, and the user edits the Release, is a step relation on the controller's state. The cluster
  refines the machine, so the invariants of the machine hold in every reachable state of the cluster.
\<close>

section \<open>The life of a Release\<close>

text \<open>The target and the applied version, whether the controller has seen the target, whether the
  manager is up to date, the phases shown as successful, and whether the whole is shown as applied.\<close>

record life =
  lf_target :: string
  lf_applied :: string
  lf_observed :: bool
  lf_gate :: bool
  lf_done :: "phase set"
  lf_shown :: bool

inductive lifecycle_step :: "phase set \<Rightarrow> life \<Rightarrow> life \<Rightarrow> bool" for P where
  idle: "lifecycle_step P a a"
| retarget: "lifecycle_step P a (a\<lparr>lf_target := v, lf_observed := False\<rparr>)"
| observe: "\<not> lf_observed a \<Longrightarrow>
    lifecycle_step P a (a\<lparr>lf_observed := True, lf_gate := False, lf_done := {}, lf_shown := False\<rparr>)"
| self_upgrade: "lf_observed a \<Longrightarrow> \<not> lf_gate a \<Longrightarrow> (b \<longrightarrow> lf_shown a \<or> lf_done a = P) \<Longrightarrow>
    lifecycle_step P a (a\<lparr>lf_gate := g, lf_shown := b\<rparr>)"
| upgrade: "lf_observed a \<Longrightarrow> D \<subseteq> P \<Longrightarrow>
    v = lf_applied a \<or> v = lf_target a \<and> D = P \<Longrightarrow>
    (D = P \<longrightarrow> v = lf_target a \<or> D = lf_done a) \<Longrightarrow>
    (b \<longrightarrow> D = P \<or> lf_shown a) \<Longrightarrow>
    lifecycle_step P a (a\<lparr>lf_gate := True, lf_done := D, lf_applied := v, lf_shown := b\<rparr>)"

inductive_cases lifecycle_stepE: "lifecycle_step P a b"

text \<open>What the user may rely on: with the target observed, a Release that is shown as applied, or whose
  phases are all shown as successful, is at its target.\<close>

definition honest :: "phase set \<Rightarrow> life \<Rightarrow> bool" where
  "honest P a \<longleftrightarrow> lf_observed a \<and> (lf_shown a \<or> lf_done a = P) \<longrightarrow> lf_applied a = lf_target a"

lemma honest_step: "lifecycle_step P a b \<Longrightarrow> P \<noteq> {} \<Longrightarrow> honest P a \<Longrightarrow> honest P b"
  by (induction rule: lifecycle_step.induct) (auto simp: honest_def)

text \<open>And nothing of the platform is shown as successful before the manager is up to date.\<close>

definition gated :: "phase set \<Rightarrow> life \<Rightarrow> bool" where
  "gated P a \<longleftrightarrow> lf_observed a \<and> (lf_shown a \<or> lf_done a \<noteq> {}) \<longrightarrow> lf_gate a"

lemma gated_step: "lifecycle_step P a b \<Longrightarrow> P \<noteq> {} \<Longrightarrow> gated P a \<Longrightarrow> gated P b"
  by (induction rule: lifecycle_step.induct) (auto simp: gated_def)

section \<open>The cluster\<close>

text \<open>The generation of a stored object is positive, and the observed one never runs ahead of it.\<close>

definition stored_ok :: "Release \<Rightarrow> bool" where
  "stored_ok rel \<longleftrightarrow> 0 < rel_generation rel
     \<and> status_observed_generation (rel_status rel) \<le> rel_generation rel"

inductive cluster_step :: "'w ReleaseReconciler \<Rightarrow> 'w ctl \<Rightarrow> 'w ctl \<Rightarrow> bool" for r where
  reconciled: "run_state (reconcileNormal r) s = (res, s') \<Longrightarrow> (\<And>p. res \<noteq> Panic p) \<Longrightarrow> cluster_step r s s'"
| status_lost: "run_state (reconcileNormal r) s = (res, s') \<Longrightarrow> cluster_step r s (s'\<lparr>ct_release := ct_release s\<rparr>)"
| restarted: "cluster_step r s (s\<lparr>ct_raw := fmempty\<rparr>)"
| environment: "cluster_step r s (s\<lparr>ct_world := w\<rparr>)"
| edited: "cluster_step r s (s\<lparr>ct_release := (ct_release s)
     \<lparr>rel_spec := spec, rel_generation := rel_generation (ct_release s) + 1\<rparr>\<rparr>)"

inductive_cases cluster_stepE: "cluster_step r s s'"

text \<open>A Release that has just been created.\<close>

definition fresh :: "Release \<Rightarrow> bool" where
  "fresh rel \<longleftrightarrow> 0 < rel_generation rel \<and> status_observed_generation (rel_status rel) = 0
     \<and> status_version (rel_status rel) = [] \<and> status_conditions (rel_status rel) = []"

section \<open>Refinement\<close>

definition life_of :: "'w ReleaseReconciler \<Rightarrow> Release \<Rightarrow> life" where
  "life_of r rel =
     \<lparr>lf_target = spec_version (rel_spec rel), lf_applied = status_version (rel_status rel),
      lf_observed = (status_observed_generation (rel_status rel) = rel_generation rel),
      lf_gate = true_view (view (rc_conditions r) rel ConditionLCMUpgraded),
      lf_done = {p \<in> set (Phases (rc_pipeline r)). true_view (view (rc_conditions r) rel (ConditionType p))},
      lf_shown = true_view (view (rc_conditions r) rel ConditionApplied)\<rparr>"

lemma life_eqI:
  assumes "lf_target a = lf_target b" "lf_applied a = lf_applied b" "lf_observed a = lf_observed b"
    "lf_gate a = lf_gate b" "lf_done a = lf_done b" "lf_shown a = lf_shown b"
  shows "(a :: life) = b"
  using assms by simp

text \<open>What running the platform phases does to what the user sees.\<close>

definition all_true :: "'w ReleaseReconciler \<Rightarrow> Release \<Rightarrow> bool" where
  "all_true r rel \<longleftrightarrow>
     (\<forall>p \<in> set (Phases (rc_pipeline r)). true_view (view (rc_conditions r) rel (ConditionType p)))"

definition platform_effect :: "'w ReleaseReconciler \<Rightarrow> Release \<Rightarrow> Release \<Rightarrow> bool" where
  "platform_effect r rel rel' \<longleftrightarrow>
     rel_spec rel' = rel_spec rel \<and> rel_generation rel' = rel_generation rel
     \<and> status_observed_generation (rel_status rel') = status_observed_generation (rel_status rel)
     \<and> (status_version (rel_status rel') = status_version (rel_status rel)
        \<or> status_version (rel_status rel') = spec_version (rel_spec rel) \<and> all_true r rel')
     \<and> (all_true r rel' \<longrightarrow> status_version (rel_status rel') = spec_version (rel_spec rel)
        \<or> (\<forall>p. view (rc_conditions r) rel' (ConditionType p) = view (rc_conditions r) rel (ConditionType p)))
     \<and> (true_view (view (rc_conditions r) rel' ConditionApplied) \<longrightarrow>
          true_view (view (rc_conditions r) rel ConditionApplied))"

context release_controller
begin

lemma effect_same:
  assumes "ct_rest s' = ct_rest s" and "\<And>p. sees s' (ConditionType p) = sees s (ConditionType p)"
    and "true_view (sees s' ConditionApplied) \<Longrightarrow> true_view (sees s ConditionApplied)"
  shows "platform_effect r (ct_release s) (ct_release s')"
  using assms rest_ofD(1,2) [OF assms(1)] rest_generation [OF assms(1)]
  by (simp add: platform_effect_def)

lemma resolve_manifest_effect:
  assumes "run_state (resolve_manifest r) s = (m, s')"
  shows "ct_rest s' = ct_rest s \<and> sees s' (ConditionType p) = sees s (ConditionType p)
     \<and> sees s' ConditionApplied = sees s ConditionApplied"
proof -
  obtain q w1 where "run_state (getOrRetrieveManifest r (ct_release s)) (ct_world s) = (q, w1)" by fastforce
  then have "sees s' (ConditionType p) = sees s (ConditionType p) \<and> sees s' ConditionApplied = sees s ConditionApplied"
    using assms by (cases q) (auto simp: resolve_manifest_def Let_def run_ctl run_handle run_attempt)
  then show ?thesis using keepsD [OF keeps_resolve_manifest assms] by simp
qed

text \<open>How \<open>pipeline_phase\<close> leaves the Release, for each result of the pipeline.\<close>

lemma pipeline_phase_release:
  assumes "run_state (pipeline_phase r config) s = (res, s')"
    and "run_state (run_pipeline r config) (ct_world s) = (q, w)"
  shows "q = Ok states \<Longrightarrow> AllComplete states \<Longrightarrow> ct_release s' = set_status_version (cfg_release_version config)
        (updatePhaseConditions (rc_conditions r) (phase_entries r states) (ct_release s))"
    and "q = Ok states \<Longrightarrow> \<not> AllComplete states \<Longrightarrow>
      ct_release s' = updatePhaseConditions (rc_conditions r) (phase_entries r states) (ct_release s)"
    and "q = Err err \<Longrightarrow> ct_release s' = setPhaseConditionFromError (rc_conditions r) err (ct_release s)"
    and "q = Panic p \<Longrightarrow> ct_release s' = ct_release s"
  using assms by (auto simp: pipeline_phase_def Let_def run_ctl run_handle run_attempt)

lemma all_true_after_complete:
  assumes "run_state (run_pipeline r config) w = (Ok states, w')" and "AllComplete states"
  shows "all_true r (updatePhaseConditions (rc_conditions r) (phase_entries r states) rel)"
  unfolding all_true_def using complete_pipeline_views(1) [OF assms] by blast

lemma not_all_true_after_incomplete:
  assumes "run_state (run_pipeline r config) w = (Ok states, w')" and "\<not> AllComplete states"
  shows "\<not> all_true r (updatePhaseConditions (rc_conditions r) (phase_entries r states) rel)"
proof -
  from assms(2) obtain p st where p: "fmlookup states p = Some st" "\<not> status_complete st"
    by (auto simp: AllComplete_def fmpred_iff)
  then have "\<not> true_view (view (rc_conditions r)
      (updatePhaseConditions (rc_conditions r) (phase_entries r states) rel) (ConditionType p))"
    by (simp add: phases_after_pipeline) (simp add: phase_view_def true_view_def)
  then show ?thesis using run_pipeline_phases [OF assms(1) p(1)] unfolding all_true_def by blast
qed

lemma run_pipeline_error:
  assumes "run_state (run_pipeline r config) w = (Err err, w')"
  obtains p e where "err = PhaseError p e" "p \<in> set (Phases (rc_pipeline r))"
proof -
  obtain sts e w1 where run: "run_state (Pipeline_Reconcile (rc_pipeline r) (Some config)) w = ((sts, e), w1)"
    by (metis surjective_pairing)
  with assms have "e = Err err" by (cases e) (auto simp: run_pipeline_def)
  then obtain n e' where "n < length (rc_pipeline r)" "err = PhaseError (Phases (rc_pipeline r) ! n) e'"
    using ends [OF run] by (auto simp: run_ends_def)
  then show thesis using that by (auto simp: Phases_def)
qed

lemma failed_phase_effect:
  fixes s s' :: "'w ctl"
  assumes "p \<in> set (Phases (rc_pipeline r))"
    and "ct_release s' = setPhaseConditionFromError (rc_conditions r) (PhaseError p e) (ct_release s)"
  shows "platform_effect r (ct_release s) (ct_release s')"
proof -
  have "\<not> true_view (sees s' (ConditionType p))"
    by (simp add: assms(2) setPhaseConditionFromError_def true_view_def)
  then have "\<not> all_true r (ct_release s')" using assms(1) by (auto simp: all_true_def)
  moreover have "sees s' ConditionApplied = sees s ConditionApplied"
    by (simp add: assms(2) setPhaseConditionFromError_def)
  moreover have rest: "ct_rest s' = ct_rest s"
    unfolding assms(2) by (rule only_rest [OF only_setPhaseConditionFromError])
  note rest_ofD(1,2) [OF rest] rest_generation [OF rest]
  ultimately show ?thesis by (simp add: platform_effect_def)
qed

lemma pipeline_phase_effect:
  assumes "run_state (pipeline_phase r config) s = (res, s')"
    and "cfg_release_version config = spec_version (rel_spec (ct_release s))"
  shows "platform_effect r (ct_release s) (ct_release s')"
proof -
  obtain q w where q: "run_state (run_pipeline r config) (ct_world s) = (q, w)" by fastforce
  note s' = pipeline_phase_release [OF assms(1) q]
  show ?thesis
  proof (cases q)
    case (Ok states)
    note run = q [unfolded Ok]
    let ?upd = "updatePhaseConditions (rc_conditions r) (phase_entries r states) (ct_release s)"
    have applied: "view (rc_conditions r) ?upd ConditionApplied = sees s ConditionApplied"
      by (rule others_after_pipeline) simp
    have rest: "rest_of ?upd = ct_rest s" by (rule only_rest [OF only_updatePhaseConditions])
    note upd = applied rest_ofD(1,2) [OF rest] rest_generation [OF rest]
    show ?thesis
    proof (cases "AllComplete states")
      case True
      have view: "view (rc_conditions r) (set_status_version v rel) t = view (rc_conditions r) rel t" for v rel t
        by (simp add: view_def find_release_condition_def release_conditions_def set_status_version_def)
      show ?thesis
        using s'(1) [OF Ok True] upd assms(2) all_true_after_complete [OF run True, of "ct_release s"]
        by (simp add: platform_effect_def all_true_def view) (simp add: set_status_version_def)
    next
      case False
      show ?thesis
        using s'(2) [OF Ok False] upd not_all_true_after_incomplete [OF run False, of "ct_release s"]
        by (simp add: platform_effect_def)
    qed
  next
    case (Err err)
    then obtain p e where "err = PhaseError p e" "p \<in> set (Phases (rc_pipeline r))"
      using run_pipeline_error q by blast
    with s'(3) [OF Err] show ?thesis using failed_phase_effect by blast
  next
    case (Panic p)
    from s'(4) [OF Panic] show ?thesis by (intro effect_same) simp_all
  qed
qed

lemma platform_effect_after:
  assumes "platform_effect r (ct_release s1) rel" and "ct_rest s1 = ct_rest s"
    and "\<And>p. sees s1 (ConditionType p) = sees s (ConditionType p)"
    and "sees s1 ConditionApplied = sees s ConditionApplied"
  shows "platform_effect r (ct_release s) rel"
  using assms(1) rest_ofD(1,2) [OF assms(2)] rest_generation [OF assms(2)]
  unfolding platform_effect_def assms(3,4) by simp

lemma config_error_effect:
  assumes "run_state (config_error r p e) s = (res, s')"
  shows "platform_effect r (ct_release s) (ct_release s')"
proof (rule effect_same)
  show "ct_rest s' = ct_rest s" by (rule keepsD [OF keeps_config_error assms])
qed (use assms in \<open>auto simp: config_error_def run_attempt run_ctl true_view_def split: option.splits\<close>)

lemma configured_effect:
  assumes "run_state (attempt (cleanup_phase r config) (\<lambda>_. pipeline_phase r config)) s = (res, s')"
    and "cfg_release_version config = spec_version (rel_spec (ct_release s))"
  shows "platform_effect r (ct_release s) (ct_release s')"
proof -
  obtain u s3 where u: "run_state (cleanup_phase r config) s = (u, s3)" by fastforce
  have s3: "ct_release s3 = ct_release s" using keepsD [OF keeps_cleanup_phase u] by simp
  show ?thesis
  proof (cases "u = Ok ()")
    case True
    then have "run_state (pipeline_phase r config) s3 = (res, s')"
      using assms(1) u by (simp add: run_attempt)
    from pipeline_phase_effect [OF this] show ?thesis using assms(2) s3 by simp
  next
    case False
    then have "s' = s3" using assms(1) u by (cases u) (auto simp: run_attempt)
    then show ?thesis using s3 by (intro effect_same) simp_all
  qed
qed

lemma resolved_effect:
  assumes "run_state (platform_upgrade r) s = (res, s')" and "run_state (resolve_manifest r) s = (Ok manifest, s1)"
  shows "platform_effect r (ct_release s1) (ct_release s')"
proof -
  obtain c w2 where c: "run_state (parseUpgradeConfig r manifest (ct_release s1)) (ct_world s1) = (c, w2)" by fastforce
  let ?s2 = "s1\<lparr>ct_world := w2\<rparr>"
  have rest: "run_state (case c of Ok config \<Rightarrow> attempt (cleanup_phase r config) (\<lambda>_. pipeline_phase r config)
      | Err e \<Rightarrow> config_error r ''parsing upgrade config'' e | Panic p \<Rightarrow> panic p) ?s2 = (res, s')"
    using assms c by (cases c) (auto simp: platform_upgrade_def run_attempt run_ctl run_handle)
  have "platform_effect r (ct_release ?s2) (ct_release s')"
  proof (cases c)
    case (Ok config)
    have "cfg_release_version config = spec_version (rel_spec (ct_release ?s2))"
      using returnsD [OF config_version c [unfolded Ok]] by simp
    then show ?thesis using rest Ok by (intro configured_effect [of config]) simp_all
  next
    case (Err e)
    then show ?thesis using rest by (intro config_error_effect [of _ e]) simp
  next
    case (Panic p)
    then have "s' = ?s2" using rest by simp
    then show ?thesis by (intro effect_same) simp_all
  qed
  then show ?thesis by simp
qed

lemma platform_upgrade_effect:
  assumes "run_state (platform_upgrade r) s = (res, s')"
  shows "platform_effect r (ct_release s) (ct_release s')"
proof -
  obtain m s1 where m: "run_state (resolve_manifest r) s = (m, s1)" by fastforce
  note same = resolve_manifest_effect [OF m]
  have "platform_effect r (ct_release s1) (ct_release s')"
  proof (cases "\<exists>manifest. m = Ok manifest")
    case True
    then show ?thesis using resolved_effect [OF assms] m by blast
  next
    case False
    then have "s' = s1" using assms m by (cases m) (auto simp: platform_upgrade_def run_attempt)
    then show ?thesis by (intro effect_same) simp_all
  qed
  then show ?thesis by (rule platform_effect_after) (use same in simp_all)
qed

text \<open>The self-upgrade touches its own condition, and may take back that the whole is applied.\<close>

lemma lcm_phase_stopped:
  assumes "run_state (lcm_phase r) s = (e, s')" and "e \<noteq> Ok None"
  shows "\<not> true_view (sees s ConditionLCMUpgraded)"
  using assms unfolding lcm_phase_def Let_def
  by (auto simp: run_ctl is_true true_view_def view_def find_release_condition_def view_of_def)

lemma lcm_phase_configured:
  assumes "run_state (lcm_phase r) s = (e, s')"
    and "\<not> IsStatusConditionTrue (rc_conditions r) (release_conditions (ct_release s)) ConditionLCMUpgraded"
    and "run_state (lcmUpgradeConfig r (ct_release s)) s = (Ok config, s2)"
  obtains (same) "ct_release s' = ct_release s"
    | (failed) err where "ct_release s' = setPhaseConditionFromError (rc_conditions r) (PhaseError PhaseLCM err) (ct_release s)"
    | (running) st where "ct_release s' = updatePhaseCondition (rc_conditions r) (ct_release s) (PhaseLCM, st)"
proof -
  have s2: "ct_release s2 = ct_release s" by (rule keepsD [OF keeps_lcmUpgradeConfig assms(3)])
  obtain q w where q: "run_state (reconcileLCM r config) (ct_world s2) = (q, w)" by fastforce
  note unfold = assms(1) [unfolded lcm_phase_def Let_def] assms(2,3) q s2
  show thesis
  proof (cases q)
    case (Ok st)
    then have "ct_release s' = updatePhaseCondition (rc_conditions r) (ct_release s) (PhaseLCM, st)"
      using unfold by (auto simp: run_ctl run_handle run_attempt split: if_splits)
    then show thesis by (rule running)
  next
    case (Err err)
    then have "ct_release s' = setPhaseConditionFromError (rc_conditions r) err (ct_release s)"
      using unfold by (auto simp: run_ctl run_handle run_attempt)
    moreover have "\<exists>e'. err = PhaseError PhaseLCM e'"
      using q Err by (auto simp: reconcileLCM_def run_handle split: prod.splits outcome.splits)
    ultimately show thesis using failed by blast
  next
    case (Panic p)
    then have "ct_release s' = ct_release s" using unfold by (auto simp: run_ctl run_handle run_attempt)
    then show thesis by (rule same)
  qed
qed

lemma lcm_phase_release:
  assumes "run_state (lcm_phase r) s = (e, s')"
  obtains (same) "ct_release s' = ct_release s"
    | (config) m where "ct_release s' = setCondition (rc_conditions r) ConditionApplied ConditionFalse UpgradeFailed m (ct_release s)"
    | (failed) err where "ct_release s' = setPhaseConditionFromError (rc_conditions r) (PhaseError PhaseLCM err) (ct_release s)"
    | (running) st where "ct_release s' = updatePhaseCondition (rc_conditions r) (ct_release s) (PhaseLCM, st)"
proof (cases "IsStatusConditionTrue (rc_conditions r) (release_conditions (ct_release s)) ConditionLCMUpgraded")
  case True
  with assms show thesis by (intro same) (simp add: lcm_phase_def Let_def run_ctl)
next
  case gate: False
  obtain c s2 where c: "run_state (lcmUpgradeConfig r (ct_release s)) s = (c, s2)" by fastforce
  have s2: "ct_release s2 = ct_release s" by (rule keepsD [OF keeps_lcmUpgradeConfig c])
  note unfold = assms [unfolded lcm_phase_def Let_def] gate c s2
  show thesis
  proof (cases c)
    case (Ok config)
    show thesis using lcm_phase_configured [OF assms gate c [unfolded Ok]] same failed running by blast
  next
    case (Err err)
    show thesis
    proof (cases "as_runtime_config_error err")
      case None
      then have "ct_release s' = ct_release s"
        using unfold Err by (auto simp: run_ctl run_handle run_attempt config_error_def)
      then show thesis by (rule same)
    next
      case (Some m)
      then have "ct_release s' = setCondition (rc_conditions r) ConditionApplied ConditionFalse UpgradeFailed m (ct_release s)"
        using unfold Err by (auto simp: run_ctl run_handle run_attempt config_error_def)
      then show thesis by (rule config)
    qed
  next
    case (Panic p)
    show thesis using same unfold Panic by (auto simp: run_ctl run_handle)
  qed
qed

lemma lcm_phase_views:
  assumes "run_state (lcm_phase r) s = (e, s')"
  shows "(\<forall>p. p \<noteq> PhaseLCM \<longrightarrow> sees s' (ConditionType p) = sees s (ConditionType p))
     \<and> (true_view (sees s' ConditionApplied) \<longrightarrow> true_view (sees s ConditionApplied))"
proof -
  have lcm_iff: "ConditionType p = ConditionLCMUpgraded \<longleftrightarrow> p = PhaseLCM" for p
    unfolding ConditionType_phases(1) [symmetric] inj_ConditionType ..
  from assms show ?thesis
  proof (cases rule: lcm_phase_release)
    case same
    then show ?thesis by simp
  next
    case (config m)
    then show ?thesis by (simp add: true_view_def)
  next
    case (failed err)
    then show ?thesis by (simp add: setPhaseConditionFromError_def lcm_iff true_view_def)
  next
    case (running st)
    then show ?thesis by (simp add: view_updatePhaseCondition lcm_iff)
  qed
qed

text \<open>A reconciliation is one step of the machine.\<close>

lemma life_of_eqI:
  assumes "rest_of rel' = rest_of rel"
    and "\<And>p. p \<in> set (Phases (rc_pipeline r)) \<Longrightarrow>
           view (rc_conditions r) rel' (ConditionType p) = view (rc_conditions r) rel (ConditionType p)"
  shows "life_of r rel' = (life_of r rel)
     \<lparr>lf_gate := true_view (view (rc_conditions r) rel' ConditionLCMUpgraded),
      lf_shown := true_view (view (rc_conditions r) rel' ConditionApplied)\<rparr>"
  using rest_ofD(1,2) [OF assms(1)] rest_generation [OF assms(1)] assms(2)
  by (auto simp: life_of_def)

lemma applied_after_update:
  assumes "true_view (view (rc_conditions r) (updateAppliedCondition (rc_conditions r) (Phases (rc_pipeline r)) rel) ConditionApplied)"
  shows "true_view (view (rc_conditions r) rel ConditionApplied) \<or> all_true r rel"
  using applied_true_phases [OF assms] unfolding all_true_def by blast

lemma life_of_updateApplied:
  "life_of r (updateAppliedCondition (rc_conditions r) (Phases (rc_pipeline r)) rel) = (life_of r rel)
     \<lparr>lf_shown := true_view (view (rc_conditions r) (updateAppliedCondition (rc_conditions r) (Phases (rc_pipeline r)) rel)
        ConditionApplied)\<rparr>"
proof -
  have "view (rc_conditions r) (updateAppliedCondition (rc_conditions r) (Phases (rc_pipeline r)) rel) ConditionLCMUpgraded
      = view (rc_conditions r) rel ConditionLCMUpgraded"
    by (rule view_updateApplied_other) simp
  then show ?thesis
    using life_of_eqI [OF only_rest [OF only_updateAppliedCondition], of "rc_conditions r" "Phases (rc_pipeline r)" rel]
    by (simp add: view_updateApplied_other life_of_def)
qed

lemma lf_done_all: "lf_done (life_of r rel) = set (Phases (rc_pipeline r)) \<longleftrightarrow> all_true r rel"
  by (auto simp: life_of_def all_true_def)

lemma life_of_observe:
  "life_of r (observe_generation r rel)
     = (life_of r rel)\<lparr>lf_observed := True, lf_gate := False, lf_done := {}, lf_shown := False\<rparr>"
  by (simp add: life_of_def observe_generation_simps view_observe_generation [OF condition_laws_axioms] true_view_def)

lemma stop_refines:
  assumes "run_state (lcm_phase r) s = (e, s5)" and "e \<noteq> Ok None"
    and "status_observed_generation (rel_status (ct_release s)) = rel_generation (ct_release s)"
  shows "lifecycle_step (set (Phases (rc_pipeline r))) (life_of r (ct_release s))
    (life_of r (updateAppliedCondition (rc_conditions r) (Phases (rc_pipeline r)) (ct_release s5)))"
proof -
  let ?a = "life_of r (ct_release s)"
  note views = lcm_phase_views [OF assms(1)]
  have same: "sees s5 (ConditionType p) = sees s (ConditionType p)" if "p \<in> set (Phases (rc_pipeline r))" for p
    using views lcm_apart that by metis
  have gate: "\<not> lf_gate ?a" using lcm_phase_stopped [OF assms(1,2)] by (simp add: life_of_def)
  have observed: "lf_observed ?a" using assms(3) by (simp add: life_of_def)
  have shown: "lf_shown ?a \<or> lf_done ?a = set (Phases (rc_pipeline r))"
    if "true_view (view (rc_conditions r) (updateAppliedCondition (rc_conditions r) (Phases (rc_pipeline r))
          (ct_release s5)) ConditionApplied)"
    using applied_after_update [OF that] views same unfolding lf_done_all
    by (auto simp: all_true_def life_of_def)
  have "life_of r (ct_release s5) = ?a\<lparr>lf_gate := true_view (sees s5 ConditionLCMUpgraded),
      lf_shown := true_view (sees s5 ConditionApplied)\<rparr>"
    by (rule life_of_eqI [OF keepsD [OF keeps_lcm_phase assms(1)] same])
  then show ?thesis
    unfolding life_of_updateApplied using self_upgrade [OF observed gate] shown by simp
qed

lemma pass_refines:
  assumes "run_state (lcm_phase r) s = (Ok None, s1)" and "run_state (platform_upgrade r) s1 = (res, s5)"
    and "status_observed_generation (rel_status (ct_release s)) = rel_generation (ct_release s)"
  shows "lifecycle_step (set (Phases (rc_pipeline r))) (life_of r (ct_release s))
    (life_of r (updateAppliedCondition (rc_conditions r) (Phases (rc_pipeline r)) (ct_release s5)))"
proof -
  let ?P = "set (Phases (rc_pipeline r))" and ?a = "life_of r (ct_release s)" and ?b = "life_of r (ct_release s5)"
  note views = lcm_phase_views [OF assms(1)]
  have same: "sees s1 (ConditionType p) = sees s (ConditionType p)" if "p \<in> ?P" for p
    using views lcm_apart that by metis
  note rest = keepsD [OF keeps_lcm_phase assms(1)]
  have effect: "platform_effect r (ct_release s1) (ct_release s5)"
    by (rule platform_upgrade_effect [OF assms(2)])
  have observed: "lf_observed ?a" using assms(3) by (simp add: life_of_def)
  have b: "lf_target ?b = lf_target ?a" "lf_observed ?b" "lf_done ?b \<subseteq> ?P"
    using effect assms(3) rest_ofD(1,2) [OF rest] rest_generation [OF rest]
    by (auto simp: platform_effect_def life_of_def)
  have gate: "lf_gate ?b"
    using lcm_phase_passed [OF assms(1)] platform_upgrade_keeps_lcm [OF assms(2)] by (simp add: life_of_def)
  have applied: "lf_applied ?b = lf_applied ?a \<or> lf_applied ?b = lf_target ?a \<and> lf_done ?b = ?P"
    using effect rest_ofD(1,2) [OF rest] unfolding lf_done_all by (auto simp: platform_effect_def life_of_def)
  have finished: "lf_applied ?b = lf_target ?a \<or> lf_done ?b = lf_done ?a" if "lf_done ?b = ?P"
    using effect rest_ofD(1) [OF rest] that same unfolding lf_done_all
    by (auto simp: platform_effect_def life_of_def)
  have shown: "lf_done ?b = ?P \<or> lf_shown ?a"
    if "true_view (view (rc_conditions r) (updateAppliedCondition (rc_conditions r) (Phases (rc_pipeline r))
          (ct_release s5)) ConditionApplied)" (is "?shown")
    using applied_after_update [OF that] effect views unfolding lf_done_all
    by (auto simp: platform_effect_def life_of_def)
  have "life_of r (updateAppliedCondition (rc_conditions r) (Phases (rc_pipeline r)) (ct_release s5))
      = ?a\<lparr>lf_gate := True, lf_done := lf_done ?b, lf_applied := lf_applied ?b,
           lf_shown := true_view (view (rc_conditions r) (updateAppliedCondition (rc_conditions r)
             (Phases (rc_pipeline r)) (ct_release s5)) ConditionApplied)\<rparr>"
    unfolding life_of_updateApplied using b gate observed by (intro life_eqI) simp_all
  then show ?thesis
    using upgrade [OF observed b(3) applied] finished shown by simp
qed

end

text \<open>The three ways a reconciliation may go.\<close>

lemma normal_cases:
  assumes "run_state (reconcileNormal r) s = (res, s')"
  obtains (observe) "status_observed_generation (rel_status (ct_release s)) \<noteq> rel_generation (ct_release s)"
      "ct_release s' = observe_generation r (ct_release s)"
  | (stop) e s5 where "status_observed_generation (rel_status (ct_release s)) = rel_generation (ct_release s)"
      "run_state (lcm_phase r) s = (e, s5)" "e \<noteq> Ok None"
      "ct_release s' = updateAppliedCondition (rc_conditions r) (Phases (rc_pipeline r)) (ct_release s5)"
  | (pass) s1 s5 where "status_observed_generation (rel_status (ct_release s)) = rel_generation (ct_release s)"
      "run_state (lcm_phase r) s = (Ok None, s1)" "run_state (platform_upgrade r) s1 = (res, s5)"
      "ct_release s' = updateAppliedCondition (rc_conditions r) (Phases (rc_pipeline r)) (ct_release s5)"
proof (cases "status_observed_generation (rel_status (ct_release s)) = rel_generation (ct_release s)")
  case False
  with assms have "ct_release s' = observe_generation r (ct_release s)"
    by (auto simp: reconcileNormal_def run_ctl run_attempt)
  with False show thesis by (rule that(1))
next
  case True
  obtain e s1 where e: "run_state (lcm_phase r) s = (e, s1)" by fastforce
  obtain s5 where s': "ct_release s' = updateAppliedCondition (rc_conditions r) (Phases (rc_pipeline r)) (ct_release s5)"
    and s5: "run_state (attempt (lcm_phase r) (\<lambda>early. case early of Some result \<Rightarrow> ok result
               | None \<Rightarrow> platform_upgrade r)) s = (res, s5)"
    using assms True by (auto simp: reconcileNormal_def run_ctl split: prod.splits)
  show thesis
  proof (cases "e = Ok None")
    case passed: True
    with s5 e have "run_state (platform_upgrade r) s1 = (res, s5)" by (simp add: run_attempt)
    with that(3) [OF True e [unfolded passed] _ s'] show thesis .
  next
    case False
    with s5 e have "s5 = s1" by (auto simp: run_attempt split: outcome.splits option.splits)
    with that(2) [OF True e False] s' show thesis by simp
  qed
qed

context release_controller
begin

lemma normal_refines:
  assumes "run_state (reconcileNormal r) s = (res, s')"
  shows "lifecycle_step (set (Phases (rc_pipeline r))) (life_of r (ct_release s)) (life_of r (ct_release s'))"
  using assms
proof (cases rule: normal_cases)
  case observe
  then show ?thesis
    using lifecycle_step.observe [of "life_of r (ct_release s)"] unfolding observe(2) life_of_observe
    by (simp add: life_of_def)
next
  case (stop e s5)
  from stop_refines [OF stop(2,3,1)] show ?thesis by (simp only: stop(4))
next
  case (pass s1 s5)
  from pass_refines [OF pass(2,3,1)] show ?thesis by (simp only: pass(4))
qed

text \<open>It keeps the target, and the generations in order.\<close>

lemma normal_target:
  assumes "run_state (reconcileNormal r) s = (res, s')"
  shows "rel_spec (ct_release s') = rel_spec (ct_release s)
     \<and> rel_generation (ct_release s') = rel_generation (ct_release s)
     \<and> status_observed_generation (rel_status (ct_release s')) = rel_generation (ct_release s)"
  using assms
proof (cases rule: normal_cases)
  case observe
  then show ?thesis by (simp add: observe_generation_simps)
next
  case (stop e s5)
  have "rest_of (ct_release s') = rest_of (ct_release s)"
    unfolding stop(4) using only_rest [OF only_updateAppliedCondition] keepsD [OF keeps_lcm_phase stop(2)] by simp
  from rest_generation [OF this] rest_ofD(1) [OF this] stop(1) show ?thesis by simp
next
  case (pass s1 s5)
  have "rest_of (ct_release s') = rest_of (ct_release s5)"
    unfolding pass(4) by (rule only_rest [OF only_updateAppliedCondition])
  from rest_generation [OF this] rest_ofD(1) [OF this] rest_generation [OF keepsD [OF keeps_lcm_phase pass(2)]]
    rest_ofD(1) [OF keepsD [OF keeps_lcm_phase pass(2)]]
    platform_upgrade_effect [OF pass(3)] pass(1)
  show ?thesis by (simp add: platform_effect_def)
qed

text \<open>The cluster as a whole.\<close>

lemma cluster_refines:
  assumes "cluster_step r s s'" and "stored_ok (ct_release s)"
  shows "stored_ok (ct_release s')
     \<and> lifecycle_step (set (Phases (rc_pipeline r))) (life_of r (ct_release s)) (life_of r (ct_release s'))"
  using assms
proof (induction rule: cluster_step.induct)
  case (reconciled s res s')
  then show ?case
    using normal_target [OF reconciled.hyps(1)] normal_refines [OF reconciled.hyps(1)]
    by (simp add: stored_ok_def)
next
  case (edited s spec)
  let ?a = "life_of r (ct_release s)"
  have "life_of r ((ct_release s)\<lparr>rel_spec := spec, rel_generation := rel_generation (ct_release s) + 1\<rparr>)
      = ?a\<lparr>lf_target := spec_version spec, lf_observed := False\<rparr>"
    using edited.prems
    by (auto simp: life_of_def stored_ok_def view_def find_release_condition_def release_conditions_def)
  then show ?case using edited.prems retarget [of _ ?a] by (simp add: stored_ok_def)
qed (simp_all add: idle)

lemma cluster_reachable:
  assumes "(cluster_step r)\<^sup>*\<^sup>* s0 s" and "fresh (ct_release s0)" and "Phases (rc_pipeline r) \<noteq> []"
  shows "stored_ok (ct_release s)
     \<and> (lifecycle_step (set (Phases (rc_pipeline r))))\<^sup>*\<^sup>* (life_of r (ct_release s0)) (life_of r (ct_release s))
     \<and> honest (set (Phases (rc_pipeline r))) (life_of r (ct_release s))
     \<and> gated (set (Phases (rc_pipeline r))) (life_of r (ct_release s))"
  using assms(1)
proof (induction rule: rtranclp_induct)
  case base
  then show ?case
    using assms(2) by (simp add: fresh_def stored_ok_def honest_def gated_def life_of_def)
next
  case (step s s')
  note one = cluster_refines [OF step.hyps(2) conjunct1 [OF step.IH]]
  have P: "set (Phases (rc_pipeline r)) \<noteq> {}" using assms(3) by simp
  from one step.IH honest_step [OF _ P] gated_step [OF _ P] show ?case
    by (meson rtranclp.rtrancl_into_rtrancl)
qed

end

section \<open>Properties\<close>

text \<open>
  C7. The cluster implements the life of a Release: from a Release that has just been created, every
  step of the cluster - a reconciliation, one whose status is lost, a restart of the controller,
  an action of the environment or an edit by the user - is a step of the machine.
\<close>

theorem cluster_implements_lifecycle:
  assumes "release_controller r" and "Phases (rc_pipeline r) \<noteq> []" and "fresh (ct_release s0)"
    and "(cluster_step r)\<^sup>*\<^sup>* s0 s" and "cluster_step r s s'"
  shows "lifecycle_step (set (Phases (rc_pipeline r))) (life_of r (ct_release s)) (life_of r (ct_release s'))"
  using release_controller.cluster_refines [OF assms(1,5)]
    release_controller.cluster_reachable [OF assms(1,4,3,2)] by blast

text \<open>
  C1. Applied means applied: in every state that the cluster reaches from a Release just created, if
  the controller has seen the current target and shows the Release as Applied, or every phase of
  its pipeline as successful, then the recorded version is the target version and the manager's own
  upgrade is done - whatever was edited, lost or restarted on the way.
\<close>

theorem applied_is_honest:
  assumes "release_controller r" and "Phases (rc_pipeline r) \<noteq> []" and "fresh (ct_release s0)"
    and "(cluster_step r)\<^sup>*\<^sup>* s0 s"
    and "status_observed_generation (rel_status (ct_release s)) = rel_generation (ct_release s)"
    and "true_view (view (rc_conditions r) (ct_release s) ConditionApplied)
      \<or> (\<forall>p \<in> set (Phases (rc_pipeline r)). true_view (view (rc_conditions r) (ct_release s) (ConditionType p)))"
  shows "status_version (rel_status (ct_release s)) = spec_version (rel_spec (ct_release s))
     \<and> true_view (view (rc_conditions r) (ct_release s) ConditionLCMUpgraded)"
proof -
  have "lf_done (life_of r (ct_release s)) = set (Phases (rc_pipeline r)) \<or> lf_shown (life_of r (ct_release s))"
    using assms(6) by (auto simp: life_of_def)
  with release_controller.cluster_reachable [OF assms(1,4,3,2)] assms(2,5) show ?thesis
    by (auto simp: honest_def gated_def) (auto simp: life_of_def)
qed

text \<open>A Release just created, on a cluster with nothing to do: three reconciliations apply it.\<close>

definition life_controller :: "unit ReleaseReconciler" where
  "life_controller = manager_reconciler
     (ordered_libs (witness_controller_libs\<lparr>rc_parse_core := \<lambda>_. Ok \<lparr>lc_charts = [], lc_repositories = []\<rparr>\<rparr>))
     [] witness_rke2_libs ''v1.33.1+rke2r1'' (\<lambda>_. raise ReleaseNotFound) (\<lambda>read ref. ok witness_manifest)
     witness_registry (\<lambda>m. m)"

definition life_start :: "unit ctl" where
  "life_start = \<lparr>ct_raw = fmempty,
     ct_release = witness_release\<lparr>rel_status := \<lparr>status_version = [], status_conditions = [],
                                     status_observed_generation = 0\<rparr>\<rparr>,
     ct_world = ()\<rparr>"

lemma life_controller: "release_controller life_controller"
  "Phases (rc_pipeline life_controller) \<noteq> []" "rc_conditions life_controller = list_conditions"
  unfolding life_controller_def
  by (rule manager.release_controller_axioms) (simp_all add: manager_reconciler_def upgrade_pipeline_def Phases_def Let_def)

lemma life_start: "fresh (ct_release life_start)"
  by (simp add: life_start_def fresh_def witness_release_def)

definition no_panic :: "'a outcome \<Rightarrow> bool" where
  "no_panic res = (case res of Panic p \<Rightarrow> False | _ \<Rightarrow> True)"

lemma life_run:
  "case run_state (reconcileNormal life_controller) life_start of (res1, s1) \<Rightarrow>
    (case run_state (reconcileNormal life_controller) s1 of (res2, s2) \<Rightarrow>
      (case run_state (reconcileNormal life_controller) s2 of (res3, s3) \<Rightarrow>
         no_panic res1 \<and> no_panic res2 \<and> no_panic res3
         \<and> status_observed_generation (rel_status (ct_release s3)) = rel_generation (ct_release s3)
         \<and> spec_version (rel_spec (ct_release s3)) = ''2''
         \<and> status_version (rel_status (ct_release s3)) = ''2''
         \<and> (case view list_conditions (ct_release s3) ConditionApplied of
               None \<Rightarrow> False | Some (st, _) \<Rightarrow> st = ConditionTrue)))"
  by code_simp

lemma life_trace:
  obtains res1 s1 res2 s2 res3 s3 where "run_state (reconcileNormal life_controller) life_start = (res1, s1)"
    "run_state (reconcileNormal life_controller) s1 = (res2, s2)"
    "run_state (reconcileNormal life_controller) s2 = (res3, s3)"
    "no_panic res1" "no_panic res2" "no_panic res3"
    "status_observed_generation (rel_status (ct_release s3)) = rel_generation (ct_release s3)"
    "spec_version (rel_spec (ct_release s3)) = ''2''" "status_version (rel_status (ct_release s3)) = ''2''"
    "true_view (view list_conditions (ct_release s3) ConditionApplied)"
proof -
  let ?run = "run_state (reconcileNormal life_controller)"
  obtain res1 s1 where s1: "?run life_start = (res1, s1)" by fastforce
  obtain res2 s2 where s2: "?run s1 = (res2, s2)" by fastforce
  obtain res3 s3 where s3: "?run s2 = (res3, s3)" by fastforce
  from life_run [unfolded s1 s2 s3 prod.case] that [OF s1 s2 s3] show thesis
    by (auto simp: true_view_def split: option.splits)
qed

lemma reconciled_no_panic:
  "run_state (reconcileNormal r) s = (res, s') \<Longrightarrow> no_panic res \<Longrightarrow> cluster_step r s s'"
  by (rule reconciled) (auto simp: no_panic_def)

lemma life_reached:
  obtains s2 s3 where "(cluster_step life_controller)\<^sup>*\<^sup>* life_start s2" "cluster_step life_controller s2 s3"
    "status_observed_generation (rel_status (ct_release s3)) = rel_generation (ct_release s3)"
    "spec_version (rel_spec (ct_release s3)) = ''2''"
    "true_view (view list_conditions (ct_release s3) ConditionApplied)"
  by (rule life_trace)
    (meson reconciled_no_panic rtranclp.rtrancl_refl rtranclp.rtrancl_into_rtrancl)

theorem cluster_implements_lifecycle_witness:
  "\<exists>s s'. (cluster_step life_controller)\<^sup>*\<^sup>* life_start s \<and> cluster_step life_controller s s'
     \<and> lf_shown (life_of life_controller (ct_release s'))
     \<and> lifecycle_step (set (Phases (rc_pipeline life_controller)))
         (life_of life_controller (ct_release s)) (life_of life_controller (ct_release s'))"
proof -
  obtain s2 s3 where s: "(cluster_step life_controller)\<^sup>*\<^sup>* life_start s2" "cluster_step life_controller s2 s3"
    "true_view (view list_conditions (ct_release s3) ConditionApplied)"
    by (rule life_reached)
  from cluster_implements_lifecycle [OF life_controller(1,2) life_start s(1,2)] s show ?thesis
    by (intro exI conjI) (auto simp: life_of_def life_controller(3))
qed

theorem applied_is_honest_witness:
  "\<exists>s. (cluster_step life_controller)\<^sup>*\<^sup>* life_start s \<and> status_version (rel_status (ct_release s)) = ''2''"
proof -
  obtain s2 s3 where s: "(cluster_step life_controller)\<^sup>*\<^sup>* life_start s2" "cluster_step life_controller s2 s3"
    "status_observed_generation (rel_status (ct_release s3)) = rel_generation (ct_release s3)"
    "spec_version (rel_spec (ct_release s3)) = ''2''"
    "true_view (view list_conditions (ct_release s3) ConditionApplied)"
    by (rule life_reached)
  note reached = rtranclp.rtrancl_into_rtrancl [OF s(1,2)]
  from applied_is_honest [OF life_controller(1,2) life_start reached s(3)] s(4,5) reached show ?thesis
    by (auto simp: life_controller(3))
qed

end
