(* ===== verification/Release_Editing.thy ===== *)
theory Release_Editing
  imports Release_Lifecycle Release_Webhook
begin

text \<open>
  The controller and the webhook together: the status that a reconciliation leaves decides whether
  the webhook lets the user edit the Release.
\<close>

section \<open>What an edit needs\<close>

lemma ValidateUpdate_editable:
  assumes "run_state (ValidateUpdate V CL K oldRelease newRelease) w = (Ok (), w')"
  shows "editable CL oldRelease"
  using assms
  by (auto simp: ValidateUpdate_def run_attempt validateNoUpgradeInProgress_Ok [symmetric]
      split: if_splits outcome.splits)

text \<open>A release that has just been observed, and that the Applied update leaves as it is.\<close>

lemma updateApplied_observed:
  assumes "release_controller r"
  shows "updateAppliedCondition (rc_conditions r) ps (observe_generation r rel) = observe_generation r rel"
proof -
  let ?rel = "observe_generation r rel"
  note view = view_observe_generation [OF release_controller.axioms(1) [OF assms], of rel]
  have "view (rc_conditions r) ?rel ConditionLCMUpgraded \<noteq> None"
    "view (rc_conditions r) ?rel ConditionManifestResolved \<noteq> None"
    by (simp_all add: view)
  then obtain c d where c: "find_release_condition (rc_conditions r) ?rel ConditionLCMUpgraded = Some c"
    and d: "find_release_condition (rc_conditions r) ?rel ConditionManifestResolved = Some d"
    by (auto simp: view_def)
  have "cond_reason c = UpgradePending"
    using view [of ConditionLCMUpgraded] by (simp add: view_def c view_of_def)
  moreover have "cond_reason d = UpgradePending" "cond_status d = ConditionFalse"
    using view [of ConditionManifestResolved] by (simp_all add: view_def d view_of_def)
  ultimately show ?thesis
    by (simp add: updateAppliedCondition_def updateAppliedFromManifest_def c d)
qed

context release_controller
begin

text \<open>The failures of the platform upgrade that are shown in a condition of their own.\<close>

lemma resolve_manifest_Err:
  assumes "run_state (resolve_manifest r) s = (Err e, s')"
  shows "\<exists>m. sees s' ConditionManifestResolved = Some (ConditionFalse, UpgradeFailed, m)"
proof -
  obtain q w1 where "run_state (getOrRetrieveManifest r (ct_release s)) (ct_world s) = (q, w1)" by fastforce
  with assms show ?thesis
    by (cases q) (auto simp: resolve_manifest_def Let_def run_ctl run_handle run_attempt)
qed

lemma pipeline_phase_Err:
  assumes "run_state (pipeline_phase r config) s = (Err e, s')"
  shows "\<exists>p \<in> set (Phases (rc_pipeline r)). \<exists>m.
     sees s' (ConditionType p) = Some (ConditionFalse, UpgradeFailed, m)
     \<and> sees s' ConditionManifestResolved = sees s ConditionManifestResolved"
proof -
  obtain q w where q: "run_state (run_pipeline r config) (ct_world s) = (q, w)" by fastforce
  with assms obtain err where err: "q = Err err"
    "ct_release s' = setPhaseConditionFromError (rc_conditions r) err (ct_release s)"
    by (cases q) (auto simp: pipeline_phase_def Let_def run_ctl run_handle run_attempt split: if_splits)
  obtain sts e' w1 where run: "run_state (Pipeline_Reconcile (rc_pipeline r) (Some config)) (ct_world s) = ((sts, e'), w1)"
    by (metis surjective_pairing)
  with q err(1) have "e' = Err err" by (cases e') (auto simp: run_pipeline_def)
  then obtain n e2 where "n < length (rc_pipeline r)" "err = PhaseError (Phases (rc_pipeline r) ! n) e2"
    using ends [OF run] by (auto simp: run_ends_def)
  then obtain p where "err = PhaseError p e2" "p \<in> set (Phases (rc_pipeline r))"
    by (auto simp: Phases_def)
  then show ?thesis by (intro bexI [of _ p]) (simp_all add: err(2) setPhaseConditionFromError_def)
qed

lemma platform_failure_shown:
  assumes "run_state (platform_upgrade r) s = (Err (Wrapf pre e), s')"
    and "pre = ''retrieving release manifest'' \<or> pre = ''reconciling upgrade''"
  shows "(\<exists>m. sees s' ConditionManifestResolved = Some (ConditionFalse, UpgradeFailed, m))
     \<or> (\<exists>m. sees s' ConditionManifestResolved = Some (ConditionTrue, UpgradeSucceeded, m))
       \<and> (\<exists>p \<in> set (Phases (rc_pipeline r)). failed_view (sees s' (ConditionType p)))"
proof -
  obtain q s1 where q: "run_state (resolve_manifest r) s = (q, s1)" by fastforce
  show ?thesis
  proof (cases q)
    case (Ok manifest)
    obtain c w2 where c: "run_state (parseUpgradeConfig r manifest (ct_release s1)) (ct_world s1) = (c, w2)" by fastforce
    obtain config where config: "c = Ok config"
      using assms q Ok c
      by (cases c) (auto simp: platform_upgrade_def run_attempt run_ctl run_handle config_error_def split: option.splits)
    obtain u s3 where u: "run_state (cleanup_phase r config) (s1\<lparr>ct_world := w2\<rparr>) = (u, s3)" by fastforce
    have s3: "ct_release s3 = ct_release s1" using keepsD [OF keeps_cleanup_phase u] by simp
    have "u = Ok ()"
    proof (cases u)
      case (Err x)
      then have "\<exists>v y. x = Wrapf (''cleaning up plans for version '' @ v) y"
        using u by (cases "fst (run_state (cleanupOldVersionPlans (rc_client r) (rel_name (ct_release s1))
            (status_version (rel_status (ct_release s1)))) w2)";
          auto simp: cleanup_phase_def Let_def run_ctl run_wrap split: if_splits prod.splits)
      then show ?thesis
        using assms q Ok c config u Err by (auto simp: platform_upgrade_def run_attempt run_ctl run_handle)
    next
      case (Panic p)
      then show ?thesis
        using assms q Ok c config u by (auto simp: platform_upgrade_def run_attempt run_ctl run_handle)
    qed simp
    then have "run_state (pipeline_phase r config) s3 = (Err (Wrapf pre e), s')"
      using assms q Ok c config u by (auto simp: platform_upgrade_def run_attempt run_ctl run_handle)
    from pipeline_phase_Err [OF this] resolve_manifest_Ok [OF q [unfolded Ok], of ConditionManifestResolved]
    show ?thesis unfolding s3 failed_view_def by auto
  next
    case (Err x)
    then have "s' = s1" using assms q by (simp add: platform_upgrade_def run_attempt)
    then show ?thesis using resolve_manifest_Err [OF q [unfolded Err]] by blast
  next
    case (Panic p)
    then show ?thesis using assms q by (simp add: platform_upgrade_def run_attempt)
  qed
qed

lemma failure_makes_applied_failed:
  assumes "(\<exists>m. view (rc_conditions r) rel ConditionManifestResolved = Some (ConditionFalse, UpgradeFailed, m))
     \<or> (\<exists>m. view (rc_conditions r) rel ConditionManifestResolved = Some (ConditionTrue, UpgradeSucceeded, m))
       \<and> (\<exists>p \<in> set ps. failed_view (view (rc_conditions r) rel (ConditionType p)))"
  shows "\<exists>m. view (rc_conditions r) (updateAppliedCondition (rc_conditions r) ps rel) ConditionApplied
     = Some (ConditionFalse, UpgradeFailed, m)"
proof -
  have "\<not> all_succeeded (scan_phases (rc_conditions r) rel ps) \<and> failed_phase (scan_phases (rc_conditions r) rel ps) \<noteq> []"
    if "p \<in> set ps" "failed_view (view (rc_conditions r) rel (ConditionType p))" for p
    unfolding scan_phases_view
    using that bexI [of _ p "set ps"] by (intro conjI) (force simp: failed_view_def true_view_def)+
  then show ?thesis
    using assms unfolding view_updateApplied
    by (auto simp: updateAppliedFromPhases_def Let_def)
qed

end

section \<open>Properties\<close>

text \<open>
  C22. A target whose manifest cannot be read locks the Release: when the configuration of the
  self-upgrade cannot be made, for another reason than the user's chart configuration, the
  reconciliation returns the error and shows nothing of it. The Release stays Pending, and so the
  webhook refuses every later edit, also one that would correct the target, and the deletion.
\<close>

theorem unreadable_target_locks_release:
  assumes "release_controller r" and "ct_release s = observe_generation r rel"
    and "run_state (lcmUpgradeConfig r (ct_release s)) s = (Err e, s1)" and "as_runtime_config_error e = None"
  shows "\<exists>s'. run_state (reconcileNormal r) s = (Err (Wrapf ''parsing upgrade config for LCM upgrade'' e), s')
     \<and> ct_release s' = ct_release s
     \<and> (\<forall>(V :: 'v version_lib) (K :: 'k kube) new w w'.
           run_state (ValidateUpdate V (rc_conditions r) K (ct_release s') new) w \<noteq> (Ok (), w'))
     \<and> (\<forall>(w :: 'k) w'. run_state (ValidateDelete (ct_release s')) w \<noteq> (Ok (), w'))"
proof -
  note view = view_observe_generation [OF release_controller.axioms(1) [OF assms(1)], of rel]
  have observed: "status_observed_generation (rel_status (ct_release s)) = rel_generation (ct_release s)"
    by (simp add: assms(2) observe_generation_simps)
  have "\<not> true_view (view (rc_conditions r) (ct_release s) ConditionLCMUpgraded)"
    by (simp add: assms(2) view true_view_def)
  then have gate: "\<not> IsStatusConditionTrue (rc_conditions r) (release_conditions (ct_release s)) ConditionLCMUpgraded"
    unfolding condition_laws.is_true [OF release_controller.axioms(1) [OF assms(1)]]
    by (auto simp: true_view_def view_def find_release_condition_def view_of_def)
  have s1: "ct_release s1 = ct_release s" by (rule keepsD [OF keeps_lcmUpgradeConfig assms(3)])
  have "run_state (lcm_phase r) s = (Err (Wrapf ''parsing upgrade config for LCM upgrade'' e), s1)"
    using gate assms(3,4)
    by (simp add: lcm_phase_def Let_def run_ctl run_handle run_attempt config_error_def)
  then have "run_state (reconcileNormal r) s
      = (Err (Wrapf ''parsing upgrade config for LCM upgrade'' e), s1\<lparr>ct_release := ct_release s\<rparr>)"
    using observed updateApplied_observed [OF assms(1)] s1 assms(2)
    by (simp add: reconcileNormal_def run_ctl run_attempt)
  moreover have "\<not> editable (rc_conditions r) (ct_release s)"
    by (simp add: editable_def assms(2) view)
  ultimately show ?thesis
    by (intro exI [of _ "s1\<lparr>ct_release := ct_release s\<rparr>"]) (auto simp: ValidateDelete_def dest: ValidateUpdate_editable)
qed


text \<open>A registry that does not have the image of the target.\<close>

definition empty_registry :: "(unit, string) registry" where
  "empty_registry = \<lparr>reg_parse_reference = Ok, reg_image = (\<lambda>_. raise (Errorf ''manifest unknown''))\<rparr>"

definition locked_controller :: "unit ReleaseReconciler" where
  "locked_controller = manager_reconciler (ordered_libs witness_controller_libs) [] witness_rke2_libs
     ''v1.33.1+rke2r1'' (\<lambda>_. raise ReleaseNotFound) (\<lambda>read ref. raise (Errorf ''manifest unknown''))
     empty_registry (\<lambda>m. m)"

lemma locked_controller: "release_controller locked_controller" "rc_conditions locked_controller = list_conditions"
  unfolding locked_controller_def by (rule manager.release_controller_axioms) (simp add: manager_reconciler_def)

definition locked_ctl :: "unit ctl" where
  "locked_ctl = \<lparr>ct_raw = fmempty, ct_release = observe_generation locked_controller witness_release, ct_world = ()\<rparr>"

theorem unreadable_target_locks_release_witness:
  "\<exists>s'. (\<exists>e. run_state (reconcileNormal locked_controller) locked_ctl = (Err e, s'))
     \<and> (\<forall>new. run_state (ValidateUpdate witness_versions list_conditions witness_kube (ct_release s') new) () \<noteq> (Ok (), ()))"
proof -
  obtain c s1 where c: "run_state (lcmUpgradeConfig locked_controller (ct_release locked_ctl)) locked_ctl = (c, s1)"
    by fastforce
  have "(case fst (run_state (lcmUpgradeConfig locked_controller (ct_release locked_ctl)) locked_ctl) of
      Err e \<Rightarrow> as_runtime_config_error e = None | _ \<Rightarrow> False)"
    by code_simp
  then obtain e where e: "c = Err e" "as_runtime_config_error e = None"
    unfolding c by (cases c) simp_all
  have "ct_release locked_ctl = observe_generation locked_controller witness_release"
    by (simp add: locked_ctl_def)
  from unreadable_target_locks_release [where ?'v = string and ?'k = unit, OF locked_controller(1) this c [unfolded e(1)] e(2)]
  show ?thesis
    unfolding locked_controller(2) by blast
qed




end
