(* ===== verification/Release_Progress.thy ===== *)
theory Release_Progress
  imports Release_Lifecycle
begin

text \<open>
  Progress. What the safety properties leave open - that a Release is ever applied - is shown here for
  a cluster where every call of the controller succeeds and the other controllers do their work between
  two reconciliations: a bounded number of rounds records the target version, from whatever status
  the Release had. A cluster with nothing to wait for is the special case where no work is left.
\<close>

section \<open>A cluster where the work gets done\<close>

text \<open>\<open>runs_to m s Q\<close>: from \<open>s\<close>, \<open>m\<close> returns a value and a state that satisfy \<open>Q\<close>.\<close>

definition runs_to :: "('w ctl, 'a) io \<Rightarrow> 'w ctl \<Rightarrow> ('a \<Rightarrow> 'w ctl \<Rightarrow> bool) \<Rightarrow> bool" where
  "runs_to m s Q \<longleftrightarrow> (\<exists>a s'. run_state m s = (Ok a, s') \<and> Q a s')"

definition same_target :: "Release \<Rightarrow> Release \<Rightarrow> bool" where
  "same_target rel rel' \<longleftrightarrow> rel_spec rel' = rel_spec rel \<and> rel_name rel' = rel_name rel
     \<and> rel_namespace rel' = rel_namespace rel \<and> rel_generation rel' = rel_generation rel"

text \<open>
  \<open>\<mu>\<close> is the work that is left, \<open>env\<close> what the other controllers do. \<open>J\<close> holds at any time, \<open>I\<close> when the
  other controllers have caught up: then the calls of the controller succeed and make no new work.
  The self-upgrade is complete or does some of the work; the pipeline is complete and nothing is
  left, or it does some of the work.
\<close>

definition does_work :: "('w ctl \<Rightarrow> bool) \<Rightarrow> ('w ctl \<Rightarrow> nat) \<Rightarrow> 'w ctl \<Rightarrow> 'w ctl \<Rightarrow> bool" where
  "does_work J \<mu> s s' \<longleftrightarrow> J s' \<and> \<mu> s' < \<mu> s"

definition no_new_work :: "('w ctl \<Rightarrow> bool) \<Rightarrow> ('w ctl \<Rightarrow> nat) \<Rightarrow> 'w ctl \<Rightarrow> 'w ctl \<Rightarrow> bool" where
  "no_new_work I \<mu> s s' \<longleftrightarrow> I s' \<and> \<mu> s' \<le> \<mu> s"

text \<open>What the invariants and the work depend on: not on the status of the Release.\<close>

definition target_invariants :: "('w ctl \<Rightarrow> bool) \<Rightarrow> ('w ctl \<Rightarrow> bool) \<Rightarrow> ('w ctl \<Rightarrow> nat) \<Rightarrow> ('w \<Rightarrow> 'w) \<Rightarrow> bool" where
  "target_invariants I J \<mu> env \<longleftrightarrow>
     (\<forall>s rel. same_target (ct_release s) rel \<longrightarrow> (I s \<longrightarrow> I (s\<lparr>ct_release := rel\<rparr>)) \<and> (J s \<longrightarrow> J (s\<lparr>ct_release := rel\<rparr>))
        \<and> \<mu> (s\<lparr>ct_release := rel\<rparr>) = \<mu> s)
   \<and> (\<forall>s. I s \<longrightarrow> J s)
   \<and> (\<forall>s. J s \<longrightarrow> no_new_work I \<mu> s (s\<lparr>ct_world := env (ct_world s)\<rparr>))"

definition working_cluster ::
  "'w ReleaseReconciler \<Rightarrow> ('w ctl \<Rightarrow> bool) \<Rightarrow> ('w ctl \<Rightarrow> bool) \<Rightarrow> (ResolvedManifest \<Rightarrow> bool) \<Rightarrow> (Config \<Rightarrow> bool)
     \<Rightarrow> ('w ctl \<Rightarrow> nat) \<Rightarrow> ('w \<Rightarrow> 'w) \<Rightarrow> bool" where
  "working_cluster r I J M C \<mu> env \<longleftrightarrow> target_invariants I J \<mu> env \<and> (\<forall>s. I s \<longrightarrow>
     runs_to (lcmUpgradeConfig r (ct_release s)) s (\<lambda>config s1.
       runs_to (on_world (reconcileLCM r config)) s1 (\<lambda>st s2.
         status_complete st \<and> no_new_work I \<mu> s s2 \<or> \<not> status_complete st \<and> does_work J \<mu> s s2))
   \<and> runs_to (on_world (getOrRetrieveManifest r (ct_release s))) s (\<lambda>m s1. no_new_work I \<mu> s s1 \<and> M m)
   \<and> (\<forall>m. M m \<longrightarrow> runs_to (on_world (parseUpgradeConfig r m (ct_release s))) s (\<lambda>c s1. no_new_work I \<mu> s s1 \<and> C c))
   \<and> (\<forall>c. C c \<longrightarrow> runs_to (cleanup_phase r c) s (\<lambda>_ s1. no_new_work I \<mu> s s1)
        \<and> runs_to (on_world (run_pipeline r c)) s (\<lambda>states s1.
            AllComplete states \<and> I s1 \<and> \<mu> s1 = 0 \<or> \<not> AllComplete states \<and> does_work J \<mu> s s1)))"

text \<open>The special case: every phase is complete.\<close>

definition quiet_cluster ::
  "'w ReleaseReconciler \<Rightarrow> ('w ctl \<Rightarrow> bool) \<Rightarrow> (ResolvedManifest \<Rightarrow> bool) \<Rightarrow> (Config \<Rightarrow> bool) \<Rightarrow> bool" where
  "quiet_cluster r I M C \<longleftrightarrow> (\<forall>s. I s \<longrightarrow>
     (\<forall>rel. same_target (ct_release s) rel \<longrightarrow> I (s\<lparr>ct_release := rel\<rparr>))
   \<and> runs_to (lcmUpgradeConfig r (ct_release s)) s (\<lambda>config s1. I s1
       \<and> runs_to (on_world (reconcileLCM r config)) s1 (\<lambda>st s2. I s2 \<and> status_complete st))
   \<and> runs_to (on_world (getOrRetrieveManifest r (ct_release s))) s (\<lambda>m s1. I s1 \<and> M m)
   \<and> (\<forall>m. M m \<longrightarrow> runs_to (on_world (parseUpgradeConfig r m (ct_release s))) s (\<lambda>c s1. I s1 \<and> C c))
   \<and> (\<forall>c. C c \<longrightarrow> runs_to (cleanup_phase r c) s (\<lambda>_. I)
        \<and> runs_to (on_world (run_pipeline r c)) s (\<lambda>states s1. I s1 \<and> AllComplete states)))"

text \<open>One reconciliation, and a round: a reconciliation, then the other controllers.\<close>

definition next_state :: "'w ReleaseReconciler \<Rightarrow> 'w ctl \<Rightarrow> 'w ctl" where
  "next_state r s = snd (run_state (reconcileNormal r) s)"

definition work_round :: "'w ReleaseReconciler \<Rightarrow> ('w \<Rightarrow> 'w) \<Rightarrow> 'w ctl \<Rightarrow> 'w ctl" where
  "work_round r env s = (let s' = next_state r s in s'\<lparr>ct_world := env (ct_world s')\<rparr>)"

lemma runs_toE:
  assumes "runs_to m s Q"
  obtains a s' where "run_state m s = (Ok a, s')" "Q a s'"
  using assms unfolding runs_to_def by blast

lemma working_clusterD:
  assumes "working_cluster r I J M C \<mu> env" and "I s"
  shows "runs_to (lcmUpgradeConfig r (ct_release s)) s (\<lambda>config s1.
       runs_to (on_world (reconcileLCM r config)) s1 (\<lambda>st s2.
         status_complete st \<and> no_new_work I \<mu> s s2 \<or> \<not> status_complete st \<and> does_work J \<mu> s s2))"
    and "runs_to (on_world (getOrRetrieveManifest r (ct_release s))) s (\<lambda>m s1. no_new_work I \<mu> s s1 \<and> M m)"
    and "M m \<Longrightarrow> runs_to (on_world (parseUpgradeConfig r m (ct_release s))) s (\<lambda>c s1. no_new_work I \<mu> s s1 \<and> C c)"
    and "C c \<Longrightarrow> runs_to (cleanup_phase r c) s (\<lambda>_ s1. no_new_work I \<mu> s s1)"
    and "C c \<Longrightarrow> runs_to (on_world (run_pipeline r c)) s (\<lambda>states s1.
            AllComplete states \<and> I s1 \<and> \<mu> s1 = 0 \<or> \<not> AllComplete states \<and> does_work J \<mu> s s1)"
  using assms unfolding working_cluster_def by blast+

lemma working_invariants: "working_cluster r I J M C \<mu> env \<Longrightarrow> target_invariants I J \<mu> env"
  by (simp add: working_cluster_def)

lemma target_invariantsD:
  assumes "target_invariants I J \<mu> env"
  shows "same_target (ct_release s) rel \<Longrightarrow> I s \<Longrightarrow> I (s\<lparr>ct_release := rel\<rparr>)"
    and "same_target (ct_release s) rel \<Longrightarrow> J s \<Longrightarrow> J (s\<lparr>ct_release := rel\<rparr>)"
    and "same_target (ct_release s) rel \<Longrightarrow> \<mu> (s\<lparr>ct_release := rel\<rparr>) = \<mu> s"
    and "I s \<Longrightarrow> J s"
    and "J s \<Longrightarrow> no_new_work I \<mu> s (s\<lparr>ct_world := env (ct_world s)\<rparr>)"
  using assms unfolding target_invariants_def by blast+

lemma no_new_work_trans: "no_new_work I \<mu> s s' \<Longrightarrow> no_new_work I \<mu> s' s'' \<Longrightarrow> no_new_work I \<mu> s s''"
  by (auto simp: no_new_work_def)

lemma same_target_rest:
  assumes "rest_of rel' = rest_of rel"
  shows "same_target rel rel'"
  using rest_ofD [OF assms] rest_generation [OF assms] by (simp add: same_target_def)

text \<open>A Release that is applied, as its status shows it.\<close>

definition applied_at_target :: "'w ReleaseReconciler \<Rightarrow> Release \<Rightarrow> bool" where
  "applied_at_target r rel \<longleftrightarrow>
     status_observed_generation (rel_status rel) = rel_generation rel
   \<and> true_view (view (rc_conditions r) rel ConditionLCMUpgraded)
   \<and> view (rc_conditions r) rel ConditionApplied
       = Some (ConditionTrue, UpgradeSucceeded, ''All upgrade phases completed successfully'')
   \<and> status_version (rel_status rel) = spec_version (rel_spec rel)"

text \<open>How many stages are before the pipeline: observing the target, the self-upgrade.\<close>

definition stages_left :: "'w ReleaseReconciler \<Rightarrow> Release \<Rightarrow> nat" where
  "stages_left r rel =
     (if status_observed_generation (rel_status rel) \<noteq> rel_generation rel then 2
      else if \<not> true_view (view (rc_conditions r) rel ConditionLCMUpgraded) then 1 else 0)"

context release_controller
begin

lemma work_updated:
  assumes "target_invariants I J \<mu> env" and "rest_of rel = rest_of (ct_release s)"
  shows "no_new_work I \<mu> t s \<Longrightarrow> no_new_work I \<mu> t (s\<lparr>ct_release := rel\<rparr>)"
    and "does_work J \<mu> t s \<Longrightarrow> does_work J \<mu> t (s\<lparr>ct_release := rel\<rparr>)"
  using target_invariantsD(1-3) [OF assms(1) same_target_rest [OF assms(2)]]
  by (auto simp: no_new_work_def does_work_def)

lemma working_self_upgrade:
  assumes "working_cluster r I J M C \<mu> env" and "I s"
  shows "\<exists>e s1. run_state (lcm_phase r) s = (Ok e, s1)
     \<and> (no_new_work I \<mu> s s1 \<and> true_view (sees s1 ConditionLCMUpgraded) \<and> (true_view (sees s ConditionLCMUpgraded) \<longrightarrow> e = None)
        \<or> does_work J \<mu> s s1 \<and> e \<noteq> None \<and> \<not> true_view (sees s ConditionLCMUpgraded))"
proof (cases "true_view (sees s ConditionLCMUpgraded)")
  case True
  then have "IsStatusConditionTrue (rc_conditions r) (release_conditions (ct_release s)) ConditionLCMUpgraded"
    unfolding is_true by (auto simp: true_view_def view_def find_release_condition_def view_of_def)
  then show ?thesis using True assms(2) by (simp add: lcm_phase_def Let_def run_ctl no_new_work_def)
next
  case False
  then have gate: "\<not> IsStatusConditionTrue (rc_conditions r) (release_conditions (ct_release s)) ConditionLCMUpgraded"
    unfolding is_true by (auto simp: true_view_def view_def find_release_condition_def view_of_def)
  obtain config s1 where config: "run_state (lcmUpgradeConfig r (ct_release s)) s = (Ok config, s1)"
    and lcm: "runs_to (on_world (reconcileLCM r config)) s1 (\<lambda>st s2.
         status_complete st \<and> no_new_work I \<mu> s s2 \<or> \<not> status_complete st \<and> does_work J \<mu> s s2)"
    by (rule runs_toE [OF working_clusterD(1) [OF assms]]) blast
  obtain st s2 where st: "run_state (on_world (reconcileLCM r config)) s1 = (Ok st, s2)"
    "status_complete st \<and> no_new_work I \<mu> s s2 \<or> \<not> status_complete st \<and> does_work J \<mu> s s2"
    by (rule runs_toE [OF lcm]) blast
  let ?upd = "updatePhaseCondition (rc_conditions r) (ct_release s2) (PhaseLCM, st)"
  have run: "run_state (lcm_phase r) s
      = (Ok (if ps_state st \<noteq> UpgradeSucceeded then Some \<lparr>requeue_after = requeueInterval\<rparr> else None),
         s2\<lparr>ct_release := ?upd\<rparr>)"
    using gate config st(1) by (simp add: lcm_phase_def Let_def run_ctl run_handle run_attempt split: prod.splits)
  note updated = work_updated [OF working_invariants [OF assms(1)] only_rest [OF only_updatePhaseCondition]]
  show ?thesis
  proof (cases "status_complete st")
    case True
    then have "true_view (sees (s2\<lparr>ct_release := ?upd\<rparr>) ConditionLCMUpgraded)"
      by (auto simp: view_updatePhaseCondition phase_view_def true_view_def)
    then show ?thesis using run True st(2) updated(1) False by blast
  next
    case busy: False
    then have "ps_state st \<noteq> UpgradeSucceeded" by (auto simp: status_complete_def)
    then show ?thesis using run busy st(2) updated(2) False by auto
  qed
qed

lemma working_resolve:
  assumes "working_cluster r I J M C \<mu> env" and "I s"
  shows "\<exists>m s1. run_state (resolve_manifest r) s = (Ok m, s1) \<and> no_new_work I \<mu> s s1 \<and> M m"
proof -
  obtain m s1 where m: "run_state (on_world (getOrRetrieveManifest r (ct_release s))) s = (Ok m, s1)"
    "no_new_work I \<mu> s s1" "M m"
    by (rule runs_toE [OF working_clusterD(2) [OF assms]]) blast
  let ?f = "setCondition (rc_conditions r) ConditionManifestResolved ConditionTrue UpgradeSucceeded
      ''Release manifest retrieved successfully''"
  have "run_state (resolve_manifest r) s = (Ok m, s1\<lparr>ct_release := ?f (ct_release s1)\<rparr>)"
    using m(1) by (simp add: resolve_manifest_def Let_def run_ctl run_handle run_attempt split: prod.splits)
  moreover have "no_new_work I \<mu> s (s1\<lparr>ct_release := ?f (ct_release s1)\<rparr>)"
    by (rule work_updated(1) [OF working_invariants [OF assms(1)] only_rest [OF only_setCondition] m(2)])
  ultimately show ?thesis using m(3) by blast
qed

text \<open>How a pipeline that did not fail leaves the Release.\<close>

definition upgraded_now :: "'w ctl \<Rightarrow> Config \<Rightarrow> 'w ctl \<Rightarrow> bool" where
  "upgraded_now s c s1 \<longleftrightarrow> all_true r (ct_release s1) \<and> status_version (rel_status (ct_release s1)) = cfg_release_version c
     \<and> sees s1 ConditionManifestResolved = sees s ConditionManifestResolved"

lemma working_pipeline:
  assumes "working_cluster r I J M C \<mu> env" and "I s" and "C c"
  shows "\<exists>res s1. run_state (pipeline_phase r c) s = (Ok res, s1)
     \<and> (I s1 \<and> \<mu> s1 = 0 \<and> upgraded_now s c s1 \<or> does_work J \<mu> s s1)"
proof -
  obtain states s1 where p: "run_state (on_world (run_pipeline r c)) s = (Ok states, s1)"
    "AllComplete states \<and> I s1 \<and> \<mu> s1 = 0 \<or> \<not> AllComplete states \<and> does_work J \<mu> s s1"
    by (rule runs_toE [OF working_clusterD(5) [OF assms]])
  let ?upd = "updatePhaseConditions (rc_conditions r) (phase_entries r states) (ct_release s1)"
  note rest = only_rest [OF only_updatePhaseConditions, of "rc_conditions r" "phase_entries r states" "ct_release s1"]
  note inv = working_invariants [OF assms(1)]
  have same: "ct_release s1 = ct_release s" and ran: "run_state (run_pipeline r c) (ct_world s) = (Ok states, ct_world s1)"
    using p(1) by (auto simp: run_ctl split: prod.splits)
  show ?thesis
  proof (cases "AllComplete states")
    case True
    let ?s2 = "s1\<lparr>ct_release := set_status_version (cfg_release_version c) ?upd\<rparr>"
    have run: "run_state (pipeline_phase r c) s = (Ok \<lparr>requeue_after = 0\<rparr>, ?s2)"
      using p(1) True by (simp add: pipeline_phase_def Let_def run_ctl run_handle run_attempt split: prod.splits)
    have target: "same_target (ct_release s1) (set_status_version (cfg_release_version c) ?upd)"
      using same_target_rest [OF rest] by (simp add: same_target_def set_status_version_def)
    have sees: "sees ?s2 t = view (rc_conditions r) ?upd t" for t
      by (simp add: view_def find_release_condition_def release_conditions_def set_status_version_def)
    have "all_true r (ct_release ?s2)"
      unfolding all_true_def sees using run_pipeline_complete [OF ran True]
      by (fastforce simp: phases_after_pipeline phase_view_def true_view_def)
    moreover have "sees ?s2 ConditionManifestResolved = sees s ConditionManifestResolved"
      using others_after_pipeline [of ConditionManifestResolved states "ct_release s1"]
        sees [of ConditionManifestResolved] same by simp
    ultimately have "upgraded_now s c ?s2" by (simp add: upgraded_now_def set_status_version_def)
    moreover have "I ?s2" "\<mu> ?s2 = 0"
      using target_invariantsD(1,3) [OF inv target] p(2) True by simp_all
    ultimately show ?thesis using run by blast
  next
    case False
    have "run_state (pipeline_phase r c) s = (Ok \<lparr>requeue_after = requeueInterval\<rparr>, s1\<lparr>ct_release := ?upd\<rparr>)"
      using p(1) False by (simp add: pipeline_phase_def Let_def run_ctl run_handle run_attempt split: prod.splits)
    moreover have "does_work J \<mu> s (s1\<lparr>ct_release := ?upd\<rparr>)"
      using work_updated(2) [OF inv rest] p(2) False by blast
    ultimately show ?thesis by blast
  qed
qed

lemma does_work_after: "no_new_work I \<mu> s s1 \<Longrightarrow> does_work J \<mu> s1 s2 \<Longrightarrow> does_work J \<mu> s s2"
  by (auto simp: no_new_work_def does_work_def)

text \<open>The Release with every phase at its target.\<close>

definition upgraded_release :: "'w ctl \<Rightarrow> bool" where
  "upgraded_release s \<longleftrightarrow> all_true r (ct_release s)
     \<and> status_version (rel_status (ct_release s)) = spec_version (rel_spec (ct_release s))
     \<and> (\<exists>m. sees s ConditionManifestResolved = Some (ConditionTrue, UpgradeSucceeded, m))"

lemma working_platform:
  assumes "working_cluster r I J M C \<mu> env" and "I s"
  shows "\<exists>res s1. run_state (platform_upgrade r) s = (Ok res, s1)
     \<and> (I s1 \<and> \<mu> s1 = 0 \<and> upgraded_release s1 \<or> does_work J \<mu> s s1)"
proof -
  obtain m s1 where m: "run_state (resolve_manifest r) s = (Ok m, s1)" "no_new_work I \<mu> s s1" "M m"
    using working_resolve [OF assms] by blast
  have I1: "I s1" using m(2) by (simp add: no_new_work_def)
  obtain c s2 where c: "run_state (on_world (parseUpgradeConfig r m (ct_release s1))) s1 = (Ok c, s2)"
    "no_new_work I \<mu> s1 s2" "C c"
    by (rule runs_toE [OF working_clusterD(3) [OF assms(1) I1 m(3)]]) blast
  have I2: "I s2" using c(2) by (simp add: no_new_work_def)
  obtain u s3 where u: "run_state (cleanup_phase r c) s2 = (Ok u, s3)" "no_new_work I \<mu> s2 s3"
    by (rule runs_toE [OF working_clusterD(4) [OF assms(1) I2 c(3)]])
  have I3: "I s3" using u(2) by (simp add: no_new_work_def)
  obtain res s4 where p: "run_state (pipeline_phase r c) s3 = (Ok res, s4)"
    "I s4 \<and> \<mu> s4 = 0 \<and> upgraded_now s3 c s4 \<or> does_work J \<mu> s3 s4"
    using working_pipeline [OF assms(1) I3 c(3)] by blast
  have run: "run_state (platform_upgrade r) s = (Ok res, s4)"
    using m(1) c(1) u(1) p(1)
    by (simp add: platform_upgrade_def run_ctl run_handle run_attempt split: prod.splits)
  have "does_work J \<mu> s s4" if "does_work J \<mu> s3 s4"
    using that m(2) c(2) u(2) by (meson does_work_after no_new_work_trans)
  moreover have "upgraded_release s4" if "upgraded_now s3 c s4"
  proof -
    have "fst (run_state (parseUpgradeConfig r m (ct_release s1)) (ct_world s1)) = Ok c" "ct_release s2 = ct_release s1"
      using c(1) by (auto simp: run_ctl split: prod.splits)
    moreover have "ct_release s3 = ct_release s2" by (rule keepsD [OF keeps_cleanup_phase u(1)])
    moreover have "rel_spec (ct_release s4) = rel_spec (ct_release s)"
      using platform_upgrade_effect [OF run] by (simp add: platform_effect_def)
    moreover note rest_ofD(1) [OF keepsD [OF keeps_resolve_manifest m(1)]]
    ultimately show ?thesis
      using that returnsD [OF config_version, of r m "ct_release s1" "ct_world s1" c]
        resolve_manifest_Ok [OF m(1), of ConditionManifestResolved]
      by (auto simp: prod_eq_iff upgraded_release_def upgraded_now_def)
  qed
  ultimately show ?thesis using run p(2) by blast
qed

lemma working_observed:
  assumes "working_cluster r I J M C \<mu> env" and "I s"
    and "status_observed_generation (rel_status (ct_release s)) = rel_generation (ct_release s)"
  shows "\<exists>res s5. run_state (reconcileNormal r) s = (Ok res, s5\<lparr>ct_release :=
       updateAppliedCondition (rc_conditions r) (Phases (rc_pipeline r)) (ct_release s5)\<rparr>)
     \<and> (does_work J \<mu> s s5 \<and> (true_view (sees s ConditionLCMUpgraded) \<longrightarrow> true_view (sees s5 ConditionLCMUpgraded))
        \<or> no_new_work I \<mu> s s5 \<and> true_view (sees s5 ConditionLCMUpgraded)
          \<and> (true_view (sees s ConditionLCMUpgraded) \<longrightarrow> \<mu> s5 = 0 \<and> upgraded_release s5))"
proof -
  obtain e s1 where e: "run_state (lcm_phase r) s = (Ok e, s1)"
    "no_new_work I \<mu> s s1 \<and> true_view (sees s1 ConditionLCMUpgraded) \<and> (true_view (sees s ConditionLCMUpgraded) \<longrightarrow> e = None)
        \<or> does_work J \<mu> s s1 \<and> e \<noteq> None \<and> \<not> true_view (sees s ConditionLCMUpgraded)"
    using working_self_upgrade [OF assms(1,2)] by blast
  show ?thesis
  proof (cases e)
    case (Some result)
    then have "run_state (reconcileNormal r) s = (Ok result, s1\<lparr>ct_release :=
       updateAppliedCondition (rc_conditions r) (Phases (rc_pipeline r)) (ct_release s1)\<rparr>)"
      using assms(3) e(1) by (simp add: reconcileNormal_def run_ctl run_attempt)
    then show ?thesis using e(2) Some by blast
  next
    case None
    with e(2) have s1: "no_new_work I \<mu> s s1" "true_view (sees s1 ConditionLCMUpgraded)" by auto
    then have "I s1" by (simp add: no_new_work_def)
    obtain res s5 where p: "run_state (platform_upgrade r) s1 = (Ok res, s5)"
      "I s5 \<and> \<mu> s5 = 0 \<and> upgraded_release s5 \<or> does_work J \<mu> s1 s5"
      using working_platform [OF assms(1) \<open>I s1\<close>] by blast
    have run: "run_state (reconcileNormal r) s = (Ok res, s5\<lparr>ct_release :=
       updateAppliedCondition (rc_conditions r) (Phases (rc_pipeline r)) (ct_release s5)\<rparr>)"
      using assms(3) e(1) None p(1) by (simp add: reconcileNormal_def run_ctl run_attempt)
    have lcm: "true_view (sees s5 ConditionLCMUpgraded)"
      using s1(2) platform_upgrade_keeps_lcm [OF p(1)] by simp
    show ?thesis
      using p(2)
    proof
      assume "I s5 \<and> \<mu> s5 = 0 \<and> upgraded_release s5"
      then show ?thesis using run lcm by (auto simp: no_new_work_def)
    next
      assume "does_work J \<mu> s1 s5"
      then show ?thesis using run lcm does_work_after [OF s1(1)] by blast
    qed
  qed
qed

lemma next_observed:
  "status_observed_generation (rel_status (ct_release (next_state r s))) = rel_generation (ct_release (next_state r s))"
  using normal_target [OF surjective_pairing, of s] by (simp add: next_state_def)

text \<open>An observed Release is applied by a reconciliation that finds nothing left to do, and stays so.\<close>

lemma applied_after:
  assumes "true_view (sees s5 ConditionLCMUpgraded)" and "upgraded_release s5"
    and "next_state r s = s5\<lparr>ct_release := updateAppliedCondition (rc_conditions r) (Phases (rc_pipeline r)) (ct_release s5)\<rparr>"
  shows "applied_at_target r (ct_release (next_state r s))"
proof -
  let ?upd = "updateAppliedCondition (rc_conditions r) (Phases (rc_pipeline r))"
  have parts: "all_true r (ct_release s5)" "status_version (rel_status (ct_release s5)) = spec_version (rel_spec (ct_release s5))"
    using assms(2) by (simp_all add: upgraded_release_def)
  obtain m where m: "sees s5 ConditionManifestResolved = Some (ConditionTrue, UpgradeSucceeded, m)"
    using assms(2) by (auto simp: upgraded_release_def)
  have "all_succeeded (scan_phases (rc_conditions r) (ct_release s5) (Phases (rc_pipeline r)))"
    using parts(1) by (simp add: scan_phases_view all_true_def)
  moreover have "\<nexists>m. sees s5 ConditionLCMUpgraded = Some (ConditionFalse, UpgradeFailed, m)"
    using assms(1) by (auto simp: true_view_def)
  ultimately have "view (rc_conditions r) (?upd (ct_release s5)) ConditionApplied
      = Some (ConditionTrue, UpgradeSucceeded, ''All upgrade phases completed successfully'')"
    by (simp add: view_updateApplied m updateAppliedFromPhases_def Let_def)
  then show ?thesis
    using next_observed [of s] assms(1) parts(2) rest_ofD(1,2) [OF only_rest [OF only_updateAppliedCondition]]
    by (simp add: applied_at_target_def assms(3) view_updateApplied_other)
qed

text \<open>The first round of a target observes it.\<close>

lemma working_observes:
  assumes "target_invariants I J \<mu> env" and "I s"
    and "status_observed_generation (rel_status (ct_release s)) \<noteq> rel_generation (ct_release s)"
  shows "J (next_state r s) \<and> \<mu> (next_state r s) = \<mu> s
     \<and> stages_left r (ct_release s) = 2 \<and> stages_left r (ct_release (next_state r s)) \<le> 1"
proof -
  have target: "same_target (ct_release s) (observe_generation r (ct_release s))"
    using rest_ofD [OF rest_observe_generation, of r "ct_release s"]
    by (simp add: same_target_def observe_generation_simps)
  have next_s: "next_state r s = s\<lparr>ct_release := observe_generation r (ct_release s)\<rparr>"
    using assms(3) by (simp add: next_state_def reconcileNormal_def run_ctl run_attempt)
  have "stages_left r (ct_release (next_state r s)) \<le> 1" "stages_left r (ct_release s) = 2"
    using next_observed [of s] assms(3) by (simp_all add: stages_left_def)
  moreover have "\<mu> (next_state r s) = \<mu> s" "J (next_state r s)"
    unfolding next_s using target_invariantsD(2,3,4) [OF assms(1)] target assms(2) by blast+
  ultimately show ?thesis by simp
qed

text \<open>A reconciliation with the other controllers caught up: it brings the Release to its next stage, or does
  some of the work, or finds nothing left and applies the Release.\<close>

lemma working_next:
  assumes "working_cluster r I J M C \<mu> env" and "I s"
  shows "J (next_state r s) \<and> (\<mu> s + stages_left r (ct_release s) = 0 \<longrightarrow> applied_at_target r (ct_release (next_state r s)))
     \<and> \<mu> (next_state r s) + stages_left r (ct_release (next_state r s)) \<le> \<mu> s + stages_left r (ct_release s) - 1"
proof (cases "status_observed_generation (rel_status (ct_release s)) = rel_generation (ct_release s)")
  case False
  from working_observes [OF working_invariants [OF assms(1)] assms(2) this] show ?thesis by simp
next
  case True
  let ?upd = "updateAppliedCondition (rc_conditions r) (Phases (rc_pipeline r))"
  obtain res s5 where run: "run_state (reconcileNormal r) s = (Ok res, s5\<lparr>ct_release := ?upd (ct_release s5)\<rparr>)"
    and s5: "does_work J \<mu> s s5 \<and> (true_view (sees s ConditionLCMUpgraded) \<longrightarrow> true_view (sees s5 ConditionLCMUpgraded))
        \<or> no_new_work I \<mu> s s5 \<and> true_view (sees s5 ConditionLCMUpgraded)
          \<and> (true_view (sees s ConditionLCMUpgraded) \<longrightarrow> \<mu> s5 = 0 \<and> upgraded_release s5)"
    using working_observed [OF assms True] by blast
  have next_s: "next_state r s = s5\<lparr>ct_release := ?upd (ct_release s5)\<rparr>" by (simp add: next_state_def run)
  note inv = working_invariants [OF assms(1)]
  note updated = work_updated [OF inv only_rest [OF only_updateAppliedCondition],
      of s s5 "rc_conditions r" "Phases (rc_pipeline r)", folded next_s]
  have lcm: "sees (next_state r s) ConditionLCMUpgraded = sees s5 ConditionLCMUpgraded"
    by (simp add: next_s view_updateApplied_other)
  have stages: "stages_left r (ct_release s) = (if true_view (sees s ConditionLCMUpgraded) then 0 else 1)"
    "stages_left r (ct_release (next_state r s)) = (if true_view (sees s5 ConditionLCMUpgraded) then 0 else 1)"
    using True next_observed [of s] lcm by (simp_all add: stages_left_def)
  from s5 show ?thesis
  proof
    assume busy: "does_work J \<mu> s s5 \<and> (true_view (sees s ConditionLCMUpgraded) \<longrightarrow> true_view (sees s5 ConditionLCMUpgraded))"
    then show ?thesis using updated(2) stages by (auto simp: does_work_def)
  next
    assume step: "no_new_work I \<mu> s s5 \<and> true_view (sees s5 ConditionLCMUpgraded)
        \<and> (true_view (sees s ConditionLCMUpgraded) \<longrightarrow> \<mu> s5 = 0 \<and> upgraded_release s5)"
    have target: "same_target (ct_release s5) (?upd (ct_release s5))"
      by (rule same_target_rest [OF only_rest [OF only_updateAppliedCondition]])
    have "\<mu> (next_state r s) = \<mu> s5" unfolding next_s by (rule target_invariantsD(3) [OF inv target])
    moreover have "J (next_state r s)"
      using updated(1) step target_invariantsD(4) [OF inv] by (auto simp: no_new_work_def)
    ultimately show ?thesis
      using step stages applied_after [OF _ _ next_s] by (auto simp: no_new_work_def)
  qed
qed

lemma working_rounds:
  assumes "working_cluster r I J M C \<mu> env" and "I s"
  shows "I ((work_round r env ^^ n) s)
     \<and> \<mu> ((work_round r env ^^ n) s) + stages_left r (ct_release ((work_round r env ^^ n) s))
         \<le> \<mu> s + stages_left r (ct_release s) - n"
proof (induction n)
  case 0
  show ?case using assms(2) by simp
next
  case (Suc n)
  let ?s = "(work_round r env ^^ n) s"
  have step: "J (next_state r ?s)" "\<mu> (next_state r ?s) + stages_left r (ct_release (next_state r ?s))
      \<le> \<mu> ?s + stages_left r (ct_release ?s) - 1"
    using working_next [OF assms(1), of ?s] Suc by blast+
  then have "no_new_work I \<mu> (next_state r ?s) (work_round r env ?s)"
    using target_invariantsD(5) [OF working_invariants [OF assms(1)]] by (simp add: work_round_def Let_def)
  moreover have "ct_release (work_round r env ?s) = ct_release (next_state r ?s)" by (simp add: work_round_def Let_def)
  ultimately have "I (work_round r env ?s)" and
    "\<mu> (work_round r env ?s) + stages_left r (ct_release (work_round r env ?s)) \<le> \<mu> s + stages_left r (ct_release s) - Suc n"
    using step(2) Suc unfolding no_new_work_def by auto
  then show ?case by simp
qed

lemma working_applies:
  assumes "working_cluster r I J M C \<mu> env" and "I s" and "\<mu> s + 3 \<le> n"
  shows "applied_at_target r (ct_release ((work_round r env ^^ n) s))"
proof -
  obtain k where n: "n = Suc k" using assms(3) by (cases n) auto
  let ?s = "(work_round r env ^^ k) s"
  have "stages_left r (ct_release s) \<le> 2" by (simp add: stages_left_def)
  then have "\<mu> ?s + stages_left r (ct_release ?s) = 0"
    using working_rounds [OF assms(1,2), of k] assms(3) n by linarith
  moreover have "I ?s" using working_rounds [OF assms(1,2), of k] by blast
  ultimately have "applied_at_target r (ct_release (next_state r ?s))"
    using working_next [OF assms(1) \<open>I ?s\<close>] by simp
  then show ?thesis by (simp add: n work_round_def Let_def)
qed

end

section \<open>Properties\<close>

text \<open>Nothing to wait for is no work left, with no other controllers.\<close>

lemma work_round_alone: "work_round r (\<lambda>w. w) = next_state r"
  by (simp add: fun_eq_iff work_round_def Let_def)

lemma quiet_working:
  assumes "quiet_cluster r I M C"
  shows "working_cluster r I I M C (\<lambda>_. 0) (\<lambda>w. w)"
proof -
  have "target_invariants I I (\<lambda>_. 0) (\<lambda>w. w)"
    using assms by (auto simp: target_invariants_def quiet_cluster_def no_new_work_def)
  moreover note quiet = assms [unfolded quiet_cluster_def, rule_format]
  ultimately show ?thesis
    unfolding working_cluster_def no_new_work_def does_work_def
    using assms unfolding quiet_cluster_def runs_to_def by fastforce
qed

lemma quiet_rounds:
  assumes "release_controller r" and "quiet_cluster r I M C" and "I s"
  shows "I ((next_state r ^^ n) s)"
  using release_controller.working_rounds [OF assms(1) quiet_working [OF assms(2)] assms(3), of n]
  unfolding work_round_alone by blast

text \<open>
  On a cluster with nothing to wait for - the calls succeed and the phases are complete - three
  reconciliations are enough, from any status, and every later one leaves the Release applied.
\<close>

theorem quiet_cluster_applies:
  assumes "release_controller r" and "quiet_cluster r I M C" and "I s" and "3 \<le> n"
  shows "applied_at_target r (ct_release ((next_state r ^^ n) s))"
  using release_controller.working_applies [OF assms(1) quiet_working [OF assms(2)] assms(3)] assms(4)
  by (simp add: work_round_alone)

text \<open>The small cluster of the life cycle is such a cluster.\<close>

definition life_states :: "unit ctl \<Rightarrow> bool" where
  "life_states s \<longleftrightarrow> same_target witness_release (ct_release s)
     \<and> (ct_raw s = fmempty \<or> ct_raw s = fmupd ''reg:2'' [] fmempty)"

definition life_manifest :: "ResolvedManifest \<Rightarrow> bool" where
  "life_manifest m \<longleftrightarrow> fst (run_state (getOrRetrieveManifest life_controller witness_release) ()) = Ok m"

definition life_config :: "Config \<Rightarrow> bool" where
  "life_config c \<longleftrightarrow> (\<exists>m. life_manifest m
     \<and> fst (run_state (parseUpgradeConfig life_controller m witness_release) ()) = Ok c)"

lemma same_target_calls:
  assumes "same_target rel rel'"
  shows "getOrRetrieveManifest r rel' = getOrRetrieveManifest r rel"
    "parseUpgradeConfig r m rel' = parseUpgradeConfig r m rel"
    "lcmUpgradeConfig r rel' = lcmUpgradeConfig r rel"
  using assms
  by (simp_all add: same_target_def getOrRetrieveManifest_def parseUpgradeConfig_def parseDrainOpts_def release_nn_def
      runtimeHelmChartConfigs_def lcmUpgradeConfig_def getOrRetrieveUpgradeManifest_def)

lemma life_calls:
  "case fst (run_state (getOrRetrieveManifest life_controller witness_release) ()) of Ok m \<Rightarrow>
     (case fst (run_state (parseUpgradeConfig life_controller m witness_release) ()) of Ok c \<Rightarrow>
       (case fst (run_state (run_pipeline life_controller c) ()) of Ok states \<Rightarrow> AllComplete states | _ \<Rightarrow> False)
     | _ \<Rightarrow> False)
   | _ \<Rightarrow> False"
  by code_simp

lemma on_unit_world: "run_state (on_world m) s = (fst (run_state m ()), s)" for s :: "unit ctl"
  by (simp add: run_ctl case_prod_beta)

lemma life_parts:
  "rc_client life_controller = witness_rke2_kube" "rc_parse_solution life_controller d = Ok []"
  "rc_parse_core life_controller d = Ok \<lparr>lc_charts = [], lc_repositories = []\<rparr>"
  "rc_read_manifest life_controller = ReadManifest witness_registry"
  by (simp_all add: life_controller_def manager_reconciler_def witness_controller_libs_def)

lemma life_read: "run_state (ReadManifest witness_registry i) () = (Ok [], ())"
  by (simp add: ReadManifest_def ReadURI_def witness_registry_def run_attempt run_wrap)

lemma life_upgrade_config:
  assumes "ct_raw s = fmempty \<or> ct_raw s = fmupd ''reg:2'' [] fmempty"
  shows "run_state (getOrRetrieveUpgradeManifest life_controller witness_release) s
    = (Ok [], s\<lparr>ct_raw := fmupd ''reg:2'' [] fmempty\<rparr>)"
  using assms
  by (auto simp: getOrRetrieveUpgradeManifest_def Let_def run_attempt run_ctl life_parts life_read witness_release_def)

lemma life_lcm:
  assumes "life_states s"
  shows "\<exists>c s1. run_state (lcmUpgradeConfig life_controller (ct_release s)) s = (Ok c, s1) \<and> life_states s1
     \<and> cfg_helm_charts c = []"
proof -
  have "runtimeHelmChartConfigs witness_release cs = fmempty" for cs
    by (simp add: runtimeHelmChartConfigs_def witness_release_def)
  moreover have "lcmUpgradeConfig life_controller (ct_release s) = lcmUpgradeConfig life_controller witness_release"
    using assms by (intro same_target_calls(3)) (simp add: life_states_def)
  ultimately show ?thesis
    using assms life_upgrade_config [of s]
    by (auto simp: lcmUpgradeConfig_def run_attempt life_parts BuildHelmChartConfig_eq lcm_helm_def chart_refs_def
        chart_configs_of_def life_states_def)
qed

lemma life_quiet: "quiet_cluster life_controller life_states life_manifest life_config"
  unfolding quiet_cluster_def
proof (intro allI impI conjI, goal_cases)
  case (1 s rel)
  then show ?case by (simp add: life_states_def same_target_def)
next
  case (2 s)
  then obtain c s1 where c: "run_state (lcmUpgradeConfig life_controller (ct_release s)) s = (Ok c, s1)"
    "life_states s1" "cfg_helm_charts c = []"
    using life_lcm by blast
  have "run_state (reconcileLCM life_controller c) () = (Ok (SkippedStatus PhaseHelmCharts), ())"
    by (simp add: reconcileLCM_def NewHelmReconciler_def HelmReconciler_Reconcile_def c(3) run_handle)
  then show ?case
    using c by (simp add: runs_to_def on_unit_world status_complete_def SkippedStatus_def)
next
  case (3 s)
  then show ?case
    using life_calls unfolding runs_to_def on_unit_world same_target_calls(1) [OF conjunct1 [OF 3 [unfolded life_states_def]]]
    by (auto simp: life_manifest_def split: outcome.splits)
next
  case (4 s m)
  then show ?case
    using life_calls unfolding runs_to_def on_unit_world same_target_calls(2) [OF conjunct1 [OF 4(1) [unfolded life_states_def]]]
    by (auto simp: life_manifest_def life_config_def split: outcome.splits)
next
  case (5 s c)
  have "run_state (cleanup_phase life_controller c) s = (Ok (), s)"
    by (simp add: cleanup_phase_def Let_def run_ctl run_wrap cleanupOldVersionPlans_def run_attempt life_parts
        witness_rke2_kube_def witness_kube_def)
  with 5 show ?case by (simp add: runs_to_def)
next
  case (6 s c)
  then show ?case
    using life_calls unfolding runs_to_def on_unit_world
    by (auto simp: life_manifest_def life_config_def split: outcome.splits)
qed

theorem quiet_cluster_applies_witness:
  "status_version (rel_status (ct_release ((next_state life_controller ^^ 3) life_start))) = ''2''"
proof -
  have start: "life_states life_start"
    by (simp add: life_states_def life_start_def same_target_def)
  have "applied_at_target life_controller (ct_release ((next_state life_controller ^^ 3) life_start))"
    by (rule quiet_cluster_applies [OF life_controller(1) life_quiet start]) simp
  moreover have "life_states ((next_state life_controller ^^ 3) life_start)"
    by (rule quiet_rounds [OF life_controller(1) life_quiet start])
  ultimately show ?thesis
    by (simp add: applied_at_target_def life_states_def same_target_def witness_release_def)
qed

end
