(* ===== verification/Phase_Progress.thy ===== *)
theory Phase_Progress
  imports Pipeline
begin

text \<open>
  Progress of a phase against a cluster that works between two reconciliations. A phase that is not
  complete has done something that brings it closer, measured by a number for each phase; a phase
  that is complete has nothing left to do. The rules below carry this through the pipeline.
\<close>

section \<open>Settling\<close>

text \<open>
  \<open>settles F I \<mu> fin busy m\<close>: in every world with \<open>I\<close> the call \<open>m\<close> returns a value and raises none of
  the measures in \<open>F\<close>. Either the value is final, \<open>\<mu>\<close> is zero and \<open>I\<close> still holds, or the value is a busy
  one and \<open>\<mu>\<close> is lower than before.
\<close>

definition settles ::
  "('w \<Rightarrow> nat) set \<Rightarrow> ('w \<Rightarrow> bool) \<Rightarrow> ('w \<Rightarrow> nat) \<Rightarrow> ('a \<Rightarrow> bool) \<Rightarrow> ('a \<Rightarrow> bool) \<Rightarrow> ('w, 'a) io \<Rightarrow> bool" where
  "settles F I \<mu> fin busy m \<longleftrightarrow> (\<forall>w. I w \<longrightarrow>
     (\<exists>a w'. run_state m w = (Ok a, w') \<and> (\<forall>\<nu> \<in> F. \<nu> w' \<le> \<nu> w)
        \<and> (fin a \<and> \<mu> w' = 0 \<and> I w' \<or> busy a \<and> \<mu> w' < \<mu> w)))"

lemma settlesE:
  assumes "settles F I \<mu> fin busy m" and "I w"
  obtains (final) a w' where "run_state m w = (Ok a, w')" "\<And>\<nu>. \<nu> \<in> F \<Longrightarrow> \<nu> w' \<le> \<nu> w" "fin a" "\<mu> w' = 0" "I w'"
    | (busy) a w' where "run_state m w = (Ok a, w')" "\<And>\<nu>. \<nu> \<in> F \<Longrightarrow> \<nu> w' \<le> \<nu> w" "busy a" "\<mu> w' < \<mu> w"
  using assms unfolding settles_def by blast

lemma settlesI:
  assumes "\<And>w. I w \<Longrightarrow> \<exists>a w'. run_state m w = (Ok a, w') \<and> (\<forall>\<nu> \<in> F. \<nu> w' \<le> \<nu> w)
     \<and> (fin a \<and> \<mu> w' = 0 \<and> I w' \<or> busy a \<and> \<mu> w' < \<mu> w)"
  shows "settles F I \<mu> fin busy m"
  unfolding settles_def by (intro allI impI) (rule assms)

lemma settles_ok: "fin a \<Longrightarrow> settles F I (\<lambda>_. 0) fin busy (ok a)"
  by (simp add: settles_def)

lemma settles_wrap: "settles F I \<mu> fin busy m \<Longrightarrow> settles F I \<mu> fin busy (wrap p m)"
  unfolding settles_def run_wrap by (fastforce split: prod.splits)

text \<open>
  One call after another: the second runs when the first is final, and a first that is busy ends the
  whole with a value that is busy too.
\<close>

lemma settles_attempt:
  assumes "settles F I \<mu> fin busy m" and "\<And>a. fin a \<Longrightarrow> settles F (\<lambda>w. I w \<and> \<mu> w = 0) \<nu> fin' busy' (f a)"
    and "\<And>a. busy a \<Longrightarrow> \<exists>b. busy' b \<and> f a = ok b" and "\<mu> \<in> F" "\<nu> \<in> F"
  shows "settles F I (\<lambda>w. \<mu> w + \<nu> w) fin' busy' (attempt m f)"
proof (rule settlesI)
  fix w assume "I w"
  show "\<exists>b w'. run_state (attempt m f) w = (Ok b, w') \<and> (\<forall>\<rho> \<in> F. \<rho> w' \<le> \<rho> w)
     \<and> (fin' b \<and> \<mu> w' + \<nu> w' = 0 \<and> I w' \<or> busy' b \<and> \<mu> w' + \<nu> w' < \<mu> w + \<nu> w)"
  proof (rule settlesE [OF assms(1) \<open>I w\<close>])
    fix a w'
    assume first: "run_state m w = (Ok a, w')" "\<And>\<rho>. \<rho> \<in> F \<Longrightarrow> \<rho> w' \<le> \<rho> w" "fin a" "\<mu> w' = 0" "I w'"
    show ?thesis
    proof (rule settlesE [OF assms(2) [OF first(3)] conjI [OF first(5,4)]])
      fix b w''
      assume second: "run_state (f a) w' = (Ok b, w'')" "\<And>\<rho>. \<rho> \<in> F \<Longrightarrow> \<rho> w'' \<le> \<rho> w'" "fin' b" "\<nu> w'' = 0"
        "I w'' \<and> \<mu> w'' = 0"
      then show ?thesis using first(1,2) by (force simp: run_attempt intro: order_trans)
    next
      fix b w''
      assume second: "run_state (f a) w' = (Ok b, w'')" "\<And>\<rho>. \<rho> \<in> F \<Longrightarrow> \<rho> w'' \<le> \<rho> w'" "busy' b" "\<nu> w'' < \<nu> w'"
      then have "\<mu> w'' = 0" "\<nu> w'' < \<nu> w" using first(2) [OF assms(5)] first(4) assms(4) by fastforce+
      then show ?thesis using first(1,2) second by (force simp: run_attempt intro: order_trans)
    qed
  next
    fix a w'
    assume first: "run_state m w = (Ok a, w')" "\<And>\<rho>. \<rho> \<in> F \<Longrightarrow> \<rho> w' \<le> \<rho> w" "busy a" "\<mu> w' < \<mu> w"
    obtain b where "busy' b" "f a = ok b" using assms(3) [OF first(3)] by blast
    then show ?thesis using first first(2) [OF assms(5)] by (force simp: run_attempt)
  qed
qed

text \<open>A call before it that only looks.\<close>

definition looks :: "('w \<Rightarrow> nat) set \<Rightarrow> ('w \<Rightarrow> bool) \<Rightarrow> ('a \<Rightarrow> bool) \<Rightarrow> ('w, 'a) io \<Rightarrow> bool" where
  "looks F I P m \<longleftrightarrow> settles F I (\<lambda>_. 0) P (\<lambda>_. False) m"

lemma looksI:
  "(\<And>w. I w \<Longrightarrow> \<exists>a w'. run_state m w = (Ok a, w') \<and> P a \<and> I w' \<and> (\<forall>\<nu> \<in> F. \<nu> w' \<le> \<nu> w)) \<Longrightarrow> looks F I P m"
  unfolding looks_def settles_def by fastforce

lemma looks_same: "(\<And>w. I w \<Longrightarrow> \<exists>a. run_state m w = (Ok a, w) \<and> P a) \<Longrightarrow> looks F I P m"
  by (rule looksI) fastforce

lemma settles_looks:
  assumes "looks F I P m" and "\<And>a. P a \<Longrightarrow> settles F I \<nu> fin busy (f a)" and "\<nu> \<in> F" "(\<lambda>_. 0) \<in> F"
  shows "settles F I \<nu> fin busy (attempt m f)"
  using settles_attempt [OF assms(1) [unfolded looks_def], of \<nu> fin busy f] assms(2-4) by simp

section \<open>The pipeline\<close>

text \<open>Each handler with its measure.\<close>

definition settling_handlers ::
  "('w \<Rightarrow> nat) set \<Rightarrow> ('w \<Rightarrow> bool) \<Rightarrow> Config \<Rightarrow> ('w PhaseHandler \<times> ('w \<Rightarrow> nat)) list \<Rightarrow> bool" where
  "settling_handlers F I cfg hs \<longleftrightarrow>
     (\<forall>(h, \<mu>) \<in> set hs. settles F I \<mu> status_complete (\<lambda>s. \<not> status_complete s) (ph_reconcile h (Some cfg)) \<and> \<mu> \<in> F)"

definition total_measure :: "('w PhaseHandler \<times> ('w \<Rightarrow> nat)) list \<Rightarrow> 'w \<Rightarrow> nat" where
  "total_measure hs w = sum_list (map (\<lambda>(h, \<mu>). \<mu> w) hs)"

lemma total_measure_simps [simp]:
  "total_measure [] w = 0" "total_measure ((h, \<mu>) # hs) w = \<mu> w + total_measure hs w"
  by (simp_all add: total_measure_def)

lemma total_measure_mono:
  "settling_handlers F I cfg hs \<Longrightarrow> (\<And>\<nu>. \<nu> \<in> F \<Longrightarrow> \<nu> w' \<le> \<nu> w) \<Longrightarrow> total_measure hs w' \<le> total_measure hs w"
proof (induction hs)
  case (Cons hm hs)
  then show ?case by (cases hm) (simp add: settling_handlers_def add_mono)
qed simp

text \<open>How the handlers leave the states, the error and the world.\<close>

lemma run_handlers_settle:
  assumes "settling_handlers F I cfg hs" and "I w" and "AllComplete states"
    and "distinct (map (\<lambda>hm. ph_phase (fst hm)) hs)" and "\<forall>h \<in> set hs. ph_phase (fst h) |\<notin>| fmdom states"
  shows "\<exists>states' w'. run_state (run_handlers (map fst hs) (Some cfg) states) w = ((states', Ok ()), w')
     \<and> (\<forall>\<nu> \<in> F. \<nu> w' \<le> \<nu> w)
     \<and> (AllComplete states' \<and> total_measure hs w' = 0 \<and> I w'
        \<or> \<not> AllComplete states' \<and> total_measure hs w' < total_measure hs w)"
  using assms
proof (induction hs arbitrary: states w)
  case Nil
  then show ?case by simp
next
  case (Cons hm hs)
  obtain h \<mu> where hm: "hm = (h, \<mu>)" by fastforce
  have tail: "settling_handlers F I cfg hs" and \<mu>: "\<mu> \<in> F"
    and head: "settles F I \<mu> status_complete (\<lambda>s. \<not> status_complete s) (ph_reconcile h (Some cfg))"
    using Cons.prems(1) by (auto simp: settling_handlers_def hm)
  show ?case
  proof (rule settlesE [OF head Cons.prems(2)])
    fix st w1
    assume first: "run_state (ph_reconcile h (Some cfg)) w = (Ok st, w1)" "\<And>\<nu>. \<nu> \<in> F \<Longrightarrow> \<nu> w1 \<le> \<nu> w"
      "status_complete st" "\<mu> w1 = 0" "I w1"
    let ?states = "fmupd (ph_phase h) st states"
    have fresh: "\<forall>h' \<in> set hs. ph_phase (fst h') |\<notin>| fmdom ?states" "distinct (map (\<lambda>hm. ph_phase (fst hm)) hs)"
      using Cons.prems(4,5) by (auto simp: hm image_iff)
    obtain states' w' where rest: "run_state (run_handlers (map fst hs) (Some cfg) ?states) w1 = ((states', Ok ()), w')"
      "\<forall>\<nu> \<in> F. \<nu> w' \<le> \<nu> w1"
      "AllComplete states' \<and> total_measure hs w' = 0 \<and> I w'
        \<or> \<not> AllComplete states' \<and> total_measure hs w' < total_measure hs w1"
      using Cons.IH [OF tail first(5) AllComplete_fmupd [OF Cons.prems(3) first(3)] fresh(2,1)] by blast
    have "\<mu> w' = 0" using rest(2) \<mu> first(4) by fastforce
    moreover have "total_measure hs w1 \<le> total_measure hs w" by (rule total_measure_mono [OF tail first(2)])
    moreover have "\<forall>\<nu> \<in> F. \<nu> w' \<le> \<nu> w" using rest(2) first(2) by (meson order_trans)
    ultimately show ?thesis
      using first(1,3) rest(1,3) by (auto simp: hm Let_def status_complete_def)
  next
    fix st w1
    assume first: "run_state (ph_reconcile h (Some cfg)) w = (Ok st, w1)" "\<And>\<nu>. \<nu> \<in> F \<Longrightarrow> \<nu> w1 \<le> \<nu> w"
      "\<not> status_complete st" "\<mu> w1 < \<mu> w"
    have "\<not> AllComplete (fmupd (ph_phase h) st states)"
      using first(3) by (auto simp: AllComplete_def fmpred_iff)
    moreover have "total_measure hs w1 \<le> total_measure hs w" by (rule total_measure_mono [OF tail first(2)])
    ultimately show ?thesis
      using first by (auto simp: hm Let_def status_complete_def)
  qed
qed

lemma pipeline_settles:
  assumes "settling_handlers F I cfg hs" and "distinct (map (\<lambda>hm. ph_phase (fst hm)) hs)" and "I w"
  shows "\<exists>states w'. run_state (Pipeline_Reconcile (map fst hs) (Some cfg)) w = ((states, Ok ()), w')
     \<and> (\<forall>\<nu> \<in> F. \<nu> w' \<le> \<nu> w)
     \<and> (AllComplete states \<and> total_measure hs w' = 0 \<and> I w'
        \<or> \<not> AllComplete states \<and> total_measure hs w' < total_measure hs w)"
  using run_handlers_settle [OF assms(1,3) _ assms(2), of fmempty]
  by (simp add: Pipeline_Reconcile_def AllComplete_def)

section \<open>Rounds\<close>

text \<open>A call, then the rest of the cluster. \<open>env\<close> brings every world into a state with \<open>I\<close>.\<close>

definition round_of :: "('w, 'a) state \<Rightarrow> ('w \<Rightarrow> 'w) \<Rightarrow> 'w \<Rightarrow> 'w" where
  "round_of m env w = env (snd (run_state m w))"

lemma rounds_settle:
  assumes step: "\<And>w. I w \<Longrightarrow> \<exists>r w'. run_state m w = (r, w') \<and> (fin r \<and> \<mu> w' = 0 \<or> \<mu> w' < \<mu> w)"
    and env: "\<And>w. I (env w)" "\<And>w. \<mu> (env w) \<le> \<mu> w"
  shows "I ((round_of m env ^^ k) (env w)) \<and> \<mu> ((round_of m env ^^ k) (env w)) \<le> \<mu> w - k"
proof (induction k)
  case 0
  show ?case using env by simp
next
  case (Suc k)
  let ?w = "(round_of m env ^^ k) (env w)"
  obtain r w' where "run_state m ?w = (r, w')" "\<mu> w' \<le> \<mu> ?w - 1"
    using step [of ?w] Suc by fastforce
  then have "round_of m env ?w = env w'" "\<mu> w' \<le> \<mu> w - Suc k"
    using Suc by (simp add: round_of_def, linarith)
  then show ?case using env(1) [of w'] env(2) [of w'] by simp
qed

end
