(* ===== verification/Cluster_View.thy ===== *)
theory Cluster_View
  imports Plans Phase_Progress
begin

text \<open>
  The cluster as the phases see it, for the theorems about progress: the resources that the phases
  write, and the controllers that act on them between two reconciliations.
\<close>

text \<open>
  What a world shows: the plans by name, the HelmChart resources of the namespace by name, the latest
  Helm release of each name, and the world after the other controllers have caught up.
\<close>

record 'w cluster_view =
  plans_of :: "'w \<Rightarrow> NamespacedName \<Rightarrow> Plan option"
  charts_of :: "'w \<Rightarrow> string \<Rightarrow> HelmChartResource option"
  installed_of :: "'w \<Rightarrow> string \<Rightarrow> ReleaseInfo option"
  controllers :: "'w \<Rightarrow> 'w"

end
