(* ===== verification/Helm_Progress.thy ===== *)
theory Helm_Progress
  imports Helm_Reconciler Cluster_View
begin

text \<open>
  Progress of the chart phase. The phase writes one chart at a time and reports progress until the
  Helm Controller has done its part. Here the two take turns: after every reconciliation of the phase
  the Helm Controller installs what the HelmChart resources ask for. The phase is then complete
  after as many rounds as there are charts, with every installed chart at its target version.
\<close>

section \<open>The cluster the phase works on\<close>

definition chart_key :: "string \<Rightarrow> NamespacedName" where
  "chart_key n = \<lparr>nn_namespace = HelmChartNamespace, nn_name = n\<rparr>"

text \<open>The clients read and write this world, and their calls succeed.\<close>

definition answers_releases :: "'w helm_client \<Rightarrow> 'w cluster_view \<Rightarrow> bool" where
  "answers_releases HC M \<longleftrightarrow> (\<forall>w n.
     case installed_of M w n of
       None \<Rightarrow> (\<exists>e. is_release_not_found e \<and> run_state (RetrieveRelease HC n) w = (Err e, w))
     | Some rel \<Rightarrow> run_state (RetrieveRelease HC n) w = (Ok rel, w))"

definition answers_charts :: "'w kube \<Rightarrow> 'w cluster_view \<Rightarrow> bool" where
  "answers_charts K M \<longleftrightarrow> (\<forall>w n.
     case charts_of M w n of
       None \<Rightarrow> (\<exists>e. is_not_found e \<and> run_state (get_helm_chart K (chart_key n)) w = (Err e, w))
     | Some ch \<Rightarrow> hcr_name ch = n \<and> hcr_namespace ch = HelmChartNamespace
         \<and> run_state (get_helm_chart K (chart_key n)) w = (Ok ch, w))"

definition stores_charts :: "'w kube \<Rightarrow> 'w cluster_view \<Rightarrow> bool" where
  "stores_charts K M \<longleftrightarrow> (\<forall>w ch. hcr_namespace ch = HelmChartNamespace \<longrightarrow>
     (\<exists>w'. run_state ((if charts_of M w (hcr_name ch) = None then create_helm_chart K else update_helm_chart K) ch) w
             = (Ok (), w')
         \<and> charts_of M w' = (charts_of M w)(hcr_name ch \<mapsto> ch) \<and> installed_of M w' = installed_of M w
         \<and> plans_of M w' = plans_of M w))"

definition answers :: "'w kube \<Rightarrow> 'w helm_client \<Rightarrow> 'w cluster_view \<Rightarrow> bool" where
  "answers K HC M \<longleftrightarrow> answers_releases HC M \<and> answers_charts K M \<and> stores_charts K M"

text \<open>
  The Helm Controller: it changes nothing but the status of a HelmChart, runs a job for it that
  completes (and may be gone already), and leaves the chart installed at the version of the
  resource. Releases without a resource are not its business.
\<close>

definition job_done :: "'w kube \<Rightarrow> HelmChartResource \<Rightarrow> 'w \<Rightarrow> bool" where
  "job_done K ch w \<longleftrightarrow> hcr_job_name ch \<noteq> []
     \<and> ((\<exists>job. run_state (get_job K (chart_key (hcr_job_name ch))) w = (Ok job, w)
           \<and> job_verdict (job_conditions job) = ChartStateSucceeded)
      \<or> (\<exists>e. run_state (get_job K (chart_key (hcr_job_name ch))) w = (Err e, w) \<and> is_not_found e
           \<and> \<not> failed_condition (hcr_conditions ch)))"

definition catches_up :: "'w kube \<Rightarrow> 'w cluster_view \<Rightarrow> bool" where
  "catches_up K M \<longleftrightarrow> (\<forall>w n.
     case charts_of M w n of
       None \<Rightarrow> charts_of M (controllers M w) n = None
             \<and> installed_of M (controllers M w) n = installed_of M w n
     | Some ch \<Rightarrow> (\<exists>job status rel.
         charts_of M (controllers M w) n = Some (ch\<lparr>hcr_job_name := job, hcr_conditions := status\<rparr>)
       \<and> job_done K (ch\<lparr>hcr_job_name := job, hcr_conditions := status\<rparr>) (controllers M w)
       \<and> installed_of M (controllers M w) n = Some rel \<and> ri_chart_version rel = hcr_version ch))"

text \<open>Nothing in the configuration of a chart stands in the way of writing it.\<close>

definition upgradable :: "helm_libs \<Rightarrow> HelmReconciler \<Rightarrow> HelmChartConfig \<Rightarrow> bool" where
  "upgradable L r c \<longleftrightarrow>
     (\<forall>rel. \<exists>base chart. buildHelmChart L r c (ri_namespace rel) = Ok base \<and> merge_release_values L rel base = Ok chart)
   \<and> (\<forall>existing. (\<exists>chart. updated_chart L r c existing = Ok chart) \<and> (\<exists>b. shouldUpdateChart L existing c = Ok b))
   \<and> (\<forall>m. generateCustomValuesMap L c = Ok (Some m) \<longrightarrow> json_faithful L m)"

section \<open>Charts that are behind\<close>

definition behind :: "helm_libs \<Rightarrow> 'w cluster_view \<Rightarrow> 'w \<Rightarrow> HelmChartConfig \<Rightarrow> bool" where
  "behind L M w c \<longleftrightarrow>
     (case charts_of M w (lib_chart_name L (hcc_chart c)) of
        None \<Rightarrow> (\<exists>rel. installed_of M w (lib_chart_name L (hcc_chart c)) = Some rel
                    \<and> ri_chart_version rel \<noteq> hc_version (hcc_chart c))
      | Some ch \<Rightarrow> shouldUpdateChart L ch c \<noteq> Ok False)"

lemma shouldUpdateChart_status [simp]:
  "shouldUpdateChart L (ch\<lparr>hcr_job_name := job, hcr_conditions := status\<rparr>) c = shouldUpdateChart L ch c"
  by (simp add: shouldUpdateChart_def cong: if_cong)

lemma behind_controllers:
  assumes "catches_up K M"
  shows "behind L M (controllers M w) c = behind L M w c"
proof -
  note up = assms [unfolded catches_up_def, THEN spec [of _ w],
      THEN spec [of _ "lib_chart_name L (hcc_chart c)"]]
  show ?thesis
  proof (cases "charts_of M w (lib_chart_name L (hcc_chart c))")
    case None
    with up show ?thesis by (simp add: behind_def)
  next
    case (Some ch)
    with up show ?thesis by (auto simp: behind_def)
  qed
qed

text \<open>One chart in a world the Helm Controller has caught up with: settled, or written and no longer behind.\<close>

definition writes_behind :: "helm_libs \<Rightarrow> 'w cluster_view \<Rightarrow> HelmChartConfig \<Rightarrow> 'w \<Rightarrow> 'w \<Rightarrow> bool" where
  "writes_behind L M c w w' \<longleftrightarrow> plans_of M w' = plans_of M w \<and> behind L M w c \<and> \<not> behind L M w' c
     \<and> (\<forall>d. lib_chart_name L (hcc_chart d) \<noteq> lib_chart_name L (hcc_chart c) \<longrightarrow> behind L M w' d = behind L M w d)"

text \<open>What is left of the Helm Controller's work in a world: every resource is installed, its job done.\<close>

definition caught_up :: "'w kube \<Rightarrow> 'w cluster_view \<Rightarrow> 'w \<Rightarrow> bool" where
  "caught_up K M w \<longleftrightarrow> (\<forall>n ch. charts_of M w n = Some ch \<longrightarrow>
     job_done K ch w \<and> (\<exists>rel. installed_of M w n = Some rel \<and> ri_chart_version rel = hcr_version ch))"

lemma caught_up_controllers:
  assumes "catches_up K M"
  shows "caught_up K M (controllers M w)"
  unfolding caught_up_def
proof (intro allI impI)
  fix n ch
  assume ch: "charts_of M (controllers M w) n = Some ch"
  note up = assms [unfolded catches_up_def, THEN spec [of _ w], THEN spec [of _ n]]
  show "job_done K ch (controllers M w)
     \<and> (\<exists>rel. installed_of M (controllers M w) n = Some rel \<and> ri_chart_version rel = hcr_version ch)"
    using up ch by (cases "charts_of M w n") auto
qed

lemma job_done_status:
  assumes "job_done K ch w"
  shows "run_state (evaluateHelmChartJobStatus K ch) w = (Ok ChartStateSucceeded, w)"
  using assms by (auto simp: job_done_def evaluateHelmChartJobStatus_def chart_key_def run_handle)

lemma answers_release:
  assumes "answers K HC M"
  shows "installed_of M w n = Some rel \<Longrightarrow> run_state (RetrieveRelease HC n) w = (Ok rel, w)"
    and "installed_of M w n = None \<Longrightarrow> \<exists>e. is_release_not_found e \<and> run_state (RetrieveRelease HC n) w = (Err e, w)"
  using assms [unfolded answers_def answers_releases_def, THEN conjunct1, THEN spec [of _ w], THEN spec [of _ n]] by simp_all

lemma answers_chart:
  assumes "answers K HC M"
  shows "charts_of M w n = Some ch \<Longrightarrow> hcr_name ch = n \<and> hcr_namespace ch = HelmChartNamespace
     \<and> run_state (get_helm_chart K \<lparr>nn_namespace = HelmChartNamespace, nn_name = n\<rparr>) w = (Ok ch, w)"
    and "charts_of M w n = None \<Longrightarrow> \<exists>e. is_not_found e
     \<and> run_state (get_helm_chart K \<lparr>nn_namespace = HelmChartNamespace, nn_name = n\<rparr>) w = (Err e, w)"
  using assms [unfolded answers_def answers_charts_def, THEN conjunct2, THEN conjunct1,
      THEN spec [of _ w], THEN spec [of _ n]]
  by (simp_all add: chart_key_def)

lemma answers_write:
  assumes "answers K HC M" and "hcr_namespace ch = HelmChartNamespace"
  obtains w' where "run_state ((if charts_of M w (hcr_name ch) = None then create_helm_chart K else update_helm_chart K) ch) w
      = (Ok (), w')"
    "charts_of M w' = (charts_of M w)(hcr_name ch \<mapsto> ch)" "installed_of M w' = installed_of M w"
    "plans_of M w' = plans_of M w"
  using assms(1) [unfolded answers_def stores_charts_def, THEN conjunct2, THEN conjunct2,
      THEN spec [of _ w], THEN spec [of _ ch], THEN mp, OF assms(2)]
  by blast

lemma written_behind:
  assumes "charts_of M w' = (charts_of M w)(lib_chart_name L (hcc_chart c) \<mapsto> ch)"
    and "installed_of M w' = installed_of M w" and "plans_of M w' = plans_of M w"
    and "shouldUpdateChart L ch c = Ok False" and "behind L M w c"
  shows "writes_behind L M c w w'"
proof -
  have "behind L M w' d = behind L M w d" if "lib_chart_name L (hcc_chart d) \<noteq> lib_chart_name L (hcc_chart c)" for d
    by (simp add: behind_def assms(1,2) that cong: option.case_cong)
  moreover have "\<not> behind L M w' c" by (simp add: behind_def assms(1,4))
  ultimately show ?thesis using assms(3,5) by (simp add: writes_behind_def)
qed

text \<open>The phase on one chart.\<close>

definition chart_turn ::
  "helm_libs \<Rightarrow> 'w cluster_view \<Rightarrow> HelmChartConfig \<Rightarrow> 'w \<Rightarrow> ChartState outcome \<times> 'w \<Rightarrow> bool" where
  "chart_turn L M c w out \<longleftrightarrow>
     (\<exists>s w'. out = (Ok s, w') \<and>
        (s \<in> settled_states \<and> w' = w \<and> \<not> behind L M w c
       \<or> s = ChartStateInProgress \<and> writes_behind L M c w w'))"

lemma create_turn:
  assumes "answers K HC M" and "upgradable L r c" and "lib_deep_equal L None None"
    and "charts_of M w (lib_chart_name L (hcc_chart c)) = None" and "behind L M w c"
  shows "chart_turn L M c w
     (run_state (attempt (createHelmChartFromRelease L K r c rel) (\<lambda>_. ok ChartStateInProgress)) w)"
proof -
  obtain base chart where chart: "buildHelmChart L r c (ri_namespace rel) = Ok base"
    "merge_release_values L rel base = Ok chart"
    using assms(2) unfolding upgradable_def by blast
  have key: "hcr_name chart = lib_chart_name L (hcc_chart c)" "hcr_namespace chart = HelmChartNamespace"
    using buildHelmChart_Ok [OF chart(1)] merge_release_values_Ok [OF chart(2)] by auto
  have settled: "shouldUpdateChart L chart c = Ok False"
    using built_settles [OF chart assms(3)] assms(2) by (simp add: upgradable_def)
  obtain w' where w': "run_state (create_helm_chart K chart) w = (Ok (), w')"
    "charts_of M w' = (charts_of M w)(hcr_name chart \<mapsto> chart)" "installed_of M w' = installed_of M w"
    "plans_of M w' = plans_of M w"
    using answers_write [OF assms(1) key(2), of w] assms(4) key(1) by auto
  have "writes_behind L M c w w'"
    using written_behind [OF w'(2) [unfolded key(1)] w'(3,4) settled assms(5)] .
  then show ?thesis
    by (simp add: chart_turn_def createHelmChartFromRelease_def run_attempt run_wrap chart w'(1))
qed

lemma update_turn:
  assumes "answers K HC M" and "upgradable L r c" and "lib_deep_equal L None None"
    and "charts_of M w (lib_chart_name L (hcc_chart c)) = Some existing" and "behind L M w c"
  shows "chart_turn L M c w (run_state (attempt (updateHelmChart L K r c existing) (\<lambda>_. ok ChartStateInProgress)) w)"
proof -
  obtain chart where chart: "updated_chart L r c existing = Ok chart"
    using assms(2) unfolding upgradable_def by blast
  have key: "hcr_name chart = lib_chart_name L (hcc_chart c)" "hcr_namespace chart = HelmChartNamespace"
    using updated_chart_Ok [OF chart] answers_chart(1) [OF assms(1,4)] by auto
  have settled: "shouldUpdateChart L chart c = Ok False"
    using updated_settles [OF chart assms(3)] assms(2) by (simp add: upgradable_def)
  obtain w' where w': "run_state (update_helm_chart K chart) w = (Ok (), w')"
    "charts_of M w' = (charts_of M w)(hcr_name chart \<mapsto> chart)" "installed_of M w' = installed_of M w"
    "plans_of M w' = plans_of M w"
    using answers_write [OF assms(1) key(2), of w] assms(4) key(1) by auto
  have "writes_behind L M c w w'"
    using written_behind [OF w'(2) [unfolded key(1)] w'(3,4) settled assms(5)] .
  then show ?thesis
    by (simp add: chart_turn_def updateHelmChart_def run_attempt chart w'(1))
qed

lemma unwritten_chart_turn:
  assumes "answers K HC M" and "upgradable L r c" and "lib_deep_equal L None None"
    and none: "charts_of M w (lib_chart_name L (hcc_chart c)) = None"
  shows "chart_turn L M c w (run_state (reconcileChart L K HC r c) w)"
proof -
  let ?n = "lib_chart_name L (hcc_chart c)"
  obtain e where e: "is_not_found e"
    "run_state (get_helm_chart K \<lparr>nn_namespace = HelmChartNamespace, nn_name = ?n\<rparr>) w = (Err e, w)"
    using answers_chart(2) [OF assms(1) none] by blast
  show ?thesis
  proof (cases "installed_of M w ?n")
    case absent: None
    obtain e where "is_release_not_found e" "run_state (RetrieveRelease HC ?n) w = (Err e, w)"
      using answers_release(2) [OF assms(1) absent] by blast
    then show ?thesis
      by (simp add: reconcileChart_def Let_def run_handle chart_turn_def settled_states_def behind_def none absent)
  next
    case (Some rel)
    note rel = answers_release(1) [OF assms(1) Some]
    show ?thesis
    proof (cases "ri_chart_version rel = hc_version (hcc_chart c)")
      case True
      then show ?thesis
        using e by (simp add: reconcileChart_def Let_def run_handle rel chart_turn_def settled_states_def behind_def
            none Some)
    next
      case False
      then have "behind L M w c" by (simp add: behind_def none Some)
      from create_turn [OF assms(1-3) none this, of rel] show ?thesis
        using e False by (simp add: reconcileChart_def Let_def run_handle rel)
    qed
  qed
qed

lemma written_chart_turn:
  assumes "answers K HC M" and "upgradable L r c" and "lib_deep_equal L None None" and "caught_up K M w"
    and some: "charts_of M w (lib_chart_name L (hcc_chart c)) = Some existing"
  shows "chart_turn L M c w (run_state (reconcileChart L K HC r c) w)"
proof -
  obtain rel where rel: "installed_of M w (lib_chart_name L (hcc_chart c)) = Some rel" and job: "job_done K existing w"
    using assms(4) some unfolding caught_up_def by blast
  obtain b where b: "shouldUpdateChart L existing c = Ok b"
    using assms(2) unfolding upgradable_def by blast
  note calls = answers_release(1) [OF assms(1) rel] answers_chart(1) [OF assms(1) some]
  show ?thesis
  proof (cases b)
    case True
    then have "behind L M w c" using some b by (simp add: behind_def)
    from update_turn [OF assms(1-3) some this] show ?thesis
      using b True by (simp add: reconcileChart_def Let_def run_handle run_attempt [of "wrap x y" for x y] run_wrap calls)
  next
    case False
    then show ?thesis
      using b some by (simp add: reconcileChart_def Let_def run_handle run_attempt run_wrap calls
          job_done_status [OF job] chart_turn_def settled_states_def behind_def)
  qed
qed

lemma reconcileChart_turn:
  assumes "answers K HC M" and "upgradable L r c" and "lib_deep_equal L None None" and "caught_up K M w"
  shows "chart_turn L M c w (run_state (reconcileChart L K HC r c) w)"
  using unwritten_chart_turn [OF assms(1-3)] written_chart_turn [OF assms]
  by (cases "charts_of M w (lib_chart_name L (hcc_chart c))") blast+

text \<open>The phase on a list of charts: all are settled, or the first one that is behind is written.\<close>

lemma reconcile_charts_turn:
  assumes "answers K HC M" and "lib_deep_equal L None None" and "caught_up K M w"
  shows "\<forall>c \<in> set cs. upgradable L r c \<Longrightarrow>
     \<exists>new w'. run_state (reconcile_charts L K HC r cs results) w = (Ok (results @ new), w')
       \<and> (w' = w \<and> snd ` set new \<subseteq> settled_states \<and> (\<forall>c \<in> set cs. \<not> behind L M w c)
        \<or> ChartStateInProgress \<in> snd ` set new \<and> (\<exists>c \<in> set cs. writes_behind L M c w w'))"
proof (induction cs arbitrary: results)
  case Nil
  then show ?case by simp
next
  case (Cons c cs)
  let ?n = "lib_chart_name L (hcc_chart c)"
  obtain s w1 where turn: "run_state (reconcileChart L K HC r c) w = (Ok s, w1)"
    "s \<in> settled_states \<and> w1 = w \<and> \<not> behind L M w c \<or> s = ChartStateInProgress \<and> writes_behind L M c w w1"
    using reconcileChart_turn [OF assms(1) _ assms(2,3), of r c] Cons.prems unfolding chart_turn_def by auto
  show ?case
  proof (cases "s = ChartStateInProgress")
    case True
    then have "writes_behind L M c w w1" using turn(2) by (auto simp: settled_states_def)
    then show ?thesis
      using True by (intro exI [of _ "[(?n, s)]"] exI [of _ w1]) (simp add: run_attempt turn(1) Let_def)
  next
    case False
    then have s: "s \<in> settled_states" "w1 = w" "\<not> behind L M w c" "s \<noteq> ChartStateFailed"
      using turn(2) by (auto simp: settled_states_def)
    obtain new w' where IH: "run_state (reconcile_charts L K HC r cs (results @ [(?n, s)])) w
        = (Ok ((results @ [(?n, s)]) @ new), w')"
      "w' = w \<and> snd ` set new \<subseteq> settled_states \<and> (\<forall>c \<in> set cs. \<not> behind L M w c)
        \<or> ChartStateInProgress \<in> snd ` set new \<and> (\<exists>c \<in> set cs. writes_behind L M c w w')"
      using Cons.IH [of "results @ [(?n, s)]"] Cons.prems by auto
    have "run_state (reconcile_charts L K HC r (c # cs) results) w = (Ok (results @ (?n, s) # new), w')"
      using IH(1) by (simp add: run_attempt turn(1) s(2,4) False Let_def)
    then show ?thesis
      using IH(2) s(1,3) by (intro exI [of _ "(?n, s) # new"] exI [of _ w']) auto
  qed
qed

definition how_many_behind :: "helm_libs \<Rightarrow> 'w cluster_view \<Rightarrow> HelmChartConfig list \<Rightarrow> 'w \<Rightarrow> nat" where
  "how_many_behind L M cs w = length (filter (behind L M w) cs)"

lemma how_many_behind_less:
  assumes "distinct (chart_names (lib_chart_name L) cs)" and "c \<in> set cs" and "writes_behind L M c w w'"
  shows "how_many_behind L M cs w' < how_many_behind L M cs w"
proof -
  have "behind L M w' d \<longrightarrow> behind L M w d" if "d \<in> set cs" for d
  proof (cases "lib_chart_name L (hcc_chart d) = lib_chart_name L (hcc_chart c)")
    case True
    then have "d = c" using assms(1,2) that by (auto simp: distinct_map inj_on_def)
    then show ?thesis using assms(3) by (simp add: writes_behind_def)
  qed (use assms(3) in \<open>simp add: writes_behind_def\<close>)
  then have "filter (behind L M w') cs = filter (\<lambda>d. behind L M w' d) (filter (behind L M w) cs)"
    unfolding filter_filter by (intro filter_cong) auto
  moreover have "c \<in> set (filter (behind L M w) cs)" "\<not> behind L M w' c"
    using assms(2,3) by (auto simp: writes_behind_def)
  ultimately show ?thesis
    unfolding how_many_behind_def by (metis length_filter_less)
qed

section \<open>The phase\<close>

definition release_reconciler :: "HelmReconciler \<Rightarrow> Config \<Rightarrow> HelmReconciler" where
  "release_reconciler r cfg =
     r\<lparr>hr_release_name := nn_name (cfg_release cfg), hr_release_version := cfg_release_version cfg\<rparr>"

text \<open>What the phase needs of the world and of its configuration.\<close>

definition upgradable_charts ::
  "helm_libs \<Rightarrow> 'w kube \<Rightarrow> 'w helm_client \<Rightarrow> HelmReconciler \<Rightarrow> Config \<Rightarrow> 'w cluster_view
     \<Rightarrow> HelmChartConfig list \<Rightarrow> bool" where
  "upgradable_charts L K HC r cfg M ordered \<longleftrightarrow> answers K HC M \<and> catches_up K M \<and> lib_deep_equal L None None
   \<and> sortChartConfigsByDependencies (lib_chart_name L) (cfg_helm_charts cfg) = Ok ordered
   \<and> (\<forall>c \<in> set (cfg_helm_charts cfg). upgradable L (release_reconciler r cfg) c)"

lemma phase_turn:
  assumes "upgradable_charts L K HC r cfg M ordered" and "caught_up K M w"
  shows "\<exists>st w'. run_state (HelmReconciler_Reconcile L K HC r (Some cfg)) w = (Ok st, w')
     \<and> plans_of M w' = plans_of M w
     \<and> (status_complete st \<and> how_many_behind L M ordered w = 0 \<and> w' = w
      \<or> \<not> status_complete st \<and> how_many_behind L M ordered w' < how_many_behind L M ordered w)"
proof (cases "cfg_helm_charts cfg = []")
  case True
  then have "ordered = []" using assms(1) sorted_charts_subset unfolding upgradable_charts_def by fastforce
  with True show ?thesis
    by (simp add: HelmReconciler_Reconcile_def how_many_behind_def status_complete_def SkippedStatus_def)
next
  case False
  let ?r = "release_reconciler r cfg"
  have parts: "answers K HC M" "lib_deep_equal L None None" "\<forall>c \<in> set ordered. upgradable L ?r c"
    and sort: "sortChartConfigsByDependencies (lib_chart_name L) (cfg_helm_charts cfg) = Ok ordered"
    using assms(1) sorted_charts_subset unfolding upgradable_charts_def by fastforce+
  have distinct: "distinct (chart_names (lib_chart_name L) ordered)"
    using sort_final [OF sort] by (auto simp: sort_inv_def)
  obtain new w' where run: "run_state (reconcile_charts L K HC ?r ordered []) w = (Ok new, w')"
    and turn: "w' = w \<and> snd ` set new \<subseteq> settled_states \<and> (\<forall>c \<in> set ordered. \<not> behind L M w c)
        \<or> ChartStateInProgress \<in> snd ` set new \<and> (\<exists>c \<in> set ordered. writes_behind L M c w w')"
    using reconcile_charts_turn [OF parts(1,2) assms(2) parts(3), of "[]"] by auto
  let ?st = "aggregateResults new (length ordered)"
  have "run_state (HelmReconciler_Reconcile L K HC r (Some cfg)) w = (Ok ?st, w')"
    using False run by (simp add: HelmReconciler_Reconcile_def reconcileHelmCharts_def Let_def run_attempt sort
        release_reconciler_def)
  moreover have "status_complete ?st" if "snd ` set new \<subseteq> settled_states"
    using that by (auto simp: status_complete_def aggregateResults_state settled_states_def)
  moreover have "\<not> status_complete ?st" if "ChartStateInProgress \<in> snd ` set new"
    using that by (simp add: status_complete_def aggregateResults_state)
  moreover have "plans_of M w' = plans_of M w" using turn by (auto simp: writes_behind_def)
  ultimately show ?thesis
    using turn by (auto simp: how_many_behind_def [where cs = ordered and w = w] filter_empty_conv
        dest!: how_many_behind_less [OF distinct])
qed

text \<open>A chart is at its target when it is not installed, or installed at the version of the configuration.\<close>

definition at_target :: "helm_libs \<Rightarrow> 'w cluster_view \<Rightarrow> 'w \<Rightarrow> HelmChartConfig \<Rightarrow> bool" where
  "at_target L M w c \<longleftrightarrow>
     (case installed_of M w (lib_chart_name L (hcc_chart c)) of
        None \<Rightarrow> True
      | Some rel \<Rightarrow> ri_chart_version rel = hc_version (hcc_chart c))"

lemma not_behind_at_target:
  assumes "caught_up K M w" and "\<not> behind L M w c"
  shows "at_target L M w c"
proof (cases "charts_of M w (lib_chart_name L (hcc_chart c))")
  case None
  with assms(2) show ?thesis by (auto simp: behind_def at_target_def split: option.split)
next
  case (Some ch)
  then have "hcr_version ch = hc_version (hcc_chart c)"
    using assms(2) by (auto simp: behind_def shouldUpdateChart_def split: if_splits)
  moreover obtain rel where "installed_of M w (lib_chart_name L (hcc_chart c)) = Some rel"
    "ri_chart_version rel = hcr_version ch"
    using assms(1) Some unfolding caught_up_def by blast
  ultimately show ?thesis by (simp add: at_target_def)
qed

lemma none_behind: "how_many_behind L M cs w = 0 \<longleftrightarrow> (\<forall>c \<in> set cs. \<not> behind L M w c)"
  by (auto simp: how_many_behind_def filter_empty_conv)

lemma behind_same:
  assumes "charts_of M w' = charts_of M w" and "installed_of M w' = installed_of M w"
  shows "behind L M w' = behind L M w"
  unfolding behind_def assms ..

lemma how_many_behind_same:
  "charts_of M w' = charts_of M w \<Longrightarrow> installed_of M w' = installed_of M w \<Longrightarrow>
     how_many_behind L M cs w' = how_many_behind L M cs w"
  unfolding how_many_behind_def by (drule (1) behind_same [of M w' w L]) simp

lemma how_many_behind_controllers:
  "catches_up K M \<Longrightarrow> how_many_behind L M cs (controllers M w) = how_many_behind L M cs w"
  by (simp add: how_many_behind_def behind_controllers cong: filter_cong)

lemma helm_settles:
  assumes "upgradable_charts L K HC r cfg M ordered" and "\<And>w. I w \<Longrightarrow> caught_up K M w"
    and "\<And>\<nu> w w'. \<nu> \<in> F \<Longrightarrow> \<nu> = how_many_behind L M ordered \<or> (plans_of M w' = plans_of M w \<longrightarrow> \<nu> w' = \<nu> w)"
  shows "settles F I (how_many_behind L M ordered) status_complete (\<lambda>s. \<not> status_complete s)
     (HelmReconciler_Reconcile L K HC r (Some cfg))"
proof (rule settlesI)
  fix w assume "I w"
  obtain st w' where turn: "run_state (HelmReconciler_Reconcile L K HC r (Some cfg)) w = (Ok st, w')"
    "plans_of M w' = plans_of M w"
    "status_complete st \<and> how_many_behind L M ordered w = 0 \<and> w' = w
      \<or> \<not> status_complete st \<and> how_many_behind L M ordered w' < how_many_behind L M ordered w"
    using phase_turn [OF assms(1) assms(2) [OF \<open>I w\<close>]] by blast
  have "\<nu> w' \<le> \<nu> w" if "\<nu> \<in> F" for \<nu>
    using assms(3) [OF that, of w' w] turn(2,3) by auto
  with turn \<open>I w\<close> show "\<exists>a w'. run_state (HelmReconciler_Reconcile L K HC r (Some cfg)) w = (Ok a, w')
      \<and> (\<forall>\<nu> \<in> F. \<nu> w' \<le> \<nu> w) \<and> (status_complete a \<and> how_many_behind L M ordered w' = 0 \<and> I w'
        \<or> \<not> status_complete a \<and> how_many_behind L M ordered w' < how_many_behind L M ordered w)"
    by auto
qed

end
