(* ===== verification/Plan_Progress.thy ===== *)
theory Plan_Progress
  imports Cluster_View Kubernetes_Reconciler
begin

text \<open>
  Progress of the node phases. A plan that is missing is created, and the System Upgrade Controller
  carries it out before the next reconciliation. A phase has as many rounds to go as it has
  plans missing.
\<close>

section \<open>The System Upgrade Controller\<close>

definition plan_key :: "Plan \<Rightarrow> NamespacedName" where
  "plan_key p = \<lparr>nn_namespace = plan_namespace p, nn_name = plan_name p\<rparr>"

text \<open>The client reads the plans of the world and stores new ones, which come back without a status.\<close>

definition answers_plans :: "'w kube \<Rightarrow> 'w cluster_view \<Rightarrow> bool" where
  "answers_plans K M \<longleftrightarrow> (\<forall>w n.
     case plans_of M w n of
       None \<Rightarrow> (\<exists>e. is_not_found e \<and> run_state (get_plan K n) w = (Err e, w))
     | Some p \<Rightarrow> run_state (get_plan K n) w = (Ok p, w))"

definition stores_plans :: "'w kube \<Rightarrow> 'w cluster_view \<Rightarrow> bool" where
  "stores_plans K M \<longleftrightarrow> (\<forall>w desired. plans_of M w (plan_key desired) = None \<longrightarrow>
     (\<exists>p w'. run_state (create_plan K desired) w = (Ok p, w') \<and> plan_applying p = [] \<and> plan_conditions p = []
         \<and> plans_of M w' = (plans_of M w)(plan_key desired \<mapsto> p)
         \<and> charts_of M w' = charts_of M w \<and> installed_of M w' = installed_of M w))"

text \<open>A plan that was carried out: complete, and its nodes can be listed.\<close>

definition plan_nodes :: "'w kube \<Rightarrow> 'w \<Rightarrow> Plan \<Rightarrow> Node list \<Rightarrow> bool" where
  "plan_nodes K w p nodes \<longleftrightarrow> (\<exists>sel. label_selector K (plan_node_selector p) = Ok sel
     \<and> run_state (list_nodes K (SelectedNodes sel)) w = (Ok nodes, w))"

definition plan_done :: "'w kube \<Rightarrow> 'w \<Rightarrow> Plan \<Rightarrow> bool" where
  "plan_done K w p \<longleftrightarrow> ps_state (parsePhaseStatusFromPlan p) = PlanComplete \<and> (\<exists>nodes. plan_nodes K w p nodes)"

definition plans_done :: "'w kube \<Rightarrow> 'w cluster_view \<Rightarrow> 'w \<Rightarrow> bool" where
  "plans_done K M w \<longleftrightarrow> (\<forall>n p. plans_of M w n = Some p \<longrightarrow> plan_done K w p)"

definition plans_missing :: "'w cluster_view \<Rightarrow> Plan list \<Rightarrow> 'w \<Rightarrow> nat" where
  "plans_missing M ps w = length (filter (\<lambda>p. plans_of M w (plan_key p) = None) ps)"

text \<open>The measures of both phases and those of the views \<open>V\<close>, which plans have no part in.\<close>

definition plan_measures :: "'w cluster_view \<Rightarrow> ('w \<Rightarrow> nat) set \<Rightarrow> bool" where
  "plan_measures M F \<longleftrightarrow> (\<lambda>_. 0) \<in> F \<and> range (plans_missing M) \<subseteq> F
   \<and> (\<forall>\<nu> \<in> F - range (plans_missing M). \<forall>w w'. charts_of M w' = charts_of M w \<longrightarrow> installed_of M w' = installed_of M w
        \<longrightarrow> \<nu> w' = \<nu> w)"

section \<open>One plan\<close>

lemma plans_missing_grows:
  assumes "\<And>n. plans_of M w n \<noteq> None \<Longrightarrow> plans_of M w' n \<noteq> None"
  shows "plans_missing M ps w' \<le> plans_missing M ps w"
proof -
  have "plans_of M w n = None" if "plans_of M w' n = None" for n using assms that by blast
  then show ?thesis unfolding plans_missing_def by (induction ps) auto
qed

lemma plan_present:
  assumes "answers_plans K M" and "plans_done K M w" and "plans_of M w (plan_key desired) = Some p"
  shows "\<exists>res. run_state (SUCPlanReconciler_Reconcile K desired) w = (Ok res, w)
     \<and> ps_state (pr_status res) = PlanComplete \<and> plan_nodes K w p (pr_nodes res)"
proof -
  have get: "run_state (get_plan K (plan_key desired)) w = (Ok p, w)"
    using assms(1) [unfolded answers_plans_def, THEN spec [of _ w], THEN spec [of _ "plan_key desired"]] assms(3) by simp
  obtain sel nodes where p: "ps_state (parsePhaseStatusFromPlan p) = PlanComplete"
    "label_selector K (plan_node_selector p) = Ok sel" "run_state (list_nodes K (SelectedNodes sel)) w = (Ok nodes, w)"
    using assms(2,3) unfolding plans_done_def plan_done_def plan_nodes_def by blast
  then show ?thesis
    using get by (simp add: SUCPlanReconciler_Reconcile_def getOrCreatePlan_def listNodesForPlan_def plan_key_def
        run_attempt run_wrap run_handle Let_def plan_nodes_def)
qed

lemma plan_absent:
  assumes "answers_plans K M" and "stores_plans K M" and "plans_of M w (plan_key desired) = None"
  shows "\<exists>res p w'. run_state (SUCPlanReconciler_Reconcile K desired) w = (Ok res, w')
     \<and> ps_state (pr_status res) = UpgradeInProgress
     \<and> plans_of M w' = (plans_of M w)(plan_key desired \<mapsto> p)
     \<and> charts_of M w' = charts_of M w \<and> installed_of M w' = installed_of M w"
proof -
  obtain e where get: "is_not_found e" "run_state (get_plan K (plan_key desired)) w = (Err e, w)"
    using assms(1) [unfolded answers_plans_def, THEN spec [of _ w], THEN spec [of _ "plan_key desired"]] assms(3) by auto
  obtain p w' where p: "run_state (create_plan K desired) w = (Ok p, w')" "plan_applying p = []" "plan_conditions p = []"
    "plans_of M w' = (plans_of M w)(plan_key desired \<mapsto> p)" "charts_of M w' = charts_of M w"
    "installed_of M w' = installed_of M w"
    using assms(2,3) unfolding stores_plans_def by blast
  have "ps_state (parsePhaseStatusFromPlan p) = UpgradeInProgress"
    by (simp add: parsePhaseStatusFromPlan_def p(2,3))
  moreover have "UpgradeInProgress \<noteq> PlanComplete" by (simp add: upgrade_states)
  ultimately show ?thesis
    using get p by (simp add: SUCPlanReconciler_Reconcile_def getOrCreatePlan_def plan_key_def
        run_attempt run_wrap run_handle Let_def) blast
qed

text \<open>Creating a plan lowers the number of missing ones and raises no other measure.\<close>

lemma plan_created:
  assumes "plan_measures M F" and "plans_of M w (plan_key d) = None" and "d \<in> set ps"
    and "plans_of M w' = (plans_of M w)(plan_key d \<mapsto> p)"
    and "charts_of M w' = charts_of M w" "installed_of M w' = installed_of M w"
  shows "plans_missing M ps w' < plans_missing M ps w \<and> (\<forall>\<nu> \<in> F. \<nu> w' \<le> \<nu> w)"
proof
  let ?none = "\<lambda>w p. plans_of M w (plan_key p) = None"
  have eq: "filter (?none w') ps = filter (?none w') (filter (?none w) ps)"
    unfolding filter_filter by (rule filter_cong) (simp_all add: assms(4))
  have d: "d \<in> set (filter (?none w) ps)" "\<not> ?none w' d" using assms(2-4) by simp_all
  show "plans_missing M ps w' < plans_missing M ps w"
    unfolding plans_missing_def eq using d by (rule length_filter_less)
  show "\<forall>\<nu> \<in> F. \<nu> w' \<le> \<nu> w"
  proof
    fix \<nu> assume "\<nu> \<in> F"
    show "\<nu> w' \<le> \<nu> w"
    proof (cases "\<nu> \<in> range (plans_missing M)")
      case True
      then show ?thesis using plans_missing_grows [of M w w'] assms(4) by fastforce
    next
      case False
      with assms(1,5,6) \<open>\<nu> \<in> F\<close> have "\<nu> w' = \<nu> w" unfolding plan_measures_def by blast
      then show ?thesis by simp
    qed
  qed
qed

section \<open>The phases\<close>

text \<open>What the node phases need of the cluster in every world with \<open>I\<close>.\<close>

definition node_cluster :: "'w kube \<Rightarrow> 'w cluster_view \<Rightarrow> ('w \<Rightarrow> nat) set \<Rightarrow> ('w \<Rightarrow> bool) \<Rightarrow> bool" where
  "node_cluster K M F I \<longleftrightarrow> answers_plans K M \<and> stores_plans K M \<and> plan_measures M F
     \<and> (\<forall>w. I w \<longrightarrow> plans_done K M w)"

lemma node_clusterD:
  assumes "node_cluster K M F I"
  shows "answers_plans K M" "stores_plans K M" "plan_measures M F" "I w \<Longrightarrow> plans_done K M w"
  using assms by (simp_all add: node_cluster_def)

text \<open>One plan of a list: present, or created as the write of this reconciliation.\<close>

lemma plan_step:
  assumes "node_cluster K M F I" and "I w" and "d \<in> set ps"
  obtains (present) res p where "run_state (SUCPlanReconciler_Reconcile K d) w = (Ok res, w)"
      "ps_state (pr_status res) = PlanComplete" "plans_of M w (plan_key d) = Some p" "plan_nodes K w p (pr_nodes res)"
    | (created) res w' where "run_state (SUCPlanReconciler_Reconcile K d) w = (Ok res, w')"
      "ps_state (pr_status res) = UpgradeInProgress" "plans_missing M ps w' < plans_missing M ps w"
      "\<And>\<nu>. \<nu> \<in> F \<Longrightarrow> \<nu> w' \<le> \<nu> w"
proof (cases "plans_of M w (plan_key d)")
  case None
  obtain res p w' where new: "run_state (SUCPlanReconciler_Reconcile K d) w = (Ok res, w')"
    "ps_state (pr_status res) = UpgradeInProgress" "plans_of M w' = (plans_of M w)(plan_key d \<mapsto> p)"
    "charts_of M w' = charts_of M w" "installed_of M w' = installed_of M w"
    using plan_absent [OF node_clusterD(1,2) [OF assms(1)] None] by blast
  show thesis
    by (rule created [OF new(1,2)])
      (use plan_created [OF node_clusterD(3) [OF assms(1)] None assms(3) new(3-5)] in blast)+
next
  case (Some p)
  show thesis
    using plan_present [OF node_clusterD(1) [OF assms(1)] node_clusterD(4) [OF assms(1,2)] Some] present Some by blast
qed

lemma none_missing: "\<forall>p \<in> set all. plans_of M w (plan_key p) \<noteq> None \<Longrightarrow> plans_missing M all w = 0"
  by (simp add: plans_missing_def filter_empty_conv)

lemma UpgradeInProgress_busy [simp]: "ps_state s = UpgradeInProgress \<Longrightarrow> \<not> status_complete s"
  by (simp add: status_complete_def)

text \<open>The loops over the plans \<open>ps\<close> that are left of \<open>all\<close>; those before them are there.\<close>

definition turn_ends ::
  "'w cluster_view \<Rightarrow> ('w \<Rightarrow> nat) set \<Rightarrow> Plan list \<Rightarrow> ('a \<Rightarrow> bool) \<Rightarrow> ('a \<Rightarrow> bool) \<Rightarrow> 'w \<Rightarrow> 'a outcome \<times> 'w \<Rightarrow> bool" where
  "turn_ends M F all fin busy w out \<longleftrightarrow> (\<exists>a w'. out = (Ok a, w') \<and> (\<forall>\<nu> \<in> F. \<nu> w' \<le> \<nu> w)
     \<and> (fin a \<and> plans_missing M all w' = 0 \<and> w' = w \<or> busy a \<and> plans_missing M all w' < plans_missing M all w))"

lemma settles_turn:
  "(\<And>w. I w \<Longrightarrow> turn_ends M F all fin busy w (run_state m w)) \<Longrightarrow> settles F I (plans_missing M all) fin busy m"
  by (rule settlesI) (fastforce simp: turn_ends_def)

lemma os_plans_turn:
  assumes "node_cluster K M F I" and "I w"
  shows "set ps \<subseteq> set all \<Longrightarrow> \<forall>p \<in> set all - set ps. plans_of M w (plan_key p) \<noteq> None \<Longrightarrow>
    turn_ends M F all status_complete (\<lambda>s. \<not> status_complete s) w
      (run_state (reconcile_os_plans (SUCPlanReconciler_Reconcile K) ps) w)"
proof (induction ps)
  case Nil
  then show ?case using none_missing [of all M w] by (simp add: turn_ends_def status_complete_def)
next
  case (Cons p ps)
  have p: "p \<in> set all" using Cons.prems(1) by simp
  show ?case
  proof (cases rule: plan_step [OF assms p])
    case (1 res stored)
    have "\<forall>q \<in> set all - set ps. plans_of M w (plan_key q) \<noteq> None" using Cons.prems(2) 1(3) by auto
    then have "turn_ends M F all status_complete (\<lambda>s. \<not> status_complete s) w
        (run_state (reconcile_os_plans (SUCPlanReconciler_Reconcile K) ps) w)"
      using Cons.IH Cons.prems(1) by simp
    then show ?thesis using 1(1,2) by (simp add: run_attempt run_wrap)
  next
    case (2 res w')
    have "run_state (reconcile_os_plans (SUCPlanReconciler_Reconcile K) (p # ps)) w = (Ok (pr_status res), w')"
      using 2(1,2) by (simp add: run_attempt run_wrap)
    then show ?thesis using 2(2-4) by (simp add: turn_ends_def)
  qed
qed

text \<open>Of the Kubernetes plans, the nodes of a plan that was carried out are at the target version.\<close>

definition nodes_at_version :: "'w kube \<Rightarrow> 'w cluster_view \<Rightarrow> Plan list \<Rightarrow> string \<Rightarrow> 'w \<Rightarrow> bool" where
  "nodes_at_version K M ps version w \<longleftrightarrow> (\<forall>d \<in> set ps. \<forall>p nodes. plans_of M w (plan_key d) = Some p \<longrightarrow>
     plan_nodes K w p nodes \<longrightarrow> allNodesAtKubernetesVersion nodes version)"

lemma k8s_plans_turn:
  assumes "node_cluster K M F I" and "I w" and "nodes_at_version K M all version w"
  shows "set ps \<subseteq> set all \<Longrightarrow> \<forall>p \<in> set all - set ps. plans_of M w (plan_key p) \<noteq> None \<Longrightarrow>
    turn_ends M F all (\<lambda>e. e = None) (\<lambda>e. \<exists>s. e = Some s \<and> \<not> status_complete s) w
      (run_state (reconcile_k8s_plans (SUCPlanReconciler_Reconcile K) version ps) w)"
proof (induction ps)
  case Nil
  then show ?case using none_missing [of all M w] by (simp add: turn_ends_def)
next
  case (Cons p ps)
  have p: "p \<in> set all" using Cons.prems(1) by simp
  show ?case
  proof (cases rule: plan_step [OF assms(1,2) p])
    case (1 res stored)
    have "\<forall>q \<in> set all - set ps. plans_of M w (plan_key q) \<noteq> None" using Cons.prems(2) 1(3) by auto
    then have "turn_ends M F all (\<lambda>e. e = None) (\<lambda>e. \<exists>s. e = Some s \<and> \<not> status_complete s) w
        (run_state (reconcile_k8s_plans (SUCPlanReconciler_Reconcile K) version ps) w)"
      using Cons.IH Cons.prems(1) by simp
    moreover have "allNodesAtKubernetesVersion (pr_nodes res) version"
      using assms(3) p 1(3,4) unfolding nodes_at_version_def by blast
    ultimately show ?thesis using 1(1,2) by (simp add: run_attempt run_wrap)
  next
    case (2 res w')
    have "run_state (reconcile_k8s_plans (SUCPlanReconciler_Reconcile K) version (p # ps)) w
        = (Ok (Some (pr_status res)), w')"
      using 2(1,2) by (simp add: run_attempt run_wrap)
    then show ?thesis using 2(2-4) by (simp add: turn_ends_def)
  qed
qed

text \<open>The plans of a phase are the same at every reconciliation.\<close>

definition prepares :: "('w \<Rightarrow> bool) \<Rightarrow> ('w, Plan list) io \<Rightarrow> Plan list \<Rightarrow> bool" where
  "prepares I m ps \<longleftrightarrow> (\<forall>w. I w \<longrightarrow> run_state m w = (Ok ps, w))"

lemma os_settles:
  assumes "node_cluster K M F I" and "cfg_os cfg = Some os" and "prepares I (OS_preparePlans tag env K cfg os) ps"
  shows "settles F I (plans_missing M ps) status_complete (\<lambda>s. \<not> status_complete s)
     (ph_reconcile (NewOSReconciler tag env K (SUCPlanReconciler_Reconcile K)) (Some cfg))"
proof -
  have F: "(\<lambda>_. 0) \<in> F" "plans_missing M ps \<in> F"
    using node_clusterD(3) [OF assms(1)] by (auto simp: plan_measures_def)
  have "looks F I (\<lambda>qs. qs = ps) (OS_preparePlans tag env K cfg os)"
    using assms(3) by (intro looks_same) (simp add: prepares_def)
  then have prepared: "looks F I (\<lambda>qs. qs = ps) (wrap msg (OS_preparePlans tag env K cfg os))" for msg
    unfolding looks_def by (rule settles_wrap)
  have "settles F I (plans_missing M ps) status_complete (\<lambda>s. \<not> status_complete s)
      (reconcile_os_plans (SUCPlanReconciler_Reconcile K) ps)"
    by (rule settles_turn) (rule os_plans_turn [OF assms(1)], simp_all)
  then show ?thesis
    unfolding NewOSReconciler_def OSReconciler_Reconcile_def
    by (simp add: assms(2)) (rule settles_looks [OF prepared _ F(2,1)], simp)
qed

lemma skipped_settles:
  "settles F I (\<lambda>_. 0) status_complete (\<lambda>s. \<not> status_complete s) (ok (SkippedStatus p))"
  by (rule settles_ok) (simp add: status_complete_def SkippedStatus_def)

text \<open>
  The packaged components: a snapshot can be made, and once the plans are carried out the components
  are available.
\<close>

definition components_ready ::
  "('w \<Rightarrow> nat) set \<Rightarrow> ('w \<Rightarrow> bool) \<Rightarrow> 'w cluster_view \<Rightarrow> Plan list \<Rightarrow> 'w packaged_handler \<Rightarrow> Config \<Rightarrow> string \<Rightarrow> bool" where
  "components_ready F I M ps H cfg version \<longleftrightarrow>
     (\<exists>P. looks F I P (pch_GenerateSnapshot H cfg)
       \<and> (\<forall>snap. P snap \<longrightarrow> looks F (\<lambda>w. I w \<and> plans_missing M ps w = 0)
            (\<lambda>st. ps_state st = K8sPackagedComponentsAvailable) (pch_ReconcileAvailability H version snap)))"

lemma looks_wrap: "looks F I P m \<Longrightarrow> looks F I P (wrap msg m)"
  unfolding looks_def by (rule settles_wrap)

lemma k8s_settles:
  assumes "node_cluster K M F I" and "cfg_kubernetes cfg = Some k8s"
    and "prepares I (K8s_preparePlans K cfg k8s) ps"
    and "\<And>w. I w \<Longrightarrow> nodes_at_version K M ps (k8s_version k8s) w"
    and "components_ready F I M ps H cfg (k8s_version k8s)"
  shows "settles F I (plans_missing M ps) status_complete (\<lambda>s. \<not> status_complete s)
     (ph_reconcile (NewKubernetesReconciler K (SUCPlanReconciler_Reconcile K) (Some H)) (Some cfg))"
proof -
  have F: "(\<lambda>_. 0) \<in> F" "plans_missing M ps \<in> F"
    using node_clusterD(3) [OF assms(1)] by (auto simp: plan_measures_def)
  obtain P where P: "looks F I P (pch_GenerateSnapshot H cfg)"
    and available: "\<And>snap. P snap \<Longrightarrow> looks F (\<lambda>w. I w \<and> plans_missing M ps w = 0)
            (\<lambda>st. ps_state st = K8sPackagedComponentsAvailable) (pch_ReconcileAvailability H (k8s_version k8s) snap)"
    using assms(5) unfolding components_ready_def by blast
  have "looks F I (\<lambda>qs. qs = ps) (K8s_preparePlans K cfg k8s)"
    using assms(3) by (intro looks_same) (simp add: prepares_def)
  note prepared = looks_wrap [OF this]
  have loop: "settles F I (plans_missing M ps) (\<lambda>e. e = None) (\<lambda>e. \<exists>s. e = Some s \<and> \<not> status_complete s)
      (reconcile_k8s_plans (SUCPlanReconciler_Reconcile K) (k8s_version k8s) ps)"
    by (rule settles_turn) (rule k8s_plans_turn [OF assms(1) _ assms(4)], simp_all)
  let ?tail = "\<lambda>snap. attempt (wrap ''ensuring Kubernetes packaged components availability''
        (pch_ReconcileAvailability H (k8s_version k8s) snap)) (\<lambda>status.
      if ps_state status \<noteq> K8sPackagedComponentsAvailable then ok status
      else ok \<lparr>ps_state = UpgradeSucceeded, ps_message = ''All nodes upgraded successfully''\<rparr>)"
  have end_settles: "settles F (\<lambda>w. I w \<and> plans_missing M ps w = 0) (\<lambda>_. 0) status_complete
      (\<lambda>s. \<not> status_complete s) (?tail snap)" if "P snap" for snap
    by (rule settles_looks [OF looks_wrap [OF available [OF that]] _ F(1,1)])
      (simp add: settles_ok status_complete_def)
  have "settles F I (\<lambda>w. plans_missing M ps w + 0) status_complete (\<lambda>s. \<not> status_complete s)
      (attempt (reconcile_k8s_plans (SUCPlanReconciler_Reconcile K) (k8s_version k8s) ps)
        (\<lambda>early. case early of Some status \<Rightarrow> ok status | None \<Rightarrow> ?tail snap))" if "P snap" for snap
    by (rule settles_attempt [OF loop _ _ F(2,1)]) (use end_settles [OF that] in auto)
  then show ?thesis
    unfolding NewKubernetesReconciler_def KubernetesReconciler_Reconcile_def
    by (simp add: assms(2)) (rule settles_looks [OF looks_wrap [OF P] _ F(2,1)],
        rule settles_looks [OF prepared _ F(2,1)], simp)
qed

end
