(* ===== verification/Cluster_Simulation.thy ===== *)
theory Cluster_Simulation
  imports Helm_Progress Plan_Progress Upgrade_Pipeline
begin

text \<open>
  A small cluster that runs: its world is the plans, the HelmChart resources and the Helm releases. It
  satisfies what the theorems about progress ask of a cluster, and they are applied to it.
\<close>

section \<open>The cluster\<close>

record sim =
  sim_plans :: "NamespacedName \<Rightarrow> Plan option"
  sim_charts :: "string \<Rightarrow> HelmChartResource option"
  sim_installed :: "string \<Rightarrow> ReleaseInfo option"

text \<open>A call that does not concern the world.\<close>

definition aside :: "(unit, 'a) io \<Rightarrow> (sim, 'a) io" where
  "aside m = State (\<lambda>w. (fst (run_state m ()), w))"

lemma run_aside [simp]: "run_state (aside m) w = (fst (run_state m ()), w)"
  by (simp add: aside_def)

lemma aside_simps:
  "aside (attempt m f) = attempt (aside m) (\<lambda>a. aside (f a))"
  "aside (wrap p m) = wrap p (aside m)"
  "aside (pure_call x) = pure_call x" "aside (ok a) = ok a" "aside (panic q) = panic q"
  by (rule state.expand, rule ext, simp add: run_attempt run_wrap split: prod.splits outcome.splits)+

text \<open>Jobs are gone when the chart phase looks, and charts are kept under their name.\<close>

definition sim_kube :: "sim kube" where
  "sim_kube =
     \<lparr>get_release = (\<lambda>n. aside (get_release witness_rke2_kube n)),
      list_releases = aside (list_releases witness_rke2_kube),
      update_release_status = (\<lambda>r. aside (update_release_status witness_rke2_kube r)),
      get_plan = (\<lambda>n. State (\<lambda>w. (case sim_plans w n of Some p \<Rightarrow> Ok p | None \<Rightarrow> Err (NotFound []), w))),
      create_plan = (\<lambda>p. State (\<lambda>w. (Ok (p\<lparr>plan_applying := [], plan_conditions := []\<rparr>),
          w\<lparr>sim_plans := (sim_plans w)(plan_key p \<mapsto> p\<lparr>plan_applying := [], plan_conditions := []\<rparr>)\<rparr>))),
      list_plans = (\<lambda>ns ls. aside (list_plans witness_rke2_kube ns ls)),
      delete_plan = (\<lambda>p. aside (delete_plan witness_rke2_kube p)),
      get_helm_chart = (\<lambda>n. State (\<lambda>w. (case sim_charts w (nn_name n) of
          Some ch \<Rightarrow> if hcr_name ch = nn_name n \<and> hcr_namespace ch = nn_namespace n then Ok ch else Err (NotFound [])
        | None \<Rightarrow> Err (NotFound []), w))),
      create_helm_chart = (\<lambda>c. State (\<lambda>w. (Ok (), w\<lparr>sim_charts := (sim_charts w)(hcr_name c \<mapsto> c)\<rparr>))),
      update_helm_chart = (\<lambda>c. State (\<lambda>w. (Ok (), w\<lparr>sim_charts := (sim_charts w)(hcr_name c \<mapsto> c)\<rparr>))),
      list_helm_charts = (\<lambda>ns. aside (list_helm_charts witness_rke2_kube ns)),
      get_job = (\<lambda>n. aside (get_job witness_rke2_kube n)),
      get_config_map = (\<lambda>n. aside (get_config_map witness_rke2_kube n)),
      create_config_map = (\<lambda>cm. aside (create_config_map witness_rke2_kube cm)),
      update_config_map = (\<lambda>cm. aside (update_config_map witness_rke2_kube cm)),
      delete_config_map = (\<lambda>cm. aside (delete_config_map witness_rke2_kube cm)),
      get_secret = (\<lambda>n. aside (get_secret witness_rke2_kube n)),
      list_nodes = (\<lambda>q. aside (list_nodes witness_rke2_kube q)),
      label_selector = label_selector witness_rke2_kube\<rparr>"

definition sim_storage :: "string \<Rightarrow> (sim, storage_release) io" where
  "sim_storage n = State (\<lambda>w. (case sim_installed w n of None \<Rightarrow> Err ReleaseNotFound
     | Some rel \<Rightarrow> Ok (V1Release \<lparr>sr_chart_version = ri_chart_version rel, sr_namespace = ri_namespace rel,
                         sr_config = ri_config rel, sr_version = ri_revisions rel\<rparr>), w))"

definition sim_helm :: "sim helm_client" where
  "sim_helm = StorageClient sim_storage"

lemma sim_retrieves:
  "run_state (RetrieveRelease sim_helm n) w = (case sim_installed w n of None \<Rightarrow> Err ReleaseNotFound | Some rel \<Rightarrow> Ok rel, w)"
  by (simp add: sim_helm_def sim_storage_def StorageClient_def StorageClient_RetrieveRelease_def run_attempt
      split: option.split)

text \<open>The resources that are stored under their name, in the namespace of the reconciler.\<close>

definition stored :: "sim \<Rightarrow> string \<Rightarrow> HelmChartResource option" where
  "stored w n = (case sim_charts w n of
     Some ch \<Rightarrow> if hcr_name ch = n \<and> hcr_namespace ch = HelmChartNamespace then Some ch else None
   | None \<Rightarrow> None)"

text \<open>The other controllers: plans are complete, every resource is installed.\<close>

definition carried_out :: "Plan \<Rightarrow> Plan" where
  "carried_out p = p\<lparr>plan_applying := [], plan_conditions :=
     [\<lparr>pc_type = PlanConditionComplete, pc_status = ConditionTrue, pc_reason = [], pc_message = []\<rparr>]\<rparr>"

definition sim_controller :: "sim \<Rightarrow> sim" where
  "sim_controller w =
     \<lparr>sim_plans = (\<lambda>n. map_option carried_out (sim_plans w n)),
      sim_charts = (\<lambda>n. map_option (\<lambda>ch. ch\<lparr>hcr_job_name := ''helm-install'', hcr_conditions := []\<rparr>) (stored w n)),
      sim_installed = (\<lambda>n. case stored w n of
          None \<Rightarrow> sim_installed w n
        | Some ch \<Rightarrow> Some \<lparr>ri_chart_version = hcr_version ch, ri_namespace = hcr_target_namespace ch,
                         ri_config = None, ri_revisions = 2\<rparr>)\<rparr>"

definition sim_cluster :: "sim cluster_view" where
  "sim_cluster = \<lparr>plans_of = sim_plans, charts_of = stored, installed_of = sim_installed, controllers = sim_controller\<rparr>"

lemma sim_answers: "answers sim_kube sim_helm sim_cluster"
  unfolding answers_def
proof (intro conjI)
  show "answers_releases sim_helm sim_cluster"
    by (auto simp: answers_releases_def sim_retrieves sim_cluster_def split: option.split)
  show "answers_charts sim_kube sim_cluster"
    by (auto simp: answers_charts_def sim_kube_def sim_cluster_def stored_def chart_key_def split: option.splits)
  show "stores_charts sim_kube sim_cluster"
    by (auto simp: stores_charts_def sim_kube_def sim_cluster_def stored_def fun_eq_iff split: option.split)
qed

lemma stored_controller:
  "stored (sim_controller w) n = map_option (\<lambda>ch. ch\<lparr>hcr_job_name := ''helm-install'', hcr_conditions := []\<rparr>) (stored w n)"
proof (cases "stored w n")
  case None
  then show ?thesis unfolding stored_def [of "sim_controller w"] by (simp add: sim_controller_def)
next
  case (Some ch)
  then have "hcr_name ch = n" "hcr_namespace ch = HelmChartNamespace"
    by (auto simp: stored_def split: option.splits if_splits)
  with Some show ?thesis unfolding stored_def [of "sim_controller w"] by (simp add: sim_controller_def)
qed

lemma installed_controller:
  "sim_installed (sim_controller w) n = (case stored w n of None \<Rightarrow> sim_installed w n
     | Some ch \<Rightarrow> Some \<lparr>ri_chart_version = hcr_version ch, ri_namespace = hcr_target_namespace ch,
                     ri_config = None, ri_revisions = 2\<rparr>)"
  by (simp add: sim_controller_def)

lemma sim_catches_up: "catches_up sim_kube sim_cluster"
  unfolding catches_up_def
proof (intro allI)
  fix w n
  show "case charts_of sim_cluster w n of
      None \<Rightarrow> charts_of sim_cluster (controllers sim_cluster w) n = None
            \<and> installed_of sim_cluster (controllers sim_cluster w) n = installed_of sim_cluster w n
    | Some ch \<Rightarrow> (\<exists>job status rel.
        charts_of sim_cluster (controllers sim_cluster w) n = Some (ch\<lparr>hcr_job_name := job, hcr_conditions := status\<rparr>)
      \<and> job_done sim_kube (ch\<lparr>hcr_job_name := job, hcr_conditions := status\<rparr>) (controllers sim_cluster w)
      \<and> installed_of sim_cluster (controllers sim_cluster w) n = Some rel \<and> ri_chart_version rel = hcr_version ch)"
  proof (cases "stored w n")
    case None
    then show ?thesis by (simp add: sim_cluster_def stored_controller installed_controller)
  next
    case (Some ch)
    then show ?thesis
      by (simp add: sim_cluster_def stored_controller installed_controller,
          intro exI [of _ "''helm-install''"] exI [of _ "[] :: (string \<times> condition_status) list"])
        (simp add: job_done_def sim_kube_def witness_rke2_kube_def witness_kube_def)
  qed
qed

lemma sim_upgradable: "upgradable witness_libs r (witness_chart n deps)"
proof -
  let ?c = "witness_chart n deps"
  have no_values: "generateCustomValuesMap witness_libs ?c = Ok None"
    by (simp add: generateCustomValuesMap_def MergeHelmValues_def witness_chart_def no_runtime_config_def)
  have url: "resolveRepositoryURL witness_libs ?c = Ok \<lparr>url_scheme = ''oci'', url_text = []\<rparr>"
    by (simp add: resolveRepositoryURL_def witness_libs_def witness_chart_def)
  have resolved: "\<exists>res. resolveHelmChartValues witness_libs chart ?c = Ok res" for chart
    by (simp add: resolveHelmChartValues_def no_values)
  have merged: "\<exists>res. merge_release_values witness_libs rel chart = Ok res" for rel chart
    by (auto simp: merge_release_values_def MergeHelmValues_def witness_libs_def split: option.split)
  show ?thesis
    unfolding upgradable_def
  proof (intro conjI allI, goal_cases)
    case (1 rel)
    obtain base where "buildHelmChart witness_libs r ?c (ri_namespace rel) = Ok base"
      using resolved by (auto simp: buildHelmChart_def Let_def url)
    then show ?case using merged by blast
  next
    case (2 existing)
    show ?case using resolved by (auto simp: updated_chart_def Let_def url)
  next
    case (3 existing)
    have "json_unmarshal (lib_codec witness_libs) raw = Ok None" for raw by (simp add: witness_libs_def)
    then show ?case by (auto simp: shouldUpdateChart_def no_values split: option.split)
  next
    case (4 m)
    show ?case by (simp add: no_values)
  qed
qed

definition sim_os_config :: OSConfig where
  "sim_os_config = witness_os\<lparr>os_version := ''1''\<rparr>"

definition sim_config :: Config where
  "sim_config = witness_config\<lparr>cfg_os := Some sim_os_config,
     cfg_helm_charts := [witness_chart ''b'' [''a''], witness_chart ''a'' []]\<rparr>"

definition sim_start :: sim where
  "sim_start = \<lparr>sim_plans = (\<lambda>_. None), sim_charts = (\<lambda>_. None), sim_installed = (\<lambda>n. if n = ''a'' \<or> n = ''b''
     then Some \<lparr>ri_chart_version = ''0'', ri_namespace = ''ns'', ri_config = None, ri_revisions = 1\<rparr> else None)\<rparr>"

lemma sim_charts_upgradable:
  "upgradable_charts witness_libs sim_kube sim_helm r sim_config sim_cluster
     [witness_chart ''a'' [], witness_chart ''b'' [''a'']]"
  unfolding upgradable_charts_def
proof (intro conjI sim_answers sim_catches_up)
  show "lib_deep_equal witness_libs None None" by (simp add: witness_libs_def)
  show "sortChartConfigsByDependencies (lib_chart_name witness_libs) (cfg_helm_charts sim_config)
      = Ok [witness_chart ''a'' [], witness_chart ''b'' [''a'']]"
    by code_simp
  show "\<forall>c \<in> set (cfg_helm_charts sim_config). upgradable witness_libs (release_reconciler r sim_config) c"
    by (simp add: sim_config_def sim_upgradable)
qed

section \<open>What the pipeline finds in it\<close>

text \<open>The worlds the controllers have caught up in.\<close>

definition sim_settled :: "sim \<Rightarrow> bool" where
  "sim_settled w \<longleftrightarrow> plans_done sim_kube sim_cluster w \<and> caught_up sim_kube sim_cluster w"

lemma sim_answers_plans: "answers_plans sim_kube sim_cluster"
  by (auto simp: answers_plans_def sim_kube_def sim_cluster_def split: option.split)

lemma sim_stores_plans: "stores_plans sim_kube sim_cluster"
  by (auto simp: stores_plans_def sim_kube_def sim_cluster_def stored_def fun_eq_iff)

lemma sim_nodes: "plan_nodes sim_kube w p nodes \<longleftrightarrow> nodes = [witness_node]"
  by (auto simp: plan_nodes_def sim_kube_def witness_rke2_kube_def witness_kube_def)

lemma sim_plans_done: "plans_done sim_kube sim_cluster (sim_controller w)"
  by (auto simp: plans_done_def plan_done_def sim_nodes sim_cluster_def sim_controller_def carried_out_def
      parsePhaseStatusFromPlan_def)

lemma sim_cluster_controllers: "controllers sim_cluster = sim_controller"
  by (simp add: sim_cluster_def)

lemma sim_plans_kept:
  "plans_of sim_cluster (sim_controller w) n = map_option carried_out (plans_of sim_cluster w n)"
  by (simp add: sim_cluster_def sim_controller_def)

lemma sim_settled_controller: "sim_settled (sim_controller w)"
  using sim_plans_done caught_up_controllers [OF sim_catches_up, of w]
  by (simp add: sim_settled_def sim_cluster_def)

definition sim_os_plans :: "Plan list" where
  "sim_os_plans = (case fst (run_state (OS_preparePlans witness_tag [] witness_rke2_kube sim_config sim_os_config) ()) of
     Ok ps \<Rightarrow> ps | _ \<Rightarrow> [])"

definition sim_k8s_plans :: "Plan list" where
  "sim_k8s_plans = (case fst (run_state (K8s_preparePlans witness_rke2_kube sim_config witness_k8s) ()) of
     Ok ps \<Rightarrow> ps | _ \<Rightarrow> [])"

lemma sim_list_nodes: "run_state (list_nodes sim_kube q) w = (Ok [witness_node], w)"
  by (simp add: sim_kube_def witness_rke2_kube_def witness_kube_def)

lemma sim_prepares:
  "OS_preparePlans tag env sim_kube cfg os = aside (OS_preparePlans tag env witness_rke2_kube cfg os)"
  "K8s_preparePlans sim_kube cfg k8s = aside (K8s_preparePlans witness_rke2_kube cfg k8s)"
  unfolding OS_preparePlans_def K8s_preparePlans_def Let_def
  by (auto simp: aside_simps sim_kube_def if_distrib [of aside] split: option.split cong: if_cong)

lemma prepares_aside:
  "(case fst (run_state m ()) of Ok ps \<Rightarrow> True | _ \<Rightarrow> False) \<Longrightarrow>
     prepares I (aside m) (case fst (run_state m ()) of Ok ps \<Rightarrow> ps | _ \<Rightarrow> [])"
  by (auto simp: prepares_def split: outcome.splits)

lemma sim_os: "prepares I (OS_preparePlans witness_tag [] sim_kube sim_config sim_os_config) sim_os_plans"
  unfolding sim_os_plans_def sim_prepares by (rule prepares_aside) code_simp

lemma sim_k8s: "prepares I (K8s_preparePlans sim_kube sim_config witness_k8s) sim_k8s_plans"
  unfolding sim_k8s_plans_def sim_prepares by (rule prepares_aside) code_simp

lemma sim_nodes_at_version: "nodes_at_version sim_kube sim_cluster ps (k8s_version witness_k8s) w"
proof -
  have "allNodesAtKubernetesVersion [witness_node] (k8s_version witness_k8s)" by code_simp
  then show ?thesis by (simp add: nodes_at_version_def sim_nodes)
qed

text \<open>The snapshot that is there is the one of the release, and it has no components.\<close>

definition sim_snapshot :: PackagedComponentsSnapshot where
  "sim_snapshot = \<lparr>snap_creation_time = 0, snap_source_version = ''v2'', snap_charts = []\<rparr>"

lemma sim_generates:
  "run_state (GenerateSnapshot witness_rke2_libs sim_kube HC search sim_config) w = (Ok sim_snapshot, w)"
proof -
  have "get_config_map witness_rke2_kube n = ok witness_snapshot" for n
    by (simp add: witness_rke2_kube_def)
  then have get: "run_state (get_config_map sim_kube n) w = (Ok witness_snapshot, w)" for n
    by (simp add: sim_kube_def)
  have current: "\<not> snapshot_outdated sim_config witness_snapshot" by code_simp
  have "parse_entries witness_rke2_libs (range_entries witness_rke2_libs fmempty) = Ok []" by code_simp
  then have "parseSnapshot witness_rke2_libs witness_snapshot = Ok sim_snapshot"
    by (simp add: parseSnapshot_def witness_snapshot_def blankSnapshot_def sim_snapshot_def label_value_def)
  with get current show ?thesis by (simp add: GenerateSnapshot_def run_handle)
qed

lemma sim_available:
  "run_state (ReconcileAvailability witness_rke2_libs sim_kube HC (findRKE2PackagedComponents sim_kube) ''v2'' sim_snapshot) w
     = (Ok components_available, w)"
proof -
  have "list_helm_charts witness_rke2_kube n = ok []" for n
    by (simp add: witness_rke2_kube_def witness_kube_def)
  then have "run_state (findRKE2PackagedComponents sim_kube) w = (Ok fmempty, w)"
    by (simp add: findRKE2PackagedComponents_def run_attempt run_wrap sim_kube_def)
  moreover have "range_entries witness_rke2_libs (fmempty :: components) = []" by code_simp
  ultimately show ?thesis
    by (simp add: ReconcileAvailability_def findNewOrChangedRKE2PackagedComponents_def run_attempt run_wrap sim_snapshot_def)
qed

lemma sim_components:
  "components_ready F I sim_cluster ps (NewRKE2PackagedComponentsHandler witness_rke2_libs sim_kube HC None)
     sim_config (k8s_version witness_k8s)"
proof -
  have "k8s_version witness_k8s = ''v2''" by (simp add: witness_k8s_def)
  moreover have "ps_state components_available = K8sPackagedComponentsAvailable" by (simp add: components_available_def)
  ultimately show ?thesis
    unfolding components_ready_def NewRKE2PackagedComponentsHandler_def
    by (intro exI [of _ "\<lambda>snap. snap = sim_snapshot"]) (auto intro!: looks_same simp: sim_generates sim_available Let_def)
qed

end
