(* ===== verification/Upgrade_Progress.thy ===== *)
theory Upgrade_Progress
  imports Cluster_Simulation
begin

text \<open>
  Progress of the manager's pipeline: on a cluster whose controllers catch up between two
  reconciliations - plans are carried out, charts are installed - every round that is not complete
  creates one missing plan or writes one chart that is behind, so that the number of rounds is bounded.
\<close>

section \<open>The cluster\<close>

text \<open>
  What the pipeline needs: the worlds with \<open>I\<close> are those the controllers have caught up in,
  \<open>ops\<close> and \<open>kps\<close> are the plans of the two node phases, \<open>ordered\<close> the charts in order.
\<close>

definition os_ready ::
  "(string \<Rightarrow> ImageTag outcome) \<Rightarrow> string \<Rightarrow> 'w kube \<Rightarrow> Config \<Rightarrow> ('w \<Rightarrow> bool) \<Rightarrow> Plan list \<Rightarrow> bool" where
  "os_ready tag env K cfg I ps \<longleftrightarrow>
     (\<forall>os. cfg_os cfg = Some os \<longrightarrow> prepares I (OS_preparePlans tag env K cfg os) ps)"

definition k8s_ready ::
  "('w \<Rightarrow> nat) set \<Rightarrow> 'w packaged_handler option \<Rightarrow> 'w kube \<Rightarrow> Config \<Rightarrow> 'w cluster_view \<Rightarrow> ('w \<Rightarrow> bool)
     \<Rightarrow> Plan list \<Rightarrow> bool" where
  "k8s_ready F handler K cfg M I ps \<longleftrightarrow>
     (\<forall>k8s. cfg_kubernetes cfg = Some k8s \<longrightarrow>
        prepares I (K8s_preparePlans K cfg k8s) ps
      \<and> (\<forall>w. I w \<longrightarrow> nodes_at_version K M ps (k8s_version k8s) w)
      \<and> (\<exists>H. handler = Some H \<and> components_ready F I M ps H cfg (k8s_version k8s)))"

definition upgrade_measures :: "helm_libs \<Rightarrow> 'w cluster_view \<Rightarrow> HelmChartConfig list \<Rightarrow> ('w \<Rightarrow> nat) set" where
  "upgrade_measures L M ordered = insert (\<lambda>_. 0) (insert (how_many_behind L M ordered) (range (plans_missing M)))"

definition catching_up :: "'w kube \<Rightarrow> 'w cluster_view \<Rightarrow> ('w \<Rightarrow> bool) \<Rightarrow> bool" where
  "catching_up K M I \<longleftrightarrow> answers_plans K M \<and> stores_plans K M
     \<and> (\<forall>w. I w \<longrightarrow> plans_done K M w \<and> caught_up K M w)
     \<and> (\<forall>w. I (controllers M w) \<and> (\<forall>n. plans_of M w n \<noteq> None \<longrightarrow> plans_of M (controllers M w) n \<noteq> None))"

definition chart_reconciler :: HelmReconciler where
  "chart_reconciler = \<lparr>hr_release_name = '''', hr_release_version = '''', hr_strict = False\<rparr>"

definition steady_cluster ::
  "(string \<Rightarrow> ImageTag outcome) \<Rightarrow> string \<Rightarrow> helm_libs \<Rightarrow> rke2_libs \<Rightarrow> 'w kube \<Rightarrow> 'w helm_client \<Rightarrow> string
     \<Rightarrow> Config \<Rightarrow> 'w cluster_view \<Rightarrow> ('w \<Rightarrow> bool) \<Rightarrow> Plan list \<Rightarrow> Plan list \<Rightarrow> HelmChartConfig list \<Rightarrow> bool" where
  "steady_cluster tag env L R K HC git cfg M I ops kps ordered \<longleftrightarrow>
     catching_up K M I \<and> os_ready tag env K cfg I ops
   \<and> k8s_ready (upgrade_measures L M ordered) (packagedComponentsHandler R K HC git) K cfg M I kps
   \<and> upgradable_charts L K HC chart_reconciler cfg M ordered"

section \<open>The phases of the pipeline\<close>

lemma upgrade_measures_plans: "plan_measures M (upgrade_measures L M ordered)"
  unfolding plan_measures_def upgrade_measures_def using how_many_behind_same by auto

lemma upgrade_measures_charts:
  "\<nu> \<in> upgrade_measures L M ordered \<Longrightarrow>
     \<nu> = how_many_behind L M ordered \<or> (plans_of M w' = plans_of M w \<longrightarrow> \<nu> w' = \<nu> w)"
  by (auto simp: upgrade_measures_def plans_missing_def)

lemma catching_up_nodes:
  "catching_up K M I \<Longrightarrow> node_cluster K M (upgrade_measures L M ordered) I"
  by (simp add: catching_up_def node_cluster_def upgrade_measures_plans)

text \<open>The measure of each phase: what it has left to create or write, and nothing when it is skipped.\<close>

definition os_measure :: "Config \<Rightarrow> 'w cluster_view \<Rightarrow> Plan list \<Rightarrow> 'w \<Rightarrow> nat" where
  "os_measure cfg M ps = (if cfg_os cfg = None then (\<lambda>_. 0) else plans_missing M ps)"

definition k8s_measure :: "Config \<Rightarrow> 'w cluster_view \<Rightarrow> Plan list \<Rightarrow> 'w \<Rightarrow> nat" where
  "k8s_measure cfg M ps = (if cfg_kubernetes cfg = None then (\<lambda>_. 0) else plans_missing M ps)"

definition measured_pipeline ::
  "(string \<Rightarrow> ImageTag outcome) \<Rightarrow> string \<Rightarrow> helm_libs \<Rightarrow> rke2_libs \<Rightarrow> 'w kube \<Rightarrow> 'w helm_client \<Rightarrow> string
     \<Rightarrow> Config \<Rightarrow> 'w cluster_view \<Rightarrow> Plan list \<Rightarrow> Plan list \<Rightarrow> HelmChartConfig list
     \<Rightarrow> ('w PhaseHandler \<times> ('w \<Rightarrow> nat)) list" where
  "measured_pipeline tag env L R K HC git cfg M ops kps ordered =
     zip (upgrade_pipeline tag env L R K HC git)
       [os_measure cfg M ops, k8s_measure cfg M kps, how_many_behind L M ordered]"

lemma os_phase_settles:
  assumes "catching_up K M I" and "os_ready tag env K cfg I ps"
  shows "settles (upgrade_measures L M ordered) I (os_measure cfg M ps) status_complete (\<lambda>s. \<not> status_complete s)
     (ph_reconcile (NewOSReconciler tag env K (SUCPlanReconciler_Reconcile K)) (Some cfg))"
proof (cases "cfg_os cfg")
  case None
  then show ?thesis
    by (simp add: os_measure_def NewOSReconciler_def OSReconciler_Reconcile_def skipped_settles)
next
  case (Some os)
  then have "os_measure cfg M ps = plans_missing M ps" by (simp add: os_measure_def)
  moreover have "prepares I (OS_preparePlans tag env K cfg os) ps" using assms(2) Some by (simp add: os_ready_def)
  ultimately show ?thesis using os_settles [OF catching_up_nodes [OF assms(1)] Some] by simp
qed

lemma k8s_phase_settles:
  assumes "catching_up K M I" and "k8s_ready (upgrade_measures L M ordered) handler K cfg M I ps"
  shows "settles (upgrade_measures L M ordered) I (k8s_measure cfg M ps) status_complete (\<lambda>s. \<not> status_complete s)
     (ph_reconcile (NewKubernetesReconciler K (SUCPlanReconciler_Reconcile K) handler) (Some cfg))"
proof (cases "cfg_kubernetes cfg")
  case None
  then show ?thesis
    by (simp add: k8s_measure_def NewKubernetesReconciler_def KubernetesReconciler_Reconcile_def skipped_settles)
next
  case (Some k8s)
  then have measure: "k8s_measure cfg M ps = plans_missing M ps" by (simp add: k8s_measure_def)
  from assms(2) Some obtain H where "handler = Some H" "prepares I (K8s_preparePlans K cfg k8s) ps"
    "\<And>w. I w \<Longrightarrow> nodes_at_version K M ps (k8s_version k8s) w"
    "components_ready (upgrade_measures L M ordered) I M ps H cfg (k8s_version k8s)"
    unfolding k8s_ready_def by blast
  then show ?thesis unfolding measure using k8s_settles [OF catching_up_nodes [OF assms(1)] Some] by simp
qed

lemma pipeline_settling:
  assumes "steady_cluster tag env L R K HC git cfg M I ops kps ordered"
  shows "settling_handlers (upgrade_measures L M ordered) I cfg
     (measured_pipeline tag env L R K HC git cfg M ops kps ordered)"
proof -
  have parts: "catching_up K M I" "os_ready tag env K cfg I ops"
    "k8s_ready (upgrade_measures L M ordered) (packagedComponentsHandler R K HC git) K cfg M I kps"
    "upgradable_charts L K HC chart_reconciler cfg M ordered"
    using assms by (simp_all add: steady_cluster_def)
  have "settles (upgrade_measures L M ordered) I (how_many_behind L M ordered) status_complete
      (\<lambda>s. \<not> status_complete s) (ph_reconcile (NewHelmReconciler L K HC False) (Some cfg))"
    unfolding NewHelmReconciler_def PhaseHandler.simps chart_reconciler_def [symmetric]
    by (rule helm_settles [OF parts(4) _ upgrade_measures_charts]) (use parts(1) in \<open>simp_all add: catching_up_def\<close>)
  then show ?thesis
    using os_phase_settles [OF parts(1,2)] k8s_phase_settles [OF parts(1,3)]
    by (auto simp: settling_handlers_def measured_pipeline_def upgrade_pipeline_def Let_def upgrade_measures_def
        os_measure_def k8s_measure_def)
qed

lemma measured_pipeline_simps:
  "map fst (measured_pipeline tag env L R K HC git cfg M ops kps ordered) = upgrade_pipeline tag env L R K HC git"
  "total_measure (measured_pipeline tag env L R K HC git cfg M ops kps ordered) w
     = os_measure cfg M ops w + k8s_measure cfg M kps w + how_many_behind L M ordered w"
  by (simp_all add: measured_pipeline_def upgrade_pipeline_def Let_def)

lemma measured_pipeline_distinct:
  "distinct (map (\<lambda>hm. ph_phase (fst hm)) (measured_pipeline tag env L R K HC git cfg M ops kps ordered))"
proof -
  have "map (\<lambda>hm. ph_phase (fst hm)) (measured_pipeline tag env L R K HC git cfg M ops kps ordered)
      = Phases (upgrade_pipeline tag env L R K HC git)"
    unfolding Phases_def measured_pipeline_simps(1) [of tag env L R K HC git cfg M ops kps ordered, symmetric] by simp
  then show ?thesis by simp
qed

section \<open>Rounds\<close>

text \<open>What is left to do, and one round: the pipeline, then the other controllers.\<close>

definition work_left ::
  "helm_libs \<Rightarrow> Config \<Rightarrow> 'w cluster_view \<Rightarrow> Plan list \<Rightarrow> Plan list \<Rightarrow> HelmChartConfig list \<Rightarrow> 'w \<Rightarrow> nat" where
  "work_left L cfg M ops kps ordered w =
     os_measure cfg M ops w + k8s_measure cfg M kps w + how_many_behind L M ordered w"

definition upgrade_round ::
  "(string \<Rightarrow> ImageTag outcome) \<Rightarrow> string \<Rightarrow> helm_libs \<Rightarrow> rke2_libs \<Rightarrow> 'w kube \<Rightarrow> 'w helm_client \<Rightarrow> string
     \<Rightarrow> Config \<Rightarrow> 'w cluster_view \<Rightarrow> 'w \<Rightarrow> 'w" where
  "upgrade_round tag env L R K HC git cfg M =
     round_of (Pipeline_Reconcile (upgrade_pipeline tag env L R K HC git) (Some cfg)) (controllers M)"

lemma pipeline_turn:
  assumes "steady_cluster tag env L R K HC git cfg M I ops kps ordered" and "I w"
  shows "\<exists>states w'. run_state (Pipeline_Reconcile (upgrade_pipeline tag env L R K HC git) (Some cfg)) w
       = ((states, Ok ()), w')
     \<and> (AllComplete states \<and> work_left L cfg M ops kps ordered w' = 0 \<and> I w'
        \<or> \<not> AllComplete states \<and> work_left L cfg M ops kps ordered w' < work_left L cfg M ops kps ordered w)"
  using pipeline_settles [OF pipeline_settling [OF assms(1)] measured_pipeline_distinct assms(2)]
  unfolding measured_pipeline_simps work_left_def by blast

lemma work_left_controllers:
  assumes "steady_cluster tag env L R K HC git cfg M I ops kps ordered"
  shows "work_left L cfg M ops kps ordered (controllers M w) \<le> work_left L cfg M ops kps ordered w"
proof -
  have "catching_up K M I" "catches_up K M" using assms by (auto simp: steady_cluster_def upgradable_charts_def)
  then have "plans_missing M ps (controllers M w) \<le> plans_missing M ps w" for ps
    by (intro plans_missing_grows) (simp add: catching_up_def)
  then show ?thesis
    unfolding work_left_def how_many_behind_controllers [OF \<open>catches_up K M\<close>]
    by (auto simp: os_measure_def k8s_measure_def intro!: add_mono)
qed

lemma upgrade_rounds:
  assumes "steady_cluster tag env L R K HC git cfg M I ops kps ordered"
  shows "I ((upgrade_round tag env L R K HC git cfg M ^^ k) (controllers M w))
     \<and> work_left L cfg M ops kps ordered ((upgrade_round tag env L R K HC git cfg M ^^ k) (controllers M w))
         \<le> work_left L cfg M ops kps ordered w - k"
  unfolding upgrade_round_def
proof (rule rounds_settle [where fin = "\<lambda>r. AllComplete (fst r)"])
  show "\<exists>r w'. run_state (Pipeline_Reconcile (upgrade_pipeline tag env L R K HC git) (Some cfg)) v = (r, w')
      \<and> (AllComplete (fst r) \<and> work_left L cfg M ops kps ordered w' = 0
        \<or> work_left L cfg M ops kps ordered w' < work_left L cfg M ops kps ordered v)" if "I v" for v
    using pipeline_turn [OF assms that] by fastforce
  show "I (controllers M v)" for v using assms by (simp add: steady_cluster_def catching_up_def)
qed (rule work_left_controllers [OF assms])

lemma work_left_bound: "work_left L cfg M ops kps ordered w \<le> length ops + length kps + length ordered"
  unfolding work_left_def os_measure_def k8s_measure_def plans_missing_def how_many_behind_def
  by (intro add_mono) simp_all

text \<open>Where no work is left the cluster is what the configuration asks for.\<close>

lemma nothing_left:
  assumes "steady_cluster tag env L R K HC git cfg M I ops kps ordered" and "I w"
    and "work_left L cfg M ops kps ordered w = 0"
  shows "(\<forall>c \<in> set ordered. at_target L M w c) \<and> (cfg_os cfg \<noteq> None \<longrightarrow> plans_missing M ops w = 0)
     \<and> (cfg_kubernetes cfg \<noteq> None \<longrightarrow> plans_missing M kps w = 0)"
proof -
  have "caught_up K M w" using assms(1,2) by (simp add: steady_cluster_def catching_up_def)
  note target = not_behind_at_target [OF this]
  show ?thesis using assms(3) by (auto simp: work_left_def os_measure_def k8s_measure_def none_behind target)
qed

section \<open>Property\<close>


text \<open>
  The small cluster: nothing is planned yet and both charts are installed at version 0, where the
  configuration asks for version 1, an operating system and a Kubernetes version.
\<close>

lemma sim_steady:
  "steady_cluster witness_tag [] witness_libs witness_rke2_libs sim_kube sim_helm ''v1.33.1+rke2r1'' sim_config sim_cluster
     sim_settled sim_os_plans sim_k8s_plans [witness_chart ''a'' [], witness_chart ''b'' [''a'']]"
  unfolding steady_cluster_def
proof (intro conjI sim_charts_upgradable)
  show "catching_up sim_kube sim_cluster sim_settled"
    using sim_settled_controller
    by (simp add: catching_up_def sim_answers_plans sim_stores_plans sim_settled_def sim_cluster_controllers sim_plans_kept)
  have os: "cfg_os sim_config = Some sim_os_config" and k8s: "cfg_kubernetes sim_config = Some witness_k8s"
    by (simp_all add: sim_config_def witness_config_def)
  show "os_ready witness_tag [] sim_kube sim_config sim_settled sim_os_plans"
    by (simp add: os_ready_def os sim_os)
  have "packagedComponentsHandler witness_rke2_libs sim_kube sim_helm ''v1.33.1+rke2r1''
      = Some (NewRKE2PackagedComponentsHandler witness_rke2_libs sim_kube sim_helm None)"
    unfolding packagedComponentsHandler_def by (rule if_P) code_simp
  then show "k8s_ready (upgrade_measures witness_libs sim_cluster [witness_chart ''a'' [], witness_chart ''b'' [''a'']])
      (packagedComponentsHandler witness_rke2_libs sim_kube sim_helm ''v1.33.1+rke2r1'') sim_kube sim_config sim_cluster
      sim_settled sim_k8s_plans"
    by (simp add: k8s_ready_def k8s sim_k8s sim_nodes_at_version sim_components)
qed

definition sim_after :: "nat \<Rightarrow> sim" where
  "sim_after k = (upgrade_round witness_tag [] witness_libs witness_rke2_libs sim_kube sim_helm ''v1.33.1+rke2r1'' sim_config
     sim_cluster ^^ k) (controllers sim_cluster sim_start)"


end
