(* ===== verification/Release_Upgrade.thy ===== *)
theory Release_Upgrade
  imports Release_Progress Upgrade_Progress
begin

text \<open>
  The whole program at work: the Release controller with the pipeline of the manager, on a cluster
  whose controllers carry out the plans and install the charts. A Release is applied after one round
  for each plan and each chart and three more, from any status and any state of the cluster.
\<close>

section \<open>A Release the manager can apply\<close>

text \<open>
  The states between two reconciliations: the Release has the target of \<open>rel\<close>, the raw manifests in
  the memory of the reconciler satisfy \<open>A\<close>, and the controllers have caught up.
\<close>

definition settled_target ::
  "('w \<Rightarrow> bool) \<Rightarrow> ((string, string) fmap \<Rightarrow> bool) \<Rightarrow> Release \<Rightarrow> 'w ctl \<Rightarrow> bool" where
  "settled_target I A rel s \<longleftrightarrow> I (ct_world s) \<and> A (ct_raw s) \<and> same_target rel (ct_release s)"

text \<open>
  What the reconciler finds for the target: the manager itself is up to date, the manifest \<open>m\<close> is
  there, it is the configuration \<open>cfg\<close>, and the plans of an older version can be deleted.
\<close>

definition target_ready ::
  "'w ReleaseReconciler \<Rightarrow> Release \<Rightarrow> ((string, string) fmap \<Rightarrow> bool) \<Rightarrow> ResolvedManifest \<Rightarrow> Config \<Rightarrow> ('w \<Rightarrow> bool)
     \<Rightarrow> ('w \<Rightarrow> nat) \<Rightarrow> bool" where
  "target_ready r rel A m cfg I \<mu> \<longleftrightarrow> (\<forall>s. settled_target I A rel s \<longrightarrow>
     runs_to (lcmUpgradeConfig r (ct_release s)) s (\<lambda>config s1.
       runs_to (on_world (reconcileLCM r config)) s1 (\<lambda>st s2.
         status_complete st \<and> no_new_work (settled_target I A rel) (\<lambda>s. \<mu> (ct_world s)) s s2))
   \<and> runs_to (on_world (getOrRetrieveManifest r (ct_release s))) s (\<lambda>m' s1.
       no_new_work (settled_target I A rel) (\<lambda>s. \<mu> (ct_world s)) s s1 \<and> m' = m)
   \<and> runs_to (on_world (parseUpgradeConfig r m (ct_release s))) s (\<lambda>c s1.
       no_new_work (settled_target I A rel) (\<lambda>s. \<mu> (ct_world s)) s s1 \<and> c = cfg)
   \<and> runs_to (cleanup_phase r cfg) s (\<lambda>_ s1. no_new_work (settled_target I A rel) (\<lambda>s. \<mu> (ct_world s)) s s1))"

section \<open>It is a working cluster\<close>

lemma runs_to_mono:
  assumes "runs_to m s Q" and "\<And>a s'. Q a s' \<Longrightarrow> Q' a s'"
  shows "runs_to m s Q'"
  using assms unfolding runs_to_def by blast

lemma settled_invariants:
  assumes "steady_cluster tag env L R K HC git cfg M I ops kps ordered"
  shows "target_invariants (settled_target I A rel) (settled_target (\<lambda>_. True) A rel)
     (\<lambda>s. work_left L cfg M ops kps ordered (ct_world s)) (controllers M)"
proof -
  have "I (controllers M w)" for w using assms by (simp add: steady_cluster_def catching_up_def)
  then show ?thesis
    using work_left_controllers [OF assms]
    by (simp add: target_invariants_def settled_target_def same_target_def no_new_work_def)
qed

lemma pipeline_runs:
  assumes "steady_cluster tag env L R K HC git cfg M I ops kps ordered"
    and "rc_pipeline r = upgrade_pipeline tag env L R K HC git" and "settled_target I A rel s"
  shows "runs_to (on_world (run_pipeline r cfg)) s (\<lambda>states s1.
     AllComplete states \<and> settled_target I A rel s1 \<and> work_left L cfg M ops kps ordered (ct_world s1) = 0
     \<or> \<not> AllComplete states
       \<and> does_work (settled_target (\<lambda>_. True) A rel) (\<lambda>s. work_left L cfg M ops kps ordered (ct_world s)) s s1)"
proof -
  from assms(3) have I: "I (ct_world s)" by (simp add: settled_target_def)
  obtain states w' where
    "run_state (Pipeline_Reconcile (upgrade_pipeline tag env L R K HC git) (Some cfg)) (ct_world s) = ((states, Ok ()), w')"
    and step: "AllComplete states \<and> work_left L cfg M ops kps ordered w' = 0 \<and> I w'
        \<or> \<not> AllComplete states \<and> work_left L cfg M ops kps ordered w' < work_left L cfg M ops kps ordered (ct_world s)"
    using pipeline_turn [OF assms(1) I] by blast
  then have "run_state (on_world (run_pipeline r cfg)) s = (Ok states, s\<lparr>ct_world := w'\<rparr>)"
    by (simp add: run_pipeline_def assms(2) run_ctl)
  then show ?thesis using step assms(3) by (auto simp: runs_to_def settled_target_def does_work_def)
qed

lemma steady_working:
  assumes "steady_cluster tag env L R K HC git cfg M I ops kps ordered"
    and "rc_pipeline r = upgrade_pipeline tag env L R K HC git"
    and "target_ready r rel A m cfg I (work_left L cfg M ops kps ordered)"
  shows "working_cluster r (settled_target I A rel) (settled_target (\<lambda>_. True) A rel) (\<lambda>m'. m' = m) (\<lambda>c. c = cfg)
     (\<lambda>s. work_left L cfg M ops kps ordered (ct_world s)) (controllers M)"
  unfolding working_cluster_def
proof (intro conjI settled_invariants [OF assms(1)] allI impI, goal_cases)
  case (1 s)
  then show ?case
    using assms(3) unfolding target_ready_def by (blast intro: runs_to_mono)
next
  case (2 s)
  then show ?case using assms(3) unfolding target_ready_def by blast
next
  case (3 s m')
  then show ?case using assms(3) unfolding target_ready_def by blast
next
  case (4 s c)
  then show ?case using assms(3) unfolding target_ready_def by blast
next
  case (5 s c)
  then show ?case using pipeline_runs [OF assms(1,2) 5(1)] by simp
qed

section \<open>Property\<close>


section \<open>The manager on the small cluster\<close>

definition sim_manifest :: ResolvedManifest where
  "sim_manifest =
     \<lparr>rm_core = Some \<lparr>core_os_image = Some ''os:2'',
                      core_kubernetes = Some \<lparr>mk_image = [], mk_version = ''v2''\<rparr>,
                      core_helm = Some \<lparr>helm_charts = map hcc_chart (cfg_helm_charts sim_config),
                                        helm_repositories = []\<rparr>\<rparr>,
      rm_solution = None\<rparr>"

definition sim_registry :: "(sim, string) registry" where
  "sim_registry = \<lparr>reg_parse_reference = Ok, reg_image = (\<lambda>_. ok [TarFile manifestPath (Ok [])])\<rparr>"

definition sim_libs :: "sim ReleaseReconciler" where
  "sim_libs =
     \<lparr>rc_client = sim_kube, rc_helm_client = sim_helm, rc_pipeline = [],
      rc_retrieve_manifest = (\<lambda>_ _. raise (Errorf [])), rc_read_manifest = (\<lambda>_. raise (Errorf [])),
      rc_parse_core = (\<lambda>_. Ok \<lparr>lc_charts = [], lc_repositories = []\<rparr>), rc_parse_solution = (\<lambda>_. Ok []),
      rc_conditions = list_conditions, rc_helm_libs = witness_libs,
      rc_manifest_codec = \<lparr>manifest_marshal = (\<lambda>_. Ok ''m''), manifest_unmarshal = (\<lambda>_. Ok sim_manifest)\<rparr>,
      rc_new_tag = witness_tag, rc_range = sorted_list_of_fset, rc_status_equal = (=), rc_retries = 4\<rparr>"

definition sim_manager :: "sim ReleaseReconciler" where
  "sim_manager = manager_reconciler (ordered_libs sim_libs) [] witness_rke2_libs ''v1.33.1+rke2r1'' sim_storage
     (\<lambda>read ref. ok sim_manifest) sim_registry (\<lambda>m. m)"

lemma sim_manager: "release_controller sim_manager"
  unfolding sim_manager_def by (rule manager.release_controller_axioms)

lemma sim_pipeline:
  "rc_pipeline sim_manager = upgrade_pipeline witness_tag [] witness_libs witness_rke2_libs sim_kube sim_helm ''v1.33.1+rke2r1''"
  by (simp add: sim_manager_def manager_reconciler_def sim_libs_def sim_helm_def)

lemma sim_parts:
  "rc_client sim_manager = sim_kube" "rc_helm_libs sim_manager = witness_libs" "rc_new_tag sim_manager = witness_tag"
  "rc_parse_solution sim_manager d = Ok []" "rc_parse_core sim_manager d = Ok \<lparr>lc_charts = [], lc_repositories = []\<rparr>"
  "rc_read_manifest sim_manager = ReadManifest sim_registry"
  "rc_retrieve_manifest sim_manager = RetrieveManifest (\<lambda>read ref. ok sim_manifest) sim_registry (\<lambda>m. m)"
  "rc_manifest_codec sim_manager = \<lparr>manifest_marshal = (\<lambda>_. Ok ''m''), manifest_unmarshal = (\<lambda>_. Ok sim_manifest)\<rparr>"
  by (simp_all add: sim_manager_def manager_reconciler_def sim_libs_def)

text \<open>What the reconciler has of raw manifests: nothing, or the one of this release.\<close>

definition sim_raw :: "(string, string) fmap \<Rightarrow> bool" where
  "sim_raw raw \<longleftrightarrow> raw = fmempty \<or> raw = fmupd ''reg:2'' [] fmempty"

lemma sim_upgrade_manifest:
  assumes "sim_raw (ct_raw s)"
  shows "run_state (getOrRetrieveUpgradeManifest sim_manager witness_release) s
    = (Ok [], s\<lparr>ct_raw := fmupd ''reg:2'' [] fmempty\<rparr>)"
proof -
  have "run_state (ReadManifest sim_registry i) w = (Ok [], w)" for i w
    by (simp add: ReadManifest_def ReadURI_def sim_registry_def run_attempt run_wrap)
  then show ?thesis
    using assms
    by (auto simp: sim_raw_def getOrRetrieveUpgradeManifest_def Let_def run_attempt run_ctl sim_parts witness_release_def)
qed

lemma sim_lcm:
  assumes "sim_raw (ct_raw s)"
  shows "\<exists>c. run_state (lcmUpgradeConfig sim_manager witness_release) s = (Ok c, s\<lparr>ct_raw := fmupd ''reg:2'' [] fmempty\<rparr>)
     \<and> (\<forall>w. run_state (reconcileLCM sim_manager c) w = (Ok (SkippedStatus PhaseHelmCharts), w))"
proof -
  have "runtimeHelmChartConfigs witness_release cs = fmempty" for cs
    by (simp add: runtimeHelmChartConfigs_def witness_release_def)
  then obtain c where "run_state (lcmUpgradeConfig sim_manager witness_release) s = (Ok c, s\<lparr>ct_raw := fmupd ''reg:2'' [] fmempty\<rparr>)"
    "cfg_helm_charts c = []"
    using sim_upgrade_manifest [OF assms]
    by (auto simp: lcmUpgradeConfig_def run_attempt sim_parts BuildHelmChartConfig_eq lcm_helm_def chart_refs_def
        chart_configs_of_def)
  then show ?thesis
    by (auto simp: reconcileLCM_def NewHelmReconciler_def HelmReconciler_Reconcile_def run_handle)
qed

lemma sim_resolves: "run_state (getOrRetrieveManifest sim_manager witness_release) w = (Ok sim_manifest, w)"
proof -
  have get: "run_state (get_config_map sim_kube n) w = (Ok witness_snapshot, w)" for n
    by (simp add: sim_kube_def witness_rke2_kube_def)
  have set: "run_state (update_config_map sim_kube cm) w = (Ok (), w)" for cm
    by (simp add: sim_kube_def witness_rke2_kube_def witness_kube_def)
  show ?thesis
    using get set
    by (auto simp: getOrRetrieveManifest_def Let_def ManifestCache_Get_def ManifestCache_Set_def cache_get_def cache_set_def
        sim_parts RetrieveManifest_def run_simps split: option.splits outcome.splits)
qed

lemma sim_new_config:
  "NewConfig witness_tag (Some sim_manifest) (spec_version (rel_spec witness_release)) (release_nn witness_release)
     (Some \<lparr>rtc_drain_opts = Some \<lparr>drain_control_plane = False, drain_worker = False\<rparr>,
            rtc_helm_charts = runtimeHelmChartConfigs witness_release []\<rparr>) = Ok sim_config"
  by code_simp

lemma sim_config_charts:
  "sim_config\<lparr>cfg_helm_charts := filter (\<lambda>c. hc_chart (hcc_chart c) \<noteq> elementalLifecycleManager
       \<and> hc_chart (hcc_chart c) \<noteq> elementalLifecycleManagerCRDs) (cfg_helm_charts sim_config)\<rparr> = sim_config"
  by code_simp

lemma sim_parses: "run_state (parseUpgradeConfig sim_manager sim_manifest witness_release) w = (Ok sim_config, w)"
proof -
  have "run_state (parseDrainOpts sim_kube witness_release) w
      = (Ok \<lparr>drain_control_plane = False, drain_worker = False\<rparr>, w)"
    by (simp add: parseDrainOpts_def witness_release_def run_attempt run_wrap sim_list_nodes drain_for_def)
  then show ?thesis
    unfolding parseUpgradeConfig_def sim_parts by (simp add: run_attempt run_wrap sim_new_config sim_config_charts)
qed

lemma sim_cleans: "run_state (cleanup_phase sim_manager cfg) s = (Ok (), s)"
  by (simp add: cleanup_phase_def Let_def run_ctl run_wrap cleanupOldVersionPlans_def run_attempt sim_parts
      sim_kube_def witness_rke2_kube_def witness_kube_def)

lemma sim_target: "target_ready sim_manager witness_release sim_raw sim_manifest sim_config I \<mu>"
  unfolding target_ready_def
proof (intro allI impI, goal_cases)
  case (1 s)
  then have s: "I (ct_world s)" "sim_raw (ct_raw s)" "same_target witness_release (ct_release s)"
    by (simp_all add: settled_target_def)
  obtain c where c: "run_state (lcmUpgradeConfig sim_manager witness_release) s = (Ok c, s\<lparr>ct_raw := fmupd ''reg:2'' [] fmempty\<rparr>)"
    "\<And>w. run_state (reconcileLCM sim_manager c) w = (Ok (SkippedStatus PhaseHelmCharts), w)"
    using sim_lcm [OF s(2)] by blast
  have kept: "no_new_work (settled_target I sim_raw witness_release) (\<lambda>s. \<mu> (ct_world s)) s s"
    "no_new_work (settled_target I sim_raw witness_release) (\<lambda>s. \<mu> (ct_world s)) s (s\<lparr>ct_raw := fmupd ''reg:2'' [] fmempty\<rparr>)"
    using s by (simp_all add: no_new_work_def settled_target_def sim_raw_def)
  have "status_complete (SkippedStatus PhaseHelmCharts)" by (simp add: status_complete_def SkippedStatus_def)
  then have "runs_to (lcmUpgradeConfig sim_manager witness_release) s (\<lambda>config s1.
       runs_to (on_world (reconcileLCM sim_manager config)) s1 (\<lambda>st s2.
         status_complete st \<and> no_new_work (settled_target I sim_raw witness_release) (\<lambda>s. \<mu> (ct_world s)) s s2))"
    using kept(2) by (simp add: runs_to_def c(1) run_ctl c(2))
  then show ?case
    using kept(1) unfolding same_target_calls [OF s(3)]
    by (simp add: runs_to_def run_ctl sim_resolves sim_parses sim_cleans)
qed

definition sim_ctl :: "sim ctl" where
  "sim_ctl = \<lparr>ct_raw = fmempty,
     ct_release = witness_release\<lparr>rel_status := \<lparr>status_version = [], status_conditions = [],
                                     status_observed_generation = 0\<rparr>\<rparr>,
     ct_world = controllers sim_cluster sim_start\<rparr>"


end
