(* ===== verification/Release_History.thy ===== *)
theory Release_History
  imports Release_Editing "HOL-Library.List_Lexorder"
begin

text \<open>
  The versions a Release goes through when every edit passes the webhook. What the webhook compares a
  new target with is the version in the status, and the controller writes only the target there, so
  the applied versions rise along every run of the cluster - as long as no edit falls between the
  start of a reconciliation and the writing of its status.
\<close>

section \<open>The order of versions\<close>

text \<open>\<open>newer V u v\<close>: the webhook accepts the target \<open>u\<close> over the applied version \<open>v\<close>.\<close>

definition newer :: "'v version_lib \<Rightarrow> string \<Rightarrow> string \<Rightarrow> bool" where
  "newer V u v \<longleftrightarrow> u \<noteq> [] \<and> (\<exists>p i. version_Parse V u = Ok p \<and> version_Compare V p v = Ok i \<and> i \<notin> {0, -1})"

lemma not_newer_empty [simp]: "\<not> newer V [] v"
  by (simp add: newer_def)

locale version_order =
  fixes V :: "'v version_lib"
  assumes newer_trans: "newer V a b \<Longrightarrow> newer V b c \<Longrightarrow> newer V a c"

section \<open>Dotted versions\<close>

text \<open>
  Versions as \<^verbatim>\<open>version.Parse\<close> reads the plain ones: numbers separated by dots, where missing
  components count as zero. Without trailing zeros the order is the lexicographic one.
\<close>

datatype dotted = Dotted (components: "nat list")

instantiation dotted :: linorder
begin

definition less_eq_dotted :: "dotted \<Rightarrow> dotted \<Rightarrow> bool" where
  "a \<le> b \<longleftrightarrow> components a \<le> components b"

definition less_dotted :: "dotted \<Rightarrow> dotted \<Rightarrow> bool" where
  "a < b \<longleftrightarrow> components a < components b"

instance
  by standard (auto simp: less_eq_dotted_def less_dotted_def dotted.expand)

end

definition digit_value :: "char \<Rightarrow> nat option" where
  "digit_value c = (let n = of_char c :: nat in if 48 \<le> n \<and> n \<le> 57 then Some (n - 48) else None)"

text \<open>The components of the text, with the one being read: \<open>None\<close> between a dot and its first digit.\<close>

fun read_dotted :: "nat list \<Rightarrow> nat option \<Rightarrow> string \<Rightarrow> nat list option" where
  "read_dotted pre acc [] = (case acc of None \<Rightarrow> None | Some n \<Rightarrow> Some (pre @ [n]))"
| "read_dotted pre acc (c # cs) =
     (if c = CHR ''.'' then (case acc of None \<Rightarrow> None | Some n \<Rightarrow> read_dotted (pre @ [n]) None cs)
      else case digit_value c of
             None \<Rightarrow> None
           | Some d \<Rightarrow> read_dotted pre (Some ((case acc of None \<Rightarrow> 0 | Some n \<Rightarrow> n) * 10 + d)) cs)"

definition parse_dotted :: "string \<Rightarrow> dotted outcome" where
  "parse_dotted s = (case read_dotted [] None s of
     None \<Rightarrow> Err (Errorf (''could not parse '' @ go_quote s))
   | Some ns \<Rightarrow> Ok (Dotted (rev (dropWhile (\<lambda>n. n = 0) (rev ns)))))"

definition compare_dotted :: "dotted \<Rightarrow> string \<Rightarrow> int outcome" where
  "compare_dotted a s = obind (parse_dotted s) (\<lambda>b. Ok (if a < b then -1 else if a = b then 0 else 1))"

definition dotted_versions :: "dotted version_lib" where
  "dotted_versions = \<lparr>version_Parse = parse_dotted, version_Compare = compare_dotted\<rparr>"

lemma newer_dotted:
  "newer dotted_versions u v \<longleftrightarrow> (\<exists>a b. parse_dotted u = Ok a \<and> parse_dotted v = Ok b \<and> b < a)"
proof -
  have "(\<exists>i. compare_dotted a v = Ok i \<and> i \<notin> {0, -1}) \<longleftrightarrow> (\<exists>b. parse_dotted v = Ok b \<and> b < a)" for a
    by (cases "parse_dotted v") (auto simp: compare_dotted_def)
  moreover have "parse_dotted [] \<noteq> Ok a" for a by (simp add: parse_dotted_def)
  ultimately show ?thesis by (auto simp: newer_def dotted_versions_def)
qed

interpretation dots: version_order dotted_versions
  by unfold_locales (auto simp: newer_dotted intro: less_trans)


section \<open>A cluster where every edit is admitted\<close>

text \<open>The steps of the cluster, but an edit changes the Release only when the webhook admits it. The
  webhook reads the cluster with the client of the manager.\<close>

inductive guarded_step :: "'v version_lib \<Rightarrow> 'w ReleaseReconciler \<Rightarrow> 'w ctl \<Rightarrow> 'w ctl \<Rightarrow> bool" for V r where
  unedited: "cluster_step r s s' \<Longrightarrow> rel_generation (ct_release s') = rel_generation (ct_release s) \<Longrightarrow>
    guarded_step V r s s'"
| admitted: "new = (ct_release s)\<lparr>rel_spec := spec, rel_generation := rel_generation (ct_release s) + 1\<rparr> \<Longrightarrow>
    run_state (ValidateUpdate V (rc_conditions r) (rc_client r) (ct_release s) new) (ct_world s) = (Ok (), w) \<Longrightarrow>
    guarded_step V r s (s\<lparr>ct_release := new, ct_world := w\<rparr>)"

text \<open>The target is the applied version or one that is newer.\<close>

definition target_ahead :: "'v version_lib \<Rightarrow> Release \<Rightarrow> bool" where
  "target_ahead V rel \<longleftrightarrow> status_version (rel_status rel) = []
     \<or> spec_version (rel_spec rel) = status_version (rel_status rel)
     \<or> newer V (spec_version (rel_spec rel)) (status_version (rel_status rel))"

lemma admitted_newer:
  assumes "run_state (ValidateUpdate V CL K old new) w = (Ok (), w')"
  shows "status_version (rel_status old) = []
     \<or> newer V (spec_version (rel_spec new)) (status_version (rel_status old))"
  using assms
  by (auto simp: ValidateUpdate_def run_pure_attempt newer_def validateReleaseVersion_Ok compare_with_applied_Ok
      newer_than_applied_def split: outcome.splits if_splits)

text \<open>What a step of the unedited cluster may do to the recorded version.\<close>

lemma unedited_versions:
  assumes "release_controller r" and "cluster_step r s s'"
    and "rel_generation (ct_release s') = rel_generation (ct_release s)"
  shows "rel_spec (ct_release s') = rel_spec (ct_release s)
     \<and> (status_version (rel_status (ct_release s')) = status_version (rel_status (ct_release s))
        \<or> status_version (rel_status (ct_release s')) = spec_version (rel_spec (ct_release s)))"
  using assms(2,3)
proof (cases rule: cluster_step.cases)
  case (reconciled res)
  then show ?thesis
    using release_controller.normal_target [OF assms(1)] release_controller.version_recorded [OF assms(1)] by blast
qed auto


lemma guarded_step_cluster: "guarded_step V r s s' \<Longrightarrow> (cluster_step r)\<^sup>*\<^sup>* s s'"
proof (induction rule: guarded_step.induct)
  case (unedited s s')
  then show ?case by blast
next
  case (admitted new s spec w)
  have "cluster_step r s (s\<lparr>ct_release := new\<rparr>)" unfolding admitted(1) by (rule edited)
  moreover have "cluster_step r (s\<lparr>ct_release := new\<rparr>) (s\<lparr>ct_release := new, ct_world := w\<rparr>)"
    using environment [of r "s\<lparr>ct_release := new\<rparr>" w] by simp
  ultimately show ?case by (meson converse_rtranclp_into_rtranclp r_into_rtranclp)
qed

lemma guarded_ahead:
  assumes "release_controller r" and "guarded_step V r s s'" and "target_ahead V (ct_release s)"
  shows "target_ahead V (ct_release s')"
  using assms(2,3)
proof (induction rule: guarded_step.induct)
  case (unedited s s')
  from unedited_versions [OF assms(1) unedited(1,2)] unedited(3) show ?case
    unfolding target_ahead_def by auto
next
  case (admitted new s spec w)
  then have "rel_status new = rel_status (ct_release s)" by simp
  then show ?case using admitted_newer [OF admitted(2)] by (simp add: target_ahead_def) blast
qed

text \<open>A recorded version is followed by itself or by a newer one.\<close>

definition version_follows :: "'v version_lib \<Rightarrow> string \<Rightarrow> string \<Rightarrow> bool" where
  "version_follows V u v \<longleftrightarrow> v = [] \<or> u = v \<or> newer V u v"

lemma guarded_version:
  assumes "release_controller r" and "guarded_step V r s s'" and "target_ahead V (ct_release s)"
  shows "version_follows V (status_version (rel_status (ct_release s'))) (status_version (rel_status (ct_release s)))"
  using assms(2,3)
proof (induction rule: guarded_step.induct)
  case (unedited s s')
  from unedited_versions [OF assms(1) unedited(1,2)] unedited(3) show ?case
    unfolding target_ahead_def version_follows_def by auto
next
  case (admitted new s spec w)
  then have "rel_status new = rel_status (ct_release s)" by simp
  then show ?case by (simp add: version_follows_def)
qed

context version_order
begin

lemma version_follows_trans:
  "version_follows V a b \<Longrightarrow> version_follows V b c \<Longrightarrow> version_follows V a c"
  using newer_trans unfolding version_follows_def by auto

lemma guarded_run:
  assumes "release_controller r" and "(guarded_step V r)\<^sup>*\<^sup>* s s'" and "target_ahead V (ct_release s)"
  shows "target_ahead V (ct_release s')
     \<and> version_follows V (status_version (rel_status (ct_release s'))) (status_version (rel_status (ct_release s)))"
  using assms(2)
proof (induction rule: rtranclp_induct)
  case base
  then show ?case using assms(3) by (simp add: version_follows_def)
next
  case (step s1 s2)
  note ahead = guarded_ahead [OF assms(1) step.hyps(2) conjunct1 [OF step.IH]]
  note follows = guarded_version [OF assms(1) step.hyps(2) conjunct1 [OF step.IH]]
  show ?case using ahead version_follows_trans [OF follows] step.IH by blast
qed

end


section \<open>Properties\<close>

text \<open>
  C8. Versions only rise: on a cluster where every edit passes the webhook, from a Release just
  created, the recorded version is at any later time the same or one the webhook holds for newer,
  and the target is the recorded version or a newer one - provided newer is transitive.
\<close>

theorem versions_only_rise:
  assumes "release_controller r" and "version_order V" and "fresh (ct_release s0)"
    and "(guarded_step V r)\<^sup>*\<^sup>* s0 s" and "(guarded_step V r)\<^sup>*\<^sup>* s s'"
  shows "version_follows V (status_version (rel_status (ct_release s'))) (status_version (rel_status (ct_release s)))
     \<and> target_ahead V (ct_release s')"
proof -
  have "target_ahead V (ct_release s0)" using assms(3) by (simp add: target_ahead_def fresh_def)
  note start = version_order.guarded_run [OF assms(2,1,4) this]
  show ?thesis using version_order.guarded_run [OF assms(2,1,5) conjunct1 [OF start]] by blast
qed

text \<open>The Release of the life cycle is edited after it was applied.\<close>

lemma life_guarded:
  obtains s where "(guarded_step V life_controller)\<^sup>*\<^sup>* life_start s"
    "rel_spec (ct_release s) = rel_spec witness_release"
    "status_version (rel_status (ct_release s)) = ''2''" "editable list_conditions (ct_release s)"
proof -
  let ?run = "run_state (reconcileNormal life_controller)"
  obtain res1 s1 res2 s2 res3 s3 where runs: "?run life_start = (res1, s1)" "?run s1 = (res2, s2)" "?run s2 = (res3, s3)"
    "no_panic res1" "no_panic res2" "no_panic res3" "status_version (rel_status (ct_release s3)) = ''2''"
    "true_view (view list_conditions (ct_release s3) ConditionApplied)"
    by (rule life_trace)
  note same = release_controller.normal_target [OF life_controller(1)]
  have step: "guarded_step V life_controller a b" if "?run a = (res, b)" "no_panic res" for a b and res :: "ctrl_result outcome"
    using that same [OF that(1)] by (intro unedited reconciled_no_panic) auto
  have "(guarded_step V life_controller)\<^sup>*\<^sup>* life_start s3"
    using step [OF runs(1,4)] step [OF runs(2,5)] step [OF runs(3,6)]
    by (meson rtranclp.rtrancl_refl rtranclp.rtrancl_into_rtrancl)
  moreover have "rel_spec (ct_release s3) = rel_spec witness_release"
    using same [OF runs(1)] same [OF runs(2)] same [OF runs(3)] by (simp add: life_start_def)
  moreover have "editable list_conditions (ct_release s3)"
    using runs(8) by (auto simp: editable_def true_view_def)
  ultimately show thesis using that runs(7) by blast
qed

lemma parse_three: "parse_dotted ''3'' = Ok (Dotted [3])" "parse_dotted ''2'' = Ok (Dotted [2])"
  by code_simp+

theorem versions_only_rise_witness:
  "\<exists>s. (guarded_step dotted_versions life_controller)\<^sup>*\<^sup>* life_start s
     \<and> status_version (rel_status (ct_release s)) = ''2'' \<and> spec_version (rel_spec (ct_release s)) = ''3''
     \<and> target_ahead dotted_versions (ct_release s)"
proof -
  obtain s where s: "(guarded_step dotted_versions life_controller)\<^sup>*\<^sup>* life_start s"
    "rel_spec (ct_release s) = rel_spec witness_release"
    "status_version (rel_status (ct_release s)) = ''2''" "editable list_conditions (ct_release s)"
    by (rule life_guarded)
  let ?spec = "(rel_spec witness_release)\<lparr>spec_version := ''3''\<rparr>"
  let ?new = "(ct_release s)\<lparr>rel_spec := ?spec, rel_generation := rel_generation (ct_release s) + 1\<rparr>"
  have "newer_than_applied dotted_versions (Dotted [3]) (ct_release s)"
    by (simp add: newer_than_applied_def s(3) dotted_versions_def compare_dotted_def parse_three less_dotted_def)
  then have compare: "compare_with_applied dotted_versions (Dotted [3]) (ct_release s) ?new = Ok ()"
    unfolding compare_with_applied_Ok .
  have "validateReleaseVersion dotted_versions ''3'' = Ok (Dotted [3])"
    unfolding validateReleaseVersion_Ok by (simp add: dotted_versions_def parse_three)
  then have "run_state (ValidateUpdate dotted_versions (rc_conditions life_controller) (rc_client life_controller)
      (ct_release s) ?new) (ct_world s) = (Ok (), ct_world s)"
    using s(4) compare unfolding validateNoUpgradeInProgress_Ok [symmetric]
    by (simp add: ValidateUpdate_def run_pure_attempt life_controller(3) validate_components_def witness_release_def)
  then have "guarded_step dotted_versions life_controller s (s\<lparr>ct_release := ?new, ct_world := ct_world s\<rparr>)"
    by (rule admitted [OF refl])
  note step = r_into_rtranclp [of "guarded_step dotted_versions life_controller", OF this]
  from versions_only_rise [OF life_controller(1) dots.version_order_axioms life_start s(1) step]
    rtranclp_trans [OF s(1) step] s(3) show ?thesis
    by (intro exI [of _ "s\<lparr>ct_release := ?new, ct_world := ct_world s\<rparr>"]) simp
qed



text \<open>Version 1 is applied, an upgrade to 2 has failed and is being retried, and the user settles for 1.5.\<close>

definition race_release :: Release where
  "race_release =
     setCondition list_conditions ConditionApplied ConditionFalse UpgradeFailed ''failed''
       (setCondition list_conditions ConditionLCMUpgraded ConditionTrue UpgradeSucceeded []
         (witness_release\<lparr>rel_status := \<lparr>status_version = ''1'', status_conditions = [], status_observed_generation = 1\<rparr>\<rparr>))"

definition race_edit :: Release where
  "race_edit = race_release\<lparr>rel_spec := (rel_spec witness_release)\<lparr>spec_version := ''1.5''\<rparr>, rel_generation := 2\<rparr>"

definition race_ctl :: "unit ctl" where
  "race_ctl = \<lparr>ct_raw = fmempty, ct_release = race_release, ct_world = ()\<rparr>"


end
