(* ===== verification/Manager_Options.thy ===== *)
theory Manager_Options
  imports Plans
begin

text \<open>
  The command line of the manager and the options of its servers, the first half of \<^verbatim>\<open>main\<close> in
  \<^verbatim>\<open>cmd/main.go\<close>, with the flag syntax of Go's package \<^verbatim>\<open>flag\<close>.
\<close>

section \<open>Flags\<close>

record manager_flags =
  metricsAddr :: string
  probeAddr :: string
  enableLeaderElection :: bool
  secureMetrics :: bool
  webhookCertPath :: string
  webhookCertName :: string
  webhookCertKey :: string
  metricsCertPath :: string
  metricsCertName :: string
  metricsCertKey :: string
  enableHTTP2 :: bool

definition default_flags :: manager_flags where
  "default_flags =
     \<lparr>metricsAddr = ''0'', probeAddr = '':8081'', enableLeaderElection = False, secureMetrics = True,
      webhookCertPath = [], webhookCertName = ''tls.crt'', webhookCertKey = ''tls.key'',
      metricsCertPath = [], metricsCertName = ''tls.crt'', metricsCertKey = ''tls.key'',
      enableHTTP2 = False\<rparr>"

text \<open>
  A flag by what its value may be. \<open>LibraryFlag\<close> stands for the flags that the imported packages
  register (zap and the client configuration).
\<close>

datatype flag =
    StringFlag "string \<Rightarrow> manager_flags \<Rightarrow> manager_flags"
  | BoolFlag "bool \<Rightarrow> manager_flags \<Rightarrow> manager_flags"
  | LibraryFlag bool "string \<Rightarrow> gerr option"

definition manager_flag_list :: "(string \<times> flag) list" where
  "manager_flag_list =
     [(''metrics-bind-address'', StringFlag (\<lambda>v. metricsAddr_update (\<lambda>_. v))),
      (''health-probe-bind-address'', StringFlag (\<lambda>v. probeAddr_update (\<lambda>_. v))),
      (''leader-elect'', BoolFlag (\<lambda>v. enableLeaderElection_update (\<lambda>_. v))),
      (''metrics-secure'', BoolFlag (\<lambda>v. secureMetrics_update (\<lambda>_. v))),
      (''webhook-cert-path'', StringFlag (\<lambda>v. webhookCertPath_update (\<lambda>_. v))),
      (''webhook-cert-name'', StringFlag (\<lambda>v. webhookCertName_update (\<lambda>_. v))),
      (''webhook-cert-key'', StringFlag (\<lambda>v. webhookCertKey_update (\<lambda>_. v))),
      (''metrics-cert-path'', StringFlag (\<lambda>v. metricsCertPath_update (\<lambda>_. v))),
      (''metrics-cert-name'', StringFlag (\<lambda>v. metricsCertName_update (\<lambda>_. v))),
      (''metrics-cert-key'', StringFlag (\<lambda>v. metricsCertKey_update (\<lambda>_. v))),
      (''enable-http2'', BoolFlag (\<lambda>v. enableHTTP2_update (\<lambda>_. v)))]"

definition manager_flag :: "string \<Rightarrow> flag option" where
  "manager_flag = map_of manager_flag_list"

text \<open>\<^verbatim>\<open>strconv.ParseBool\<close>.\<close>

definition ParseBool :: "string \<Rightarrow> bool option" where
  "ParseBool s =
     (if parse_bool_true s then Some True
      else if s \<in> set [''0'', ''f'', ''F'', ''false'', ''FALSE'', ''False''] then Some False
      else None)"

fun is_bool_flag :: "flag \<Rightarrow> bool" where
  "is_bool_flag (StringFlag _) = False"
| "is_bool_flag (BoolFlag _) = True"
| "is_bool_flag (LibraryFlag b _) = b"

text \<open>\<^verbatim>\<open>Value.Set\<close> of a flag: the flags with the value, or the reason it is refused.\<close>

fun set_flag :: "flag \<Rightarrow> string \<Rightarrow> manager_flags \<Rightarrow> gerr + manager_flags" where
  "set_flag (StringFlag put) v fl = Inr (put v fl)"
| "set_flag (BoolFlag put) v fl =
     (case ParseBool v of Some b \<Rightarrow> Inr (put b fl) | None \<Rightarrow> Inl (Errorf ''parse error''))"
| "set_flag (LibraryFlag _ put) v fl = (case put v of None \<Rightarrow> Inr fl | Some err \<Rightarrow> Inl err)"

section \<open>Parsing the command line\<close>

text \<open>The flags of the imported packages: for each name, whether it is boolean and how it takes a value.\<close>

type_synonym library_flags = "string \<Rightarrow> (bool \<times> (string \<Rightarrow> gerr option)) option"

definition find_flag :: "library_flags \<Rightarrow> string \<Rightarrow> flag option" where
  "find_flag library name = (case manager_flag name of Some f \<Rightarrow> Some f 
     | None \<Rightarrow> map_option (\<lambda>(b, put). LibraryFlag b put) (library name))"

text \<open>The name and the value of an argument \<^verbatim>\<open>-name=value\<close>, without its dashes.\<close>

definition undashed :: "string \<Rightarrow> string" where
  "undashed s = (if s ! 1 = CHR ''-'' then drop 2 s else drop 1 s)"

definition flag_name :: "string \<Rightarrow> string" where
  "flag_name name = takeWhile (\<lambda>c. c \<noteq> CHR ''='') name"

definition flag_value :: "string \<Rightarrow> string option" where
  "flag_value name = (if CHR ''='' \<in> set name then Some (drop (length (flag_name name) + 1) name) else None)"

text \<open>One argument, as \<^verbatim>\<open>FlagSet.parseOne\<close> reads it: the flags it sets and the arguments left.\<close>

datatype parsed_one =
    Flag manager_flags "string list"
  | NoFlag
  | FlagHelp
  | FlagError gerr

definition flag_set :: "string \<Rightarrow> string list \<Rightarrow> gerr + manager_flags \<Rightarrow> parsed_one" where
  "flag_set reason args res = (case res of Inr fl \<Rightarrow> Flag fl args | Inl err \<Rightarrow> FlagError (Wrapf reason err))"

definition set_by_kind ::
  "flag \<Rightarrow> string \<Rightarrow> string option \<Rightarrow> manager_flags \<Rightarrow> string list \<Rightarrow> parsed_one" where
  "set_by_kind f name val fl args =
     (if is_bool_flag f then
        let v = (case val of Some v \<Rightarrow> v | None \<Rightarrow> ''true'') in
        flag_set (''invalid boolean value '' @ go_quote v @ '' for -'' @ name) args (set_flag f v fl)
      else case (val, args) of
        (None, []) \<Rightarrow> FlagError (Errorf (''flag needs an argument: -'' @ name))
      | (None, v # args') \<Rightarrow>
          flag_set (''invalid value '' @ go_quote v @ '' for flag -'' @ name) args' (set_flag f v fl)
      | (Some v, _) \<Rightarrow>
          flag_set (''invalid value '' @ go_quote v @ '' for flag -'' @ name) args (set_flag f v fl))"

definition parse_one :: "library_flags \<Rightarrow> manager_flags \<Rightarrow> string \<Rightarrow> string list \<Rightarrow> parsed_one" where
  "parse_one library fl s args =
     (if length s < 2 \<or> hd s \<noteq> CHR ''-'' \<or> s = ''--'' then NoFlag
      else let arg = undashed s; name = flag_name arg in
        if arg = [] \<or> hd arg = CHR ''-'' \<or> hd arg = CHR ''='' then FlagError (Errorf (''bad flag syntax: '' @ s))
        else case find_flag library name of
          None \<Rightarrow>
            if name = ''help'' \<or> name = ''h'' then FlagHelp
            else FlagError (Errorf (''flag provided but not defined: -'' @ name))
        | Some f \<Rightarrow> set_by_kind f name (flag_value arg) fl args)"

lemma flag_set_shorter: "flag_set m args res = Flag fl' rest \<Longrightarrow> rest = args \<and> res = Inr fl'"
  by (auto simp: flag_set_def split: sum.splits)

lemma set_by_kind_shorter: "set_by_kind f name val fl args = Flag fl' rest \<Longrightarrow> length rest \<le> length args"
  by (auto simp: set_by_kind_def Let_def dest!: flag_set_shorter split: if_splits option.splits list.splits)

lemma parse_one_shorter: "parse_one library fl s args = Flag fl' rest \<Longrightarrow> length rest \<le> length args"
  by (auto simp: parse_one_def Let_def dest!: set_by_kind_shorter split: if_splits option.splits)

text \<open>How \<^verbatim>\<open>flag.Parse\<close> ends: the last two leave the program.\<close>

datatype parsed = Parsed manager_flags | HelpShown | BadUsage gerr

function parse_flags :: "library_flags \<Rightarrow> manager_flags \<Rightarrow> string list \<Rightarrow> parsed" where
  "parse_flags library fl [] = Parsed fl"
| "parse_flags library fl (s # args) =
     (case parse_one library fl s args of
        Flag fl' rest \<Rightarrow> parse_flags library fl' rest
      | NoFlag \<Rightarrow> Parsed fl
      | FlagHelp \<Rightarrow> HelpShown
      | FlagError err \<Rightarrow> BadUsage err)"
  by pat_completeness auto

termination
  by (relation "measure (\<lambda>(library, fl, args). length args)") (auto dest!: parse_one_shorter)

section \<open>Options of the servers\<close>

record tls_config =
  NextProtos :: "string list"

type_synonym tls_option = "tls_config \<Rightarrow> tls_config"

definition disableHTTP2 :: tls_option where
  "disableHTTP2 c = c\<lparr>NextProtos := [''http/1.1'']\<rparr>"

definition tlsOpts :: "manager_flags \<Rightarrow> tls_option list" where
  "tlsOpts fl = (if \<not> enableHTTP2 fl then [disableHTTP2] else [])"

text \<open>The options of the two servers. A server applies its TLS options in order.\<close>

record webhook_options =
  wo_tls_opts :: "tls_option list"
  wo_cert_dir :: string
  wo_cert_name :: string
  wo_key_name :: string

datatype filter_provider = WithAuthenticationAndAuthorization

record metrics_options =
  mo_bind_address :: string
  mo_secure_serving :: bool
  mo_tls_opts :: "tls_option list"
  mo_filter_provider :: "filter_provider option"
  mo_cert_dir :: string
  mo_cert_name :: string
  mo_key_name :: string

definition webhookServerOptions :: "manager_flags \<Rightarrow> webhook_options" where
  "webhookServerOptions fl =
     (let opts = \<lparr>wo_tls_opts = tlsOpts fl, wo_cert_dir = [], wo_cert_name = [], wo_key_name = []\<rparr> in
      if length (webhookCertPath fl) > 0
      then opts\<lparr>wo_cert_dir := webhookCertPath fl, wo_cert_name := webhookCertName fl,
                wo_key_name := webhookCertKey fl\<rparr>
      else opts)"

definition metricsServerOptions :: "manager_flags \<Rightarrow> metrics_options" where
  "metricsServerOptions fl =
     (let opts = \<lparr>mo_bind_address = metricsAddr fl, mo_secure_serving = secureMetrics fl, mo_tls_opts = tlsOpts fl,
                   mo_filter_provider = None, mo_cert_dir = [], mo_cert_name = [], mo_key_name = []\<rparr>;
          opts = (if secureMetrics fl
                  then opts\<lparr>mo_filter_provider := Some WithAuthenticationAndAuthorization\<rparr> else opts) in
      if length (metricsCertPath fl) > 0
      then opts\<lparr>mo_cert_dir := metricsCertPath fl, mo_cert_name := metricsCertName fl,
                mo_key_name := metricsCertKey fl\<rparr>
      else opts)"

text \<open>The fields of \<^verbatim>\<open>ctrl.Options\<close> that \<^verbatim>\<open>main\<close> sets, without the scheme.\<close>

record manager_options =
  op_metrics :: metrics_options
  op_webhook_server :: webhook_options
  op_health_probe_address :: string
  op_leader_election :: bool
  op_leader_election_id :: string

definition manager_options_of :: "manager_flags \<Rightarrow> manager_options" where
  "manager_options_of fl =
     \<lparr>op_metrics = metricsServerOptions fl, op_webhook_server = webhookServerOptions fl,
      op_health_probe_address = probeAddr fl, op_leader_election = enableLeaderElection fl,
      op_leader_election_id = ''aeabae07.suse.com''\<rparr>"

section \<open>Properties\<close>

text \<open>An argument that is the flag of this name, with or without a value.\<close>

definition names_flag :: "string \<Rightarrow> string \<Rightarrow> bool" where
  "names_flag name s \<longleftrightarrow> flag_name (undashed s) = name"

text \<open>A field that only the flag of this name sets.\<close>

definition set_only_by :: "string \<Rightarrow> (manager_flags \<Rightarrow> 'a) \<Rightarrow> bool" where
  "set_only_by name g \<longleftrightarrow>
     (\<forall>library n f v fl fl'. find_flag library n = Some f \<longrightarrow> set_flag f v fl = Inr fl' \<longrightarrow> n \<noteq> name \<longrightarrow> g fl' = g fl)"

lemma set_flag_cases:
  assumes "find_flag library n = Some f" and "set_flag f v fl = Inr fl'"
  obtains (own) "manager_flag n = Some f" | (library) "fl' = fl"
  using assms by (auto simp: find_flag_def split: option.splits)

lemma manager_flag_member: "manager_flag n = Some f \<Longrightarrow> (n, f) \<in> set manager_flag_list"
  unfolding manager_flag_def by (rule map_of_SomeD)

lemma set_only_by_fields:
  "set_only_by ''enable-http2'' enableHTTP2"
  "set_only_by ''metrics-secure'' secureMetrics"
  unfolding set_only_by_def
  by (auto elim!: set_flag_cases dest!: manager_flag_member simp: manager_flag_list_def split: option.splits)

lemma set_by_kind_sets:
  "set_by_kind f name val fl args = Flag fl' rest
     \<Longrightarrow> (\<exists>v. set_flag f v fl = Inr fl') \<and> set rest \<subseteq> set args"
  by (auto simp: set_by_kind_def Let_def dest!: flag_set_shorter split: if_splits option.splits list.splits)

lemma parse_one_keeps:
  assumes "parse_one library fl s args = Flag fl' rest" and "set_only_by name g" and "\<not> names_flag name s"
  shows "g fl' = g fl \<and> set rest \<subseteq> set args"
  using assms unfolding parse_one_def set_only_by_def names_flag_def
  by (auto simp: Let_def dest!: set_by_kind_sets split: if_splits option.splits)

lemma parse_flags_keeps:
  assumes "set_only_by name g"
  shows "parse_flags library fl args = Parsed fl' \<Longrightarrow> \<forall>s \<in> set args. \<not> names_flag name s \<Longrightarrow> g fl' = g fl"
proof (induction library fl args rule: parse_flags.induct)
  case (2 library fl s args)
  then show ?case
    by (fastforce dest: parse_one_keeps [OF _ assms] split: parsed_one.splits)
qed simp

text \<open>What a server offers to its clients after its TLS options.\<close>

definition offered_protocols :: "tls_option list \<Rightarrow> tls_config \<Rightarrow> string list" where
  "offered_protocols opts c = NextProtos (fold (\<lambda>opt c. opt c) opts c)"

text \<open>
  C32. The servers are hardened unless the command line says otherwise. Whatever flags are given:
  when none of them is \<^verbatim>\<open>enable-http2\<close>, both servers offer HTTP/1.1 only, and when none is
  \<^verbatim>\<open>metrics-secure\<close>, the metrics are served over TLS to authenticated and authorized clients.
\<close>

theorem servers_hardened:
  assumes "parse_flags library default_flags args = Parsed fl"
  shows "((\<exists>s \<in> set args. names_flag ''enable-http2'' s)
       \<or> offered_protocols (wo_tls_opts (op_webhook_server (manager_options_of fl))) c = [''http/1.1'']
         \<and> offered_protocols (mo_tls_opts (op_metrics (manager_options_of fl))) c = [''http/1.1''])
     \<and> ((\<exists>s \<in> set args. names_flag ''metrics-secure'' s)
       \<or> mo_secure_serving (op_metrics (manager_options_of fl))
         \<and> mo_filter_provider (op_metrics (manager_options_of fl)) = Some WithAuthenticationAndAuthorization)"
proof -
  have http2: "enableHTTP2 fl = False" if "\<forall>s \<in> set args. \<not> names_flag ''enable-http2'' s"
    using parse_flags_keeps [OF set_only_by_fields(1) assms that] by (simp add: default_flags_def)
  have secure: "secureMetrics fl = True" if "\<forall>s \<in> set args. \<not> names_flag ''metrics-secure'' s"
    using parse_flags_keeps [OF set_only_by_fields(2) assms that] by (simp add: default_flags_def)
  show ?thesis
    using http2 secure
    by (auto simp: manager_options_of_def webhookServerOptions_def metricsServerOptions_def tlsOpts_def
        offered_protocols_def disableHTTP2_def Let_def)
qed

text \<open>The arguments that the Helm chart of the manager passes with its metrics enabled and secured.\<close>

definition chart_args :: "string list" where
  "chart_args =
     [''--leader-elect'', ''--webhook-cert-path=/tmp/k8s-webhook-server/serving-certs'',
      ''--metrics-bind-address=:8080'', ''--metrics-secure=true'',
      ''--metrics-cert-path=/tmp/k8s-metrics-server/metrics-certs'']"

definition chart_flags :: manager_flags where
  "chart_flags = default_flags
     \<lparr>enableLeaderElection := True, webhookCertPath := ''/tmp/k8s-webhook-server/serving-certs'',
      metricsAddr := '':8080'', metricsCertPath := ''/tmp/k8s-metrics-server/metrics-certs''\<rparr>"

lemma parse_chart_args: "parse_flags (\<lambda>_. None) default_flags chart_args = Parsed chart_flags"
  by code_simp

theorem servers_hardened_witness:
  "offered_protocols (wo_tls_opts (op_webhook_server (manager_options_of chart_flags))) \<lparr>NextProtos = [''h2'']\<rparr>
     = [''http/1.1'']"
proof -
  have "\<not> (\<exists>s \<in> set chart_args. names_flag ''enable-http2'' s)" by code_simp
  then show ?thesis using servers_hardened [OF parse_chart_args, of "\<lparr>NextProtos = [''h2'']\<rparr>"] by blast
qed

end
