(* ===== verification/Manager_Setup.thy ===== *)
theory Manager_Setup
  imports Manager_Options Release_Webhook Controller_Properties "HOL-Library.Sublist"
begin

text \<open>
  The startup of the manager, the second half of \<^verbatim>\<open>main\<close> in \<^verbatim>\<open>cmd/main.go\<close>, with
  \<^verbatim>\<open>NewClient\<close> of \<^verbatim>\<open>internal/helm/helm.go\<close> and the two registrations \<^verbatim>\<open>SetupWithManager\<close> and
  \<^verbatim>\<open>SetupWebhookWithManager\<close>. The calls into controller-runtime and client-go are the record
  \<open>runtime\<close>. They act on the world \<open>'s\<close> of the process, while the controller that is registered
  acts on the cluster \<open>'w\<close>.
\<close>

section \<open>What is registered\<close>

text \<open>The controller builder of \<^verbatim>\<open>SetupWithManager\<close>: the kind it is for, the watches, the name.\<close>

record 'w controller_builder =
  cb_for :: string
  cb_watch_plans :: "Plan \<Rightarrow> ('w, NamespacedName list) io"
  cb_watch_charts :: "HelmChartResource \<Rightarrow> ('w, NamespacedName list) io"
  cb_named :: string
  cb_reconciler :: "'w ReleaseReconciler"

definition SetupWithManager :: "'w ReleaseReconciler \<Rightarrow> 'w controller_builder" where
  "SetupWithManager r =
     \<lparr>cb_for = ''Release'', cb_watch_plans = mapPlanToRelease (rc_client r),
      cb_watch_charts = mapHelmChartToRelease (rc_client r), cb_named = ''release'', cb_reconciler = r\<rparr>"

record 'w release_validator =
  v_create :: "Release \<Rightarrow> ('w, unit) io"
  v_update :: "Release \<Rightarrow> Release \<Rightarrow> ('w, unit) io"
  v_delete :: "Release \<Rightarrow> ('w, unit) io"

definition SetupWebhookWithManager :: "'v version_lib \<Rightarrow> cond_lib \<Rightarrow> 'w kube \<Rightarrow> 'w release_validator" where
  "SetupWebhookWithManager V CL K =
     \<lparr>v_create = ValidateCreate V K, v_update = ValidateUpdate V CL K, v_delete = ValidateDelete\<rparr>"

section \<open>The startup\<close>

text \<open>
  The library calls of the startup. \<open>rt_last_release\<close> is \<^verbatim>\<open>Last\<close> of the Helm storage over the
  Secrets of all namespaces, and \<open>rt_server_version\<close> gives the field \<^verbatim>\<open>GitVersion\<close>. The client of
  the manager is the field \<open>rc_client\<close> of the controller's libraries.
\<close>

record ('s, 'c, 'k, 'w) runtime =
  rt_config_or_die :: "('s, 'c) io"
  rt_new_manager :: "'c \<Rightarrow> manager_options \<Rightarrow> ('s, unit) io"
  rt_get_config :: "('s, 'c) io"
  rt_new_clientset :: "'c \<Rightarrow> ('s, 'k) io"
  rt_last_release :: "'k \<Rightarrow> string \<Rightarrow> ('w, storage_release) io"
  rt_new_discovery :: "'c \<Rightarrow> ('s, unit) io"
  rt_server_version :: "('s, string) io"
  rt_complete_controller :: "'w controller_builder \<Rightarrow> ('s, unit) io"
  rt_complete_webhook :: "'w release_validator \<Rightarrow> ('s, unit) io"
  rt_add_healthz :: "string \<Rightarrow> ('s, unit) io"
  rt_add_readyz :: "string \<Rightarrow> ('s, unit) io"
  rt_start :: "('s, unit) io"

text \<open>The storage that the \<^verbatim>\<open>StorageClient\<close> embeds; \<open>StorageClient\<close> makes the client of it.\<close>

definition NewClient :: "('s, 'c, 'k, 'w) runtime \<Rightarrow> ('s, string \<Rightarrow> ('w, storage_release) io) io" where
  "NewClient rt =
     attempt (wrap ''retrieving cluster config'' (rt_get_config rt)) (\<lambda>cfg.
     attempt (wrap ''creating kubernetes client'' (rt_new_clientset rt cfg)) (\<lambda>k8sClient.
     ok (rt_last_release rt k8sClient)))"

text \<open>\<^verbatim>\<open>if err != nil { os.Exit(1) }\<close>: the value of the program is its exit code.\<close>

definition or_exit :: "('s, 'a) io \<Rightarrow> ('a \<Rightarrow> ('s, nat) io) \<Rightarrow> ('s, nat) io" where
  "or_exit m f = handle m (\<lambda>err. ok 1) f"

definition start_manager ::
  "('s, 'c, 'k, 'w) runtime \<Rightarrow> manager_flags \<Rightarrow> (string \<Rightarrow> string)
     \<Rightarrow> (string \<Rightarrow> (string \<Rightarrow> ('w, storage_release) io) \<Rightarrow> 'w ReleaseReconciler)
     \<Rightarrow> 'w release_validator \<Rightarrow> ('s, nat) io" where
  "start_manager rt fl getenv reconciler validator =
     or_exit (rt_config_or_die rt) (\<lambda>cfg.
     or_exit (rt_new_manager rt cfg (manager_options_of fl)) (\<lambda>_.
     or_exit (NewClient rt) (\<lambda>last_release.
     or_exit (rt_new_discovery rt cfg) (\<lambda>_.
     or_exit (rt_server_version rt) (\<lambda>gitVersion.
     or_exit (rt_complete_controller rt (SetupWithManager (reconciler gitVersion last_release))) (\<lambda>_.
     or_exit (if getenv ''ENABLE_WEBHOOKS'' \<noteq> ''false'' then rt_complete_webhook rt validator else ok ()) (\<lambda>_.
     or_exit (rt_add_healthz rt ''healthz'') (\<lambda>_.
     or_exit (rt_add_readyz rt ''readyz'') (\<lambda>_.
     or_exit (rt_start rt) (\<lambda>_. ok 0))))))))))"

text \<open>The whole program: its arguments and environment, and the libraries it is linked with.\<close>

definition main_program ::
  "('s, 'c, 'k, 'w) runtime \<Rightarrow> library_flags \<Rightarrow> string list \<Rightarrow> (string \<Rightarrow> string)
     \<Rightarrow> 'w ReleaseReconciler \<Rightarrow> rke2_libs \<Rightarrow> (('m \<Rightarrow> ('w, string) io) \<Rightarrow> string \<Rightarrow> ('w, ResolvedManifest) io)
     \<Rightarrow> ('w, 'r) registry \<Rightarrow> ('m \<Rightarrow> string) \<Rightarrow> 'v version_lib \<Rightarrow> ('s, nat) io" where
  "main_program rt library args getenv libs R resolve G uri V =
     (case parse_flags library default_flags args of
        HelpShown \<Rightarrow> ok 0
      | BadUsage err \<Rightarrow> ok 2
      | Parsed fl \<Rightarrow>
          start_manager rt fl getenv
            (\<lambda>gitVersion last_release.
               manager_reconciler libs (getenv ''E3CTL_FETCH_REMOTE'') R gitVersion last_release resolve G uri)
            (SetupWebhookWithManager V (rc_conditions libs) (rc_client libs)))"

section \<open>The log of a startup\<close>

datatype 'w startup_event =
    MadeManager manager_options
  | ReadVersion
  | AddedController "'w controller_builder"
  | AddedWebhook "'w release_validator"
  | AddedHealthz string
  | AddedReadyz string
  | Started

text \<open>Each event with whether the call succeeded.\<close>

type_synonym ('s, 'w) startup = "'s \<times> ('w startup_event \<times> bool) list"

definition succeeded :: "'a outcome \<Rightarrow> bool" where
  "succeeded r = (case r of Ok _ \<Rightarrow> True | _ \<Rightarrow> False)"

definition silent_step :: "('s, 'a) io \<Rightarrow> (('s, 'w) startup, 'a) io" where
  "silent_step m = State (\<lambda>(s, evs). case run_state m s of (r, s') \<Rightarrow> (r, (s', evs)))"

definition logged_step :: "'w startup_event \<Rightarrow> ('s, 'a) io \<Rightarrow> (('s, 'w) startup, 'a) io" where
  "logged_step ev m = State (\<lambda>(s, evs). case run_state m s of (r, s') \<Rightarrow> (r, (s', evs @ [(ev, succeeded r)])))"

definition recorded_runtime :: "('s, 'c, 'k, 'w) runtime \<Rightarrow> (('s, 'w) startup, 'c, 'k, 'w) runtime" where
  "recorded_runtime rt =
     \<lparr>rt_config_or_die = silent_step (rt_config_or_die rt),
      rt_new_manager = (\<lambda>c opts. logged_step (MadeManager opts) (rt_new_manager rt c opts)),
      rt_get_config = silent_step (rt_get_config rt),
      rt_new_clientset = (\<lambda>c. silent_step (rt_new_clientset rt c)),
      rt_last_release = rt_last_release rt,
      rt_new_discovery = (\<lambda>c. silent_step (rt_new_discovery rt c)),
      rt_server_version = logged_step ReadVersion (rt_server_version rt),
      rt_complete_controller = (\<lambda>b. logged_step (AddedController b) (rt_complete_controller rt b)),
      rt_complete_webhook = (\<lambda>v. logged_step (AddedWebhook v) (rt_complete_webhook rt v)),
      rt_add_healthz = (\<lambda>n. logged_step (AddedHealthz n) (rt_add_healthz rt n)),
      rt_add_readyz = (\<lambda>n. logged_step (AddedReadyz n) (rt_add_readyz rt n)),
      rt_start = logged_step Started (rt_start rt)\<rparr>"

lemma recorded_runtime_simps [simp]:
  "rt_config_or_die (recorded_runtime rt) = silent_step (rt_config_or_die rt)"
  "rt_new_manager (recorded_runtime rt) c opts = logged_step (MadeManager opts) (rt_new_manager rt c opts)"
  "rt_get_config (recorded_runtime rt) = silent_step (rt_get_config rt)"
  "rt_new_clientset (recorded_runtime rt) c = silent_step (rt_new_clientset rt c)"
  "rt_last_release (recorded_runtime rt) = rt_last_release rt"
  "rt_new_discovery (recorded_runtime rt) c = silent_step (rt_new_discovery rt c)"
  "rt_server_version (recorded_runtime rt) = logged_step ReadVersion (rt_server_version rt)"
  "rt_complete_controller (recorded_runtime rt) b = logged_step (AddedController b) (rt_complete_controller rt b)"
  "rt_complete_webhook (recorded_runtime rt) v = logged_step (AddedWebhook v) (rt_complete_webhook rt v)"
  "rt_add_healthz (recorded_runtime rt) n = logged_step (AddedHealthz n) (rt_add_healthz rt n)"
  "rt_add_readyz (recorded_runtime rt) n = logged_step (AddedReadyz n) (rt_add_readyz rt n)"
  "rt_start (recorded_runtime rt) = logged_step Started (rt_start rt)"
  by (simp_all add: recorded_runtime_def)

text \<open>The events of a startup that gets through, for the version of the API server and the Helm storage.\<close>

definition startup_events ::
  "manager_flags \<Rightarrow> (string \<Rightarrow> string) \<Rightarrow> 'w ReleaseReconciler \<Rightarrow> 'w release_validator \<Rightarrow> 'w startup_event list" where
  "startup_events fl getenv r validator =
     [MadeManager (manager_options_of fl), ReadVersion, AddedController (SetupWithManager r)]
     @ (if getenv ''ENABLE_WEBHOOKS'' \<noteq> ''false'' then [AddedWebhook validator] else [])
     @ [AddedHealthz ''healthz'', AddedReadyz ''readyz'', Started]"

section \<open>Lemmas\<close>

text \<open>
  \<open>starts m P\<close>: a run of \<open>m\<close> appends the beginning of one of the lists in \<open>P\<close> to the log, all but the
  last of its calls having succeeded, and exits with 0 exactly when the list is complete and every
  call has succeeded.
\<close>

definition starts :: "(('s, 'w) startup, nat) io \<Rightarrow> 'w startup_event list set \<Rightarrow> bool" where
  "starts m P \<longleftrightarrow>
     (\<forall>s evs res s' evs'. run_state m (s, evs) = (res, (s', evs')) \<longrightarrow>
        (\<exists>new. \<exists>plan \<in> P. evs' = evs @ new \<and> prefix (map fst new) plan \<and> list_all snd (butlast new)
           \<and> (res = Ok 0 \<longleftrightarrow> map fst new = plan \<and> list_all snd new)))"

lemma starts_nonempty: "starts m P \<Longrightarrow> \<exists>p. p \<in> P"
  unfolding starts_def by (metis prod.exhaust)

lemma starts_mono: "starts m P \<Longrightarrow> P \<subseteq> Q \<Longrightarrow> starts m Q"
  unfolding starts_def by (meson subsetD)

lemma startsE:
  assumes "starts m P" and "run_state m (s, evs) = (res, (s', evs'))"
  obtains new plan where "plan \<in> P" "evs' = evs @ new" "prefix (map fst new) plan" "list_all snd (butlast new)"
    "res = Ok 0 \<longleftrightarrow> map fst new = plan \<and> list_all snd new"
  using assms(1) [unfolded starts_def, rule_format, OF assms(2)] by blast

lemma starts_end: "starts (ok 0) {[]}"
  by (simp add: starts_def)

lemma run_or_exit:
  "run_state (or_exit m f) w = (case run_state m w of (r, w') \<Rightarrow>
     (case r of Ok a \<Rightarrow> run_state (f a) w' | Err _ \<Rightarrow> (Ok 1, w') | Panic p \<Rightarrow> (Panic p, w')))"
  by (auto simp: or_exit_def run_handle split: prod.splits outcome.splits)

lemma run_silent_step: "run_state (silent_step m) (s, evs) = (case run_state m s of (r, s') \<Rightarrow> (r, (s', evs)))"
  by (simp add: silent_step_def)

lemma run_logged_step:
  "run_state (logged_step ev m) (s, evs) = (case run_state m s of (r, s') \<Rightarrow> (r, (s', evs @ [(ev, succeeded r)])))"
  by (simp add: logged_step_def)

lemma or_exit_cases:
  assumes "run_state (or_exit m f) w = (res, w')" and "run_state m w = (r, v)"
  obtains (ok) a where "r = Ok a" "run_state (f a) v = (res, w')"
    | (failed) "\<not> succeeded r" "res \<noteq> Ok 0" "w' = v"
  using assms by (cases r) (auto simp: run_or_exit succeeded_def)

lemma starts_silent:
  assumes f: "\<And>a. starts (f a) P" and "[] \<notin> P"
  shows "starts (or_exit (silent_step m) f) P"
  unfolding starts_def
proof (intro allI impI)
  fix s evs res s' evs'
  assume run: "run_state (or_exit (silent_step m) f) (s, evs) = (res, (s', evs'))"
  obtain r w where m: "run_state (silent_step m) (s, evs) = (r, (w, evs))"
    by (cases "run_state m s") (auto simp: run_silent_step)
  obtain p where p: "p \<in> P" "p \<noteq> []" using starts_nonempty [OF f] assms(2) by blast
  from run m show "\<exists>new. \<exists>plan \<in> P. evs' = evs @ new \<and> prefix (map fst new) plan \<and> list_all snd (butlast new)
      \<and> (res = Ok 0 \<longleftrightarrow> map fst new = plan \<and> list_all snd new)"
  proof (cases rule: or_exit_cases)
    case (ok a)
    with f show ?thesis unfolding starts_def by blast
  next
    case failed
    with p show ?thesis by (intro exI [where x = "[]"] bexI [where x = p]) auto
  qed
qed

lemma starts_logged:
  assumes f: "\<And>a. starts (f a) P"
  shows "starts (or_exit (logged_step ev m) f) ((#) ev ` P)"
  unfolding starts_def
proof (intro allI impI)
  fix s evs res s' evs'
  assume run: "run_state (or_exit (logged_step ev m) f) (s, evs) = (res, (s', evs'))"
  obtain r w where m: "run_state (logged_step ev m) (s, evs) = (r, (w, evs @ [(ev, succeeded r)]))"
    by (cases "run_state m s") (auto simp: run_logged_step)
  obtain p where p: "p \<in> P" using starts_nonempty [OF f] by blast
  from run m show "\<exists>new. \<exists>plan \<in> (#) ev ` P. evs' = evs @ new \<and> prefix (map fst new) plan
      \<and> list_all snd (butlast new) \<and> (res = Ok 0 \<longleftrightarrow> map fst new = plan \<and> list_all snd new)"
  proof (cases rule: or_exit_cases)
    case (ok a)
    obtain new plan where "plan \<in> P" "evs' = (evs @ [(ev, succeeded r)]) @ new" "prefix (map fst new) plan"
        "list_all snd (butlast new)" "res = Ok 0 \<longleftrightarrow> map fst new = plan \<and> list_all snd new"
      by (rule startsE [OF f ok(2)])
    moreover have "succeeded r" using ok(1) by (simp add: succeeded_def)
    ultimately show ?thesis
      by (intro exI [where x = "(ev, True) # new"] bexI [where x = "ev # plan"]) simp_all
  next
    case failed
    with p show ?thesis by (intro exI [where x = "[(ev, False)]"] bexI [where x = "ev # p"]) auto
  qed
qed

lemma starts_skip: "(\<And>a. starts (f a) P) \<Longrightarrow> starts (or_exit (ok a) f) P"
  unfolding starts_def run_or_exit by simp

lemma NewClient_recorded: "NewClient (recorded_runtime rt) = silent_step (NewClient rt)"
  by (rule state.expand, rule ext)
    (auto simp: NewClient_def recorded_runtime_def run_attempt run_wrap run_silent_step silent_step_def
      split: prod.splits outcome.splits)

lemma start_manager_starts:
  "starts (start_manager (recorded_runtime rt) fl getenv reconciler validator)
     {startup_events fl getenv (reconciler git last_release) validator | git last_release. True}"
proof -
  let ?ends = "[AddedHealthz ''healthz'', AddedReadyz ''readyz'', Started]"
  let ?hooks = "if getenv ''ENABLE_WEBHOOKS'' \<noteq> ''false'' then [AddedWebhook validator] else []"
  let ?rt = "recorded_runtime rt"
  have ends: "starts (or_exit (rt_add_healthz ?rt ''healthz'') (\<lambda>_. or_exit (rt_add_readyz ?rt ''readyz'') (\<lambda>_.
      or_exit (rt_start ?rt) (\<lambda>_. ok 0)))) {?ends}" (is "starts ?tail _")
    using starts_logged [OF starts_logged [OF starts_logged [OF starts_end]]] by simp
  have hooks: "starts (or_exit (if getenv ''ENABLE_WEBHOOKS'' \<noteq> ''false'' then rt_complete_webhook ?rt validator
      else ok ()) (\<lambda>_. ?tail)) {?hooks @ ?ends}" (is "starts ?hooked _")
    using starts_logged [of "\<lambda>_. ?tail", OF ends] starts_skip [of "\<lambda>_. ?tail", OF ends] by auto
  let ?added = "\<lambda>git last_release. AddedController (SetupWithManager (reconciler git last_release)) # ?hooks @ ?ends"
  have added: "starts (or_exit (rt_complete_controller ?rt (SetupWithManager (reconciler git last_release)))
      (\<lambda>_. ?hooked)) {?added git last_release | git last_release. True}" for git last_release
    unfolding recorded_runtime_simps(8)
    by (rule starts_mono [OF starts_logged [where f = "\<lambda>_. ?hooked", OF hooks]]) auto
  show ?thesis
    unfolding start_manager_def NewClient_recorded recorded_runtime_simps(1,2,6,7)
    by (rule starts_mono, rule starts_silent, rule starts_logged, rule starts_silent, rule starts_silent,
        rule starts_logged, rule added) (auto simp: startup_events_def)
qed

section \<open>Properties\<close>


text \<open>A runtime whose calls succeed, except that the second check is refused.\<close>

definition witness_runtime :: "(unit, unit, unit, unit) runtime" where
  "witness_runtime =
     \<lparr>rt_config_or_die = ok (), rt_new_manager = (\<lambda>_ _. ok ()), rt_get_config = ok (),
      rt_new_clientset = (\<lambda>_. ok ()), rt_last_release = (\<lambda>_ _. raise ReleaseNotFound),
      rt_new_discovery = (\<lambda>_. ok ()), rt_server_version = ok ''v1.33.1+rke2r1'',
      rt_complete_controller = (\<lambda>_. ok ()), rt_complete_webhook = (\<lambda>_. ok ()),
      rt_add_healthz = (\<lambda>_. ok ()), rt_add_readyz = (\<lambda>_. raise (Errorf ''too late'')), rt_start = ok ()\<rparr>"

definition witness_startup :: "nat outcome \<times> (unit, unit) startup" where
  "witness_startup = run_state (main_program (recorded_runtime witness_runtime) (\<lambda>_. None) chart_args (\<lambda>_. [])
     witness_controller_libs witness_rke2_libs (\<lambda>read ref. ok witness_manifest) witness_registry (\<lambda>m. m)
     witness_versions) ((), [])"

lemma readyz_is_sixth: "startup_events fl (\<lambda>_. []) r v ! 5 = AddedReadyz ''readyz''"
  by (simp add: startup_events_def)


end
