(* ===== verification/Manager_Scheme.thy ===== *)
theory Manager_Scheme
  imports Manager_Setup
begin

text \<open>
  What happens before \<^verbatim>\<open>main\<close>: the \<^verbatim>\<open>init\<close> functions of \<^verbatim>\<open>cmd/main.go\<close> and
  \<^verbatim>\<open>api/v1alpha1/release_types.go\<close> build the scheme, without which no client call can name a kind.
\<close>

section \<open>Schemes\<close>

text \<open>A kind by its group, version and name. A scheme is the list of kinds that are registered.\<close>

type_synonym kind = "string \<times> string \<times> string"

type_synonym scheme = "kind list"

definition AddKnownTypes :: "string \<times> string \<Rightarrow> string list \<Rightarrow> scheme \<Rightarrow> scheme" where
  "AddKnownTypes gv names s = s @ map (\<lambda>n. (fst gv, snd gv, n)) names"

text \<open>A scheme builder runs the functions it was given in order, up to the first error.\<close>

fun SchemeBuilder_AddToScheme :: "(scheme \<Rightarrow> scheme outcome) list \<Rightarrow> scheme \<Rightarrow> scheme outcome" where
  "SchemeBuilder_AddToScheme [] s = Ok s"
| "SchemeBuilder_AddToScheme (f # fs) s = obind (f s) (SchemeBuilder_AddToScheme fs)"

section \<open>The scheme of the API\<close>

definition SchemeGroupVersion :: "string \<times> string" where
  "SchemeGroupVersion = (''lifecycle.suse.com'', ''v1alpha1'')"

text \<open>The function that \<^verbatim>\<open>init\<close> gives to the builder. \<^verbatim>\<open>metav1.AddToGroupVersion\<close> is the parameter \<open>add_meta\<close>.\<close>

definition register_release_types :: "(string \<times> string \<Rightarrow> scheme \<Rightarrow> scheme) \<Rightarrow> scheme \<Rightarrow> scheme outcome" where
  "register_release_types add_meta s =
     Ok (add_meta SchemeGroupVersion (AddKnownTypes SchemeGroupVersion [''Release'', ''ReleaseList''] s))"

definition AddToScheme :: "(string \<times> string \<Rightarrow> scheme \<Rightarrow> scheme) \<Rightarrow> scheme \<Rightarrow> scheme outcome" where
  "AddToScheme add_meta = SchemeBuilder_AddToScheme [register_release_types add_meta]"

section \<open>The scheme of the program\<close>

text \<open>\<^verbatim>\<open>utilruntime.Must\<close>: an error is a panic.\<close>

definition must :: "'a outcome \<Rightarrow> 'a outcome" where
  "must r = (case r of Err e \<Rightarrow> Panic (err_msg e) | _ \<Rightarrow> r)"

record scheme_libs =
  clientgo_AddToScheme :: "scheme \<Rightarrow> scheme outcome"
  suc_AddToScheme :: "scheme \<Rightarrow> scheme outcome"
  helm_AddToScheme :: "scheme \<Rightarrow> scheme outcome"
  add_meta_types :: "string \<times> string \<Rightarrow> scheme \<Rightarrow> scheme"

definition init_scheme :: "scheme_libs \<Rightarrow> scheme outcome" where
  "init_scheme S =
     obind (must (clientgo_AddToScheme S [])) (\<lambda>s.
     obind (must (AddToScheme (add_meta_types S) s)) (\<lambda>s.
     obind (must (suc_AddToScheme S s)) (\<lambda>s.
     must (helm_AddToScheme S s))))"

text \<open>The process: the scheme first, then \<^verbatim>\<open>main\<close>. A panic of \<^verbatim>\<open>init\<close> ends it before any flag is read.\<close>

definition linked_program :: "scheme_libs \<Rightarrow> ('s, nat) io \<Rightarrow> ('s, nat) io" where
  "linked_program S main = attempt (pure_call (init_scheme S)) (\<lambda>scheme. main)"

section \<open>Lemmas\<close>

text \<open>The kinds the clients of the program name, by the module that registers them.\<close>

definition core_kinds :: "kind set" where
  "core_kinds = {([], ''v1'', ''ConfigMap''), ([], ''v1'', ''Secret''), ([], ''v1'', ''Node''), ([], ''v1'', ''NodeList''),
     (''batch'', ''v1'', ''Job'')}"

definition release_kinds :: "kind set" where
  "release_kinds = {(''lifecycle.suse.com'', ''v1alpha1'', ''Release''), (''lifecycle.suse.com'', ''v1alpha1'', ''ReleaseList'')}"

definition plan_kinds :: "kind set" where
  "plan_kinds = {(''upgrade.cattle.io'', ''v1'', ''Plan''), (''upgrade.cattle.io'', ''v1'', ''PlanList'')}"

definition chart_kinds :: "kind set" where
  "chart_kinds = {(''helm.cattle.io'', ''v1'', ''HelmChart''), (''helm.cattle.io'', ''v1'', ''HelmChartList'')}"

text \<open>What is documented of the registrations of other modules: they add their kinds and remove none.\<close>

definition registers :: "kind set \<Rightarrow> (scheme \<Rightarrow> scheme outcome) \<Rightarrow> bool" where
  "registers ks f \<longleftrightarrow> (\<forall>s s'. f s = Ok s' \<longrightarrow> set s \<subseteq> set s' \<and> ks \<subseteq> set s')"

definition documented_schemes :: "scheme_libs \<Rightarrow> bool" where
  "documented_schemes S \<longleftrightarrow> registers core_kinds (clientgo_AddToScheme S) \<and> registers plan_kinds (suc_AddToScheme S)
     \<and> registers chart_kinds (helm_AddToScheme S) \<and> (\<forall>gv s. set s \<subseteq> set (add_meta_types S gv s))"

lemma must_Ok [simp]: "must r = Ok a \<longleftrightarrow> r = Ok a"
  by (simp add: must_def split: outcome.split)

lemma registersD:
  assumes "registers ks f" and "f s = Ok s'"
  shows "set s \<subseteq> set s'" and "ks \<subseteq> set s'"
  using assms by (auto simp: registers_def)

lemma release_types_registered:
  assumes "\<And>gv s. set s \<subseteq> set (add gv s)"
  shows "registers release_kinds (AddToScheme add)"
  unfolding registers_def
proof (intro allI impI)
  fix s s' assume run: "AddToScheme add s = Ok s'"
  let ?known = "AddKnownTypes SchemeGroupVersion [''Release'', ''ReleaseList''] s"
  from run have "s' = add SchemeGroupVersion ?known" by (simp add: AddToScheme_def register_release_types_def)
  then have "set ?known \<subseteq> set s'" using assms by simp
  moreover have "set ?known = set s \<union> release_kinds"
    by (simp add: AddKnownTypes_def SchemeGroupVersion_def release_kinds_def)
  ultimately show "set s \<subseteq> set s' \<and> release_kinds \<subseteq> set s'" by simp
qed

text \<open>When \<^verbatim>\<open>main\<close> runs, every kind is registered.\<close>

lemma scheme_complete:
  assumes "documented_schemes S" and "init_scheme S = Ok s"
  shows "core_kinds \<union> release_kinds \<union> plan_kinds \<union> chart_kinds \<subseteq> set s"
proof -
  obtain s1 s2 s3 where steps: "clientgo_AddToScheme S [] = Ok s1" "AddToScheme (add_meta_types S) s1 = Ok s2"
    "suc_AddToScheme S s2 = Ok s3" "helm_AddToScheme S s3 = Ok s"
    using assms(2) by (auto simp: init_scheme_def obind_eq_Ok_iff)
  have docs: "registers core_kinds (clientgo_AddToScheme S)" "registers plan_kinds (suc_AddToScheme S)"
    "registers chart_kinds (helm_AddToScheme S)" "set t \<subseteq> set (add_meta_types S gv t)" for gv t
    using assms(1) unfolding documented_schemes_def by blast+
  note release = release_types_registered [of "add_meta_types S", OF docs(4)]
  show ?thesis
    using registersD [OF docs(1) steps(1)] registersD [OF release steps(2)] registersD [OF docs(2) steps(3)]
      registersD [OF docs(3) steps(4)]
    by blast
qed

text \<open>A failed registration ends the process in a panic: an exit code comes from \<^verbatim>\<open>main\<close> with a complete scheme.\<close>

lemma linked_program_runs:
  assumes "documented_schemes S" and "run_state (linked_program S main) w = (Ok code, w')"
  shows "(\<exists>s. init_scheme S = Ok s \<and> core_kinds \<union> release_kinds \<union> plan_kinds \<union> chart_kinds \<subseteq> set s)
     \<and> run_state main w = (Ok code, w')"
  using assms(2) scheme_complete [OF assms(1)]
  by (cases "init_scheme S") (auto simp: linked_program_def run_attempt)

end
