(* ===== verification/Go_Memory.thy ===== *)
theory Go_Memory
  imports Prelude
begin

text \<open>
  A Go heap, for the one place where the program depends on which values share memory: the deep copies
  of the API types. The other theories work with the values themselves; what is shown here about
  copies is why they may.
\<close>

section \<open>The heap\<close>

text \<open>
  A heap is the list of its objects by address: a struct behind a pointer or the array behind a slice.
  Allocation appends an object; addresses are only compared.
\<close>

definition alloc :: "'o \<Rightarrow> ('o list, nat) io" where
  "alloc obj = State (\<lambda>h. (Ok (length h), h @ [obj]))"

definition fetch :: "nat \<Rightarrow> ('o list, 'o) io" where
  "fetch a = State (\<lambda>h. (if a < length h then Ok (h ! a) else Panic ''invalid memory address'', h))"

text \<open>How values of a type are kept as objects.\<close>

record ('o, 'a) kept =
  put :: "'a \<Rightarrow> 'o"
  got :: "'o \<Rightarrow> 'a option"

definition fetch_as :: "('o, 'a) kept \<Rightarrow> nat \<Rightarrow> ('o list, 'a) io" where
  "fetch_as k a = attempt (fetch a) (\<lambda>obj. case got k obj of Some x \<Rightarrow> ok x | None \<Rightarrow> panic ''object of another type'')"

definition peek :: "('o, 'a) kept \<Rightarrow> 'o list \<Rightarrow> nat \<Rightarrow> 'a option" where
  "peek k h a = (if a < length h then got k (h ! a) else None)"

text \<open>A slice refers to a part of an array; nil is \<open>None\<close>.\<close>

record slice =
  sl_array :: nat
  sl_offset :: nat
  sl_len :: nat

definition slice_items :: "slice \<Rightarrow> 'a list \<Rightarrow> 'a list" where
  "slice_items s xs = take (sl_len s) (drop (sl_offset s) xs)"

definition in_array :: "slice \<Rightarrow> 'a list \<Rightarrow> bool" where
  "in_array s xs \<longleftrightarrow> sl_offset s + sl_len s \<le> length xs"

section \<open>The shape of generated copies\<close>

text \<open>
  \<open>*out = new(T)\<close> and the copy of what the pointer refers to, unless it is nil; \<open>make([]T, len(*in))\<close> and
  a loop over the elements, unless the slice is nil. The object is made when its contents are known:
  no other code sees it before.
\<close>

definition copy_pointer :: "('o, 'a) kept \<Rightarrow> ('a \<Rightarrow> ('o list, 'a) io) \<Rightarrow> nat option \<Rightarrow> ('o list, nat option) io" where
  "copy_pointer k into p = (case p of
     None \<Rightarrow> ok None
   | Some a \<Rightarrow> attempt (fetch_as k a) (\<lambda>x. attempt (into x) (\<lambda>y. attempt (alloc (put k y)) (\<lambda>b. ok (Some b)))))"

fun copy_items :: "('a \<Rightarrow> ('o list, 'a) io) \<Rightarrow> 'a list \<Rightarrow> ('o list, 'a list) io" where
  "copy_items into [] = ok []"
| "copy_items into (x # xs) = attempt (into x) (\<lambda>y. attempt (copy_items into xs) (\<lambda>ys. ok (y # ys)))"

definition copy_slice ::
  "('o, 'a list) kept \<Rightarrow> ('a \<Rightarrow> ('o list, 'a) io) \<Rightarrow> slice option \<Rightarrow> ('o list, slice option) io" where
  "copy_slice k into s = (case s of
     None \<Rightarrow> ok None
   | Some s \<Rightarrow> attempt (fetch_as k (sl_array s)) (\<lambda>xs.
       if in_array s xs
       then attempt (copy_items into (slice_items s xs)) (\<lambda>ys.
            attempt (alloc (put k ys)) (\<lambda>b. ok (Some \<lparr>sl_array = b, sl_offset = 0, sl_len = sl_len s\<rparr>)))
       else panic ''slice bounds out of range''))"

section \<open>What a value stands for\<close>

text \<open>The value behind a pointer or a slice, and the addresses it reaches.\<close>

definition pointer_val :: "('o, 'a) kept \<Rightarrow> ('o list \<Rightarrow> 'a \<Rightarrow> 'v option) \<Rightarrow> 'o list \<Rightarrow> nat option \<Rightarrow> 'v option option" where
  "pointer_val k val h p = (case p of None \<Rightarrow> Some None
     | Some a \<Rightarrow> Option.bind (peek k h a) (\<lambda>x. map_option Some (val h x)))"

definition pointer_cells :: "('o, 'a) kept \<Rightarrow> ('o list \<Rightarrow> 'a \<Rightarrow> nat set) \<Rightarrow> 'o list \<Rightarrow> nat option \<Rightarrow> nat set" where
  "pointer_cells k cells h p = (case p of None \<Rightarrow> {}
     | Some a \<Rightarrow> insert a (case peek k h a of None \<Rightarrow> {} | Some x \<Rightarrow> cells h x))"

definition slice_val ::
  "('o, 'a list) kept \<Rightarrow> ('o list \<Rightarrow> 'a \<Rightarrow> 'v option) \<Rightarrow> 'o list \<Rightarrow> slice option \<Rightarrow> 'v list option option" where
  "slice_val k val h s = (case s of None \<Rightarrow> Some None
     | Some s \<Rightarrow> Option.bind (peek k h (sl_array s)) (\<lambda>xs.
         if in_array s xs then map_option Some (those (map (val h) (slice_items s xs))) else None))"

definition slice_cells :: "('o, 'a list) kept \<Rightarrow> ('o list \<Rightarrow> 'a \<Rightarrow> nat set) \<Rightarrow> 'o list \<Rightarrow> slice option \<Rightarrow> nat set" where
  "slice_cells k cells h s = (case s of None \<Rightarrow> {}
     | Some s \<Rightarrow> insert (sl_array s)
         (case peek k h (sl_array s) of None \<Rightarrow> {} | Some xs \<Rightarrow> \<Union>x \<in> set (slice_items s xs). cells h x))"

text \<open>Heaps that agree on a set of addresses.\<close>

definition agrees :: "nat set \<Rightarrow> 'o list \<Rightarrow> 'o list \<Rightarrow> bool" where
  "agrees A h h' \<longleftrightarrow> (\<forall>a \<in> A. a < length h \<and> a < length h' \<and> h' ! a = h ! a)"

text \<open>The addresses allocated between two heaps.\<close>

definition new_cells :: "'o list \<Rightarrow> 'o list \<Rightarrow> nat set" where
  "new_cells h h' = {length h..<length h'}"

lemma run_memory [run_simps]:
  "run_state (alloc obj) h = (Ok (length h), h @ [obj])"
  "a < length h \<Longrightarrow> run_state (fetch a) h = (Ok (h ! a), h)"
  by (simp_all add: alloc_def fetch_def)

lemma run_fetch_as: "peek k h a = Some x \<Longrightarrow> run_state (fetch_as k a) h = (Ok x, h)"
  by (auto simp: fetch_as_def peek_def run_attempt run_memory split: if_splits)

lemma peek_agrees: "agrees A h h' \<Longrightarrow> a \<in> A \<Longrightarrow> peek k h' a = peek k h a"
  by (auto simp: agrees_def peek_def)

lemma peek_append: "peek k h a = Some x \<Longrightarrow> peek k (h @ new) a = Some x"
  by (auto simp: peek_def nth_append split: if_splits)

lemma agrees_mono: "agrees B h h' \<Longrightarrow> A \<subseteq> B \<Longrightarrow> agrees A h h'"
  by (auto simp: agrees_def)

lemma agrees_append: "A \<subseteq> {..<length h} \<Longrightarrow> agrees A h (h @ new)"
  by (auto simp: agrees_def nth_append)

lemma peek_in: "peek k h a = Some x \<Longrightarrow> a < length h"
  by (simp add: peek_def split: if_splits)

lemma those_Some_iff: "those xs = Some ys \<longleftrightarrow> xs = map Some ys"
proof (induction xs arbitrary: ys)
  case (Cons x xs)
  then show ?case by (cases x; cases ys) auto
qed auto

lemma those_item:
  assumes "those (map f xs) = Some vs" and "x \<in> set xs"
  obtains v where "f x = Some v"
proof -
  have "f x \<in> set (map f xs)" using assms(2) by simp
  then show thesis using that assms(1) unfolding those_Some_iff by auto
qed

section \<open>Copies\<close>

text \<open>
  The contract of a \<^verbatim>\<open>DeepCopyInto\<close>: the copy stands for the same value and reaches only memory that
  was allocated for it, nothing that existed changes, and what a value stands for depends only on
  the objects it reaches.
\<close>

locale copier =
  fixes into :: "'a \<Rightarrow> ('o list, 'a) io"
    and val :: "'o list \<Rightarrow> 'a \<Rightarrow> 'v option"
    and cells :: "'o list \<Rightarrow> 'a \<Rightarrow> nat set"
  assumes copied: "val h x = Some v \<Longrightarrow> \<exists>y new. run_state (into x) h = (Ok y, h @ new)
      \<and> val (h @ new) y = Some v \<and> cells (h @ new) y \<subseteq> new_cells h (h @ new)"
    and framed: "val h x = Some v \<Longrightarrow> agrees (cells h x) h h' \<Longrightarrow> val h' x = Some v \<and> cells h' x = cells h x"
    and reached: "val h x = Some v \<Longrightarrow> cells h x \<subseteq> {..<length h}"
begin

lemma extended:
  assumes "val h x = Some v"
  shows "val (h @ new) x = Some v" and "cells (h @ new) x = cells h x"
  using framed [OF assms agrees_append [OF reached [OF assms]]] by simp_all

text \<open>A copy goes on standing for its value, whatever is written to memory that existed before.\<close>

lemma separate:
  assumes "val h x = Some v"
  shows "\<exists>y h'. run_state (into x) h = (Ok y, h') \<and> take (length h) h' = h \<and> val h' x = Some v
     \<and> cells h' y \<inter> {..<length h} = {} \<and> (\<forall>h2. agrees {length h..<length h'} h' h2 \<longrightarrow> val h2 y = Some v)"
proof -
  obtain y new where y: "run_state (into x) h = (Ok y, h @ new)" "val (h @ new) y = Some v"
    "cells (h @ new) y \<subseteq> new_cells h (h @ new)"
    using copied [OF assms] by blast
  have "val h2 y = Some v" if "agrees {length h..<length (h @ new)} (h @ new) h2" for h2
    using framed [OF y(2) agrees_mono [OF that y(3) [unfolded new_cells_def]]] by simp
  moreover have "cells (h @ new) y \<inter> {..<length h} = {}" using y(3) by (auto simp: new_cells_def)
  ultimately show ?thesis
    using y(1) extended(1) [OF assms, of new] by (intro exI [of _ y] exI [of _ "h @ new"]) simp
qed

lemma items_extended:
  assumes "those (map (val h) xs) = Some vs"
  shows "those (map (val (h @ new)) xs) = Some vs" and "(\<Union>x \<in> set xs. cells (h @ new) x) = (\<Union>x \<in> set xs. cells h x)"
proof -
  have item: "val (h @ new) x = val h x \<and> cells (h @ new) x = cells h x" if x: "x \<in> set xs" for x
  proof -
    obtain v where v: "val h x = Some v" by (rule those_item [OF assms x])
    from extended [OF v, of new] v show ?thesis by simp
  qed
  then have "\<forall>x \<in> set xs. val (h @ new) x = val h x" by blast
  with assms show "those (map (val (h @ new)) xs) = Some vs" by (simp cong: map_cong)
  show "(\<Union>x \<in> set xs. cells (h @ new) x) = (\<Union>x \<in> set xs. cells h x)" using item by simp
qed

lemma items_copied:
  assumes "those (map (val h) xs) = Some vs"
  shows "\<exists>ys new. run_state (copy_items into xs) h = (Ok ys, h @ new) \<and> length ys = length xs
     \<and> those (map (val (h @ new)) ys) = Some vs \<and> (\<Union>y \<in> set ys. cells (h @ new) y) \<subseteq> new_cells h (h @ new)"
  using assms
proof (induction xs arbitrary: h vs)
  case Nil
  then show ?case by simp
next
  case (Cons x xs)
  obtain v ws where vs: "vs = v # ws" "val h x = Some v" "those (map (val h) xs) = Some ws"
    using Cons.prems unfolding those_Some_iff by (cases vs) auto
  obtain y n1 where y: "run_state (into x) h = (Ok y, h @ n1)" "val (h @ n1) y = Some v"
    "cells (h @ n1) y \<subseteq> new_cells h (h @ n1)"
    using copied [OF vs(2)] by blast
  obtain ys n2 where ys: "run_state (copy_items into xs) (h @ n1) = (Ok ys, (h @ n1) @ n2)" "length ys = length xs"
    "those (map (val ((h @ n1) @ n2)) ys) = Some ws"
    "(\<Union>y \<in> set ys. cells ((h @ n1) @ n2) y) \<subseteq> new_cells (h @ n1) ((h @ n1) @ n2)"
    using Cons.IH [OF items_extended(1) [OF vs(3)]] by blast
  have "run_state (copy_items into (x # xs)) h = (Ok (y # ys), h @ n1 @ n2)"
    using y(1) ys(1) by (simp add: run_attempt)
  moreover have "those (map (val (h @ n1 @ n2)) (y # ys)) = Some vs"
    using extended(1) [OF y(2), of n2] ys(3) vs(1) by (simp add: those_Some_iff)
  moreover have "(\<Union>y \<in> set (y # ys). cells (h @ n1 @ n2) y) \<subseteq> new_cells h (h @ n1 @ n2)"
    using extended(2) [OF y(2), of n2] y(3) ys(4) by (fastforce simp: new_cells_def)
  ultimately show ?case using ys(2) by (intro exI [of _ "y # ys"] exI [of _ "n1 @ n2"]) simp
qed

lemma items_framed:
  assumes "those (map (val h) xs) = Some vs" and "agrees (\<Union>x \<in> set xs. cells h x) h h'"
  shows "those (map (val h') xs) = Some vs" and "(\<Union>x \<in> set xs. cells h' x) = (\<Union>x \<in> set xs. cells h x)"
proof -
  have item: "val h' x = val h x \<and> cells h' x = cells h x" if x: "x \<in> set xs" for x
  proof -
    obtain v where v: "val h x = Some v" by (rule those_item [OF assms(1) x])
    have "agrees (cells h x) h h'" using assms(2) x by (auto intro: agrees_mono)
    from framed [OF v this] v show ?thesis by simp
  qed
  then have "\<forall>x \<in> set xs. val h' x = val h x" by blast
  with assms(1) show "those (map (val h') xs) = Some vs" by (simp cong: map_cong)
  show "(\<Union>x \<in> set xs. cells h' x) = (\<Union>x \<in> set xs. cells h x)" using item by simp
qed

lemma items_reached:
  assumes "those (map (val h) xs) = Some vs"
  shows "(\<Union>x \<in> set xs. cells h x) \<subseteq> {..<length h}"
proof -
  have "cells h x \<subseteq> {..<length h}" if x: "x \<in> set xs" for x
    by (rule those_item [OF assms x]) (rule reached)
  then show ?thesis by blast
qed

end

text \<open>A value that refers to no memory is its own copy.\<close>

interpretation plain: copier ok "\<lambda>h. Some" "\<lambda>h x. {}"
  by unfold_locales simp_all

text \<open>Behind a pointer.\<close>

locale copied_object = copier into val cells
  for into :: "'a \<Rightarrow> ('o list, 'a) io" and val :: "'o list \<Rightarrow> 'a \<Rightarrow> 'v option" and cells +
  fixes k :: "('o, 'a) kept"
  assumes kept: "got k (put k x) = Some x"

sublocale copied_object \<subseteq> pointer: copier "copy_pointer k into" "pointer_val k val" "pointer_cells k cells"
proof (unfold_locales, goal_cases)
  case (1 h p v)
  show ?case
  proof (cases p)
    case None
    then show ?thesis
      using 1 by (intro exI [of _ None] exI [of _ "[]"])
        (simp add: copy_pointer_def pointer_val_def pointer_cells_def)
  next
    case (Some a)
    then obtain x w where x: "peek k h a = Some x" "val h x = Some w" "v = Some w"
      using 1 by (auto simp: pointer_val_def bind_eq_Some_conv)
    obtain y new where y: "run_state (into x) h = (Ok y, h @ new)" "val (h @ new) y = Some w"
      "cells (h @ new) y \<subseteq> new_cells h (h @ new)"
      using copied [OF x(2)] by blast
    let ?h = "h @ new @ [put k y]" and ?b = "length (h @ new)"
    have peek: "peek k ?h ?b = Some y" by (simp add: peek_def nth_append kept)
    have "run_state (copy_pointer k into p) h = (Ok (Some ?b), ?h)"
      using Some y(1) by (simp add: copy_pointer_def run_attempt run_fetch_as [OF x(1)] run_memory)
    moreover have "pointer_val k val ?h (Some ?b) = Some v"
      using extended(1) [OF y(2), of "[put k y]"] x(3) peek by (simp add: pointer_val_def)
    moreover have "pointer_cells k cells ?h (Some ?b) \<subseteq> new_cells h ?h"
      using extended(2) [OF y(2), of "[put k y]"] y(3) peek by (auto simp: pointer_cells_def new_cells_def)
    ultimately show ?thesis by blast
  qed
next
  case (2 h p v h')
  show ?case
  proof (cases p)
    case (Some a)
    then obtain x w where x: "peek k h a = Some x" "val h x = Some w" "v = Some w"
      using 2 by (auto simp: pointer_val_def bind_eq_Some_conv)
    have agree: "agrees (insert a (cells h x)) h h'" using 2(2) Some x(1) by (simp add: pointer_cells_def)
    have "peek k h' a = Some x" using peek_agrees [OF agree, of a k] x(1) by simp
    then show ?thesis
      using Some x framed [OF x(2) agrees_mono [OF agree subset_insertI]] by (simp add: pointer_val_def pointer_cells_def)
  qed (use 2 in \<open>simp add: pointer_val_def pointer_cells_def\<close>)
next
  case (3 h p v)
  show ?case
  proof (cases p)
    case (Some a)
    then obtain x w where x: "peek k h a = Some x" "val h x = Some w"
      using 3 by (auto simp: pointer_val_def bind_eq_Some_conv)
    then show ?thesis using Some peek_in [OF x(1)] reached [OF x(2)] by (simp add: pointer_cells_def)
  qed (simp add: pointer_cells_def)
qed

text \<open>Behind a slice.\<close>

locale copied_array = copier into val cells
  for into :: "'a \<Rightarrow> ('o list, 'a) io" and val :: "'o list \<Rightarrow> 'a \<Rightarrow> 'v option" and cells +
  fixes k :: "('o, 'a list) kept"
  assumes kept: "got k (put k xs) = Some xs"

sublocale copied_array \<subseteq> slice: copier "copy_slice k into" "slice_val k val" "slice_cells k cells"
proof (unfold_locales, goal_cases)
  case (1 h s v)
  show ?case
  proof (cases s)
    case None
    then show ?thesis
      using 1 by (intro exI [of _ None] exI [of _ "[]"]) (simp add: copy_slice_def slice_val_def slice_cells_def)
  next
    case (Some sl)
    then obtain xs vs where x: "peek k h (sl_array sl) = Some xs" "in_array sl xs"
      "those (map (val h) (slice_items sl xs)) = Some vs" "v = Some vs"
      using 1 by (auto simp: slice_val_def bind_eq_Some_conv split: if_splits)
    obtain ys new where y: "run_state (copy_items into (slice_items sl xs)) h = (Ok ys, h @ new)"
      "length ys = length (slice_items sl xs)" "those (map (val (h @ new)) ys) = Some vs"
      "(\<Union>y \<in> set ys. cells (h @ new) y) \<subseteq> new_cells h (h @ new)"
      using items_copied [OF x(3)] by blast
    let ?h = "h @ new @ [put k ys]" and ?t = "\<lparr>sl_array = length (h @ new), sl_offset = 0, sl_len = sl_len sl\<rparr>"
    have peek: "peek k ?h (length (h @ new)) = Some ys" by (simp add: peek_def nth_append kept)
    have items: "slice_items ?t ys = ys" "in_array ?t ys"
      using y(2) x(2) by (simp_all add: slice_items_def in_array_def)
    have "run_state (copy_slice k into s) h = (Ok (Some ?t), ?h)"
      using Some x(2) y(1) by (simp add: copy_slice_def run_attempt run_fetch_as [OF x(1)] run_memory)
    moreover have "slice_val k val ?h (Some ?t) = Some v"
      using items_extended(1) [OF y(3), of "[put k ys]"] x(4) peek items by (simp add: slice_val_def)
    moreover have "slice_cells k cells ?h (Some ?t) \<subseteq> new_cells h ?h"
      using items_extended(2) [OF y(3), of "[put k ys]"] y(4) peek items by (auto simp: slice_cells_def new_cells_def)
    ultimately show ?thesis by blast
  qed
next
  case (2 h s v h')
  show ?case
  proof (cases s)
    case (Some sl)
    then obtain xs vs where x: "peek k h (sl_array sl) = Some xs" "in_array sl xs"
      "those (map (val h) (slice_items sl xs)) = Some vs" "v = Some vs"
      using 2 by (auto simp: slice_val_def bind_eq_Some_conv split: if_splits)
    have agree: "agrees (insert (sl_array sl) (\<Union>x \<in> set (slice_items sl xs). cells h x)) h h'"
      using 2(2) Some x(1) by (simp add: slice_cells_def)
    note items = items_framed [OF x(3) agrees_mono [OF agree subset_insertI]]
    have "peek k h' (sl_array sl) = Some xs" using peek_agrees [OF agree, of "sl_array sl" k] x(1) by simp
    then show ?thesis using Some x items by (simp add: slice_val_def slice_cells_def)
  qed (use 2 in \<open>simp add: slice_val_def slice_cells_def\<close>)
next
  case (3 h s v)
  show ?case
  proof (cases s)
    case (Some sl)
    then obtain xs vs where x: "peek k h (sl_array sl) = Some xs" "those (map (val h) (slice_items sl xs)) = Some vs"
      using 3 by (auto simp: slice_val_def bind_eq_Some_conv split: if_splits)
    then show ?thesis using Some peek_in [OF x(1)] items_reached [OF x(2)] by (simp add: slice_cells_def)
  qed (simp add: slice_cells_def)
qed

section \<open>Structs\<close>

text \<open>Two parts copied one after the other, and a struct with parts that are copied.\<close>

definition copy_both ::
  "('a \<Rightarrow> ('o list, 'a) io) \<Rightarrow> ('b \<Rightarrow> ('o list, 'b) io) \<Rightarrow> 'a \<times> 'b \<Rightarrow> ('o list, 'a \<times> 'b) io" where
  "copy_both f g = (\<lambda>(x, y). attempt (f x) (\<lambda>x'. attempt (g y) (\<lambda>y'. ok (x', y'))))"

definition both_val ::
  "('o list \<Rightarrow> 'a \<Rightarrow> 'v option) \<Rightarrow> ('o list \<Rightarrow> 'b \<Rightarrow> 'w option) \<Rightarrow> 'o list \<Rightarrow> 'a \<times> 'b \<Rightarrow> ('v \<times> 'w) option" where
  "both_val V W h = (\<lambda>(x, y). Option.bind (V h x) (\<lambda>v. map_option (Pair v) (W h y)))"

definition both_cells ::
  "('o list \<Rightarrow> 'a \<Rightarrow> nat set) \<Rightarrow> ('o list \<Rightarrow> 'b \<Rightarrow> nat set) \<Rightarrow> 'o list \<Rightarrow> 'a \<times> 'b \<Rightarrow> nat set" where
  "both_cells C D h = (\<lambda>(x, y). C h x \<union> D h y)"

lemma attempt_both:
  "attempt (copy_both f g p) k = attempt (f (fst p)) (\<lambda>x. attempt (g (snd p)) (\<lambda>y. k (x, y)))"
  by (rule state.expand, rule ext) (simp add: copy_both_def run_attempt case_prod_beta split: prod.splits outcome.splits)

lemma copier_both:
  assumes "copier f V C" and "copier g W D"
  shows "copier (copy_both f g) (both_val V W) (both_cells C D)"
proof (unfold_locales, goal_cases)
  case (1 h p vw)
  obtain x y v w where p: "p = (x, y)" "vw = (v, w)" "V h x = Some v" "W h y = Some w"
    using 1 by (cases p) (auto simp: both_val_def bind_eq_Some_conv)
  obtain x' n1 where x': "run_state (f x) h = (Ok x', h @ n1)" "V (h @ n1) x' = Some v"
    "C (h @ n1) x' \<subseteq> new_cells h (h @ n1)"
    using copier.copied [OF assms(1) p(3)] by blast
  obtain y' n2 where y': "run_state (g y) (h @ n1) = (Ok y', (h @ n1) @ n2)" "W ((h @ n1) @ n2) y' = Some w"
    "D ((h @ n1) @ n2) y' \<subseteq> new_cells (h @ n1) ((h @ n1) @ n2)"
    using copier.copied [OF assms(2) copier.extended(1) [OF assms(2) p(4), of n1]] by blast
  note ext = copier.extended [OF assms(1) x'(2), of n2]
  have "run_state (copy_both f g p) h = (Ok (x', y'), h @ n1 @ n2)"
    using p(1) x'(1) y'(1) by (simp add: copy_both_def run_attempt)
  moreover have "both_val V W (h @ n1 @ n2) (x', y') = Some vw"
    using p(2) ext(1) y'(2) by (simp add: both_val_def)
  moreover have "both_cells C D (h @ n1 @ n2) (x', y') \<subseteq> new_cells h (h @ n1 @ n2)"
    using ext(2) x'(3) y'(3) by (fastforce simp: both_cells_def new_cells_def)
  ultimately show ?case by blast
next
  case (2 h p vw h')
  obtain x y v w where p: "p = (x, y)" "vw = (v, w)" "V h x = Some v" "W h y = Some w"
    using 2(1) by (cases p) (auto simp: both_val_def bind_eq_Some_conv)
  have "agrees (C h x) h h'" "agrees (D h y) h h'"
    using 2(2) p(1) by (auto simp: both_cells_def intro: agrees_mono)
  then show ?case
    using p copier.framed [OF assms(1) p(3)] copier.framed [OF assms(2) p(4)]
    by (simp add: both_val_def both_cells_def)
next
  case (3 h p vw)
  then obtain x y v w where "p = (x, y)" "V h x = Some v" "W h y = Some w"
    by (cases p) (auto simp: both_val_def bind_eq_Some_conv)
  then show ?case
    using copier.reached [OF assms(1)] copier.reached [OF assms(2)] by (simp add: both_cells_def)
qed

text \<open>\<open>parts\<close> are the fields of a struct that refer to memory, \<open>build\<close> makes its value from theirs and the rest.\<close>

lemma copier_struct:
  assumes "copier f V C" and "\<And>s y. parts (replace y s) = y" and "\<And>s y v. build (replace y s) v = build s v"
  shows "copier (\<lambda>s. attempt (f (parts s)) (\<lambda>y. ok (replace y s)))
     (\<lambda>h s. map_option (build s) (V h (parts s))) (\<lambda>h s. C h (parts s))"
proof (unfold_locales, goal_cases)
  case (1 h s w)
  then obtain v where v: "V h (parts s) = Some v" "w = build s v" by auto
  obtain y new where "run_state (f (parts s)) h = (Ok y, h @ new)" "V (h @ new) y = Some v"
    "C (h @ new) y \<subseteq> new_cells h (h @ new)"
    using copier.copied [OF assms(1) v(1)] by blast
  then show ?case
    using v(2) assms(2,3) by (intro exI [of _ "replace y s"] exI [of _ new]) (simp add: run_attempt)
next
  case (2 h s w h')
  then obtain v where v: "V h (parts s) = Some v" "w = build s v" by auto
  from copier.framed [OF assms(1) v(1) 2(2)] v(2) show ?case by simp
next
  case (3 h s w)
  then obtain v where "V h (parts s) = Some v" by auto
  then show ?case by (rule copier.reached [OF assms(1)])
qed

end
