(* ===== verification/Deep_Copy.thy ===== *)
theory Deep_Copy
  imports Go_Memory Release_API
begin

text \<open>
  \<^verbatim>\<open>api/v1alpha1/zz_generated.deepcopy.go\<close>: the copies of the API types, on a Go heap. The reconciler keeps
  the status it started from as such a copy, and the client caches hand out others. The values that
  the structs stand for are those of \<open>Release_API\<close>: a copy stands for the same value and shares no
  memory with anything that existed.
\<close>

section \<open>The API types in memory\<close>

text \<open>
  Pointers are addresses, slices refer to arrays, nil is \<open>None\<close>. Structs of other modules
  (\<^verbatim>\<open>metav1.Condition\<close>, \<^verbatim>\<open>metav1.ObjectMeta\<close>, \<^verbatim>\<open>metav1.ListMeta\<close>, \<^verbatim>\<open>apiextensionsv1.JSON\<close>) are of the type \<open>'x\<close>.
\<close>

record go_SecretValueSource =
  gsv_name :: string
  gsv_keys :: "slice option"

record go_ChartValuesFrom =
  gvf_secret_ref :: "nat option"

record go_ChartConfig =
  gcc_chart :: string
  gcc_values :: "nat option"
  gcc_values_from :: go_ChartValuesFrom

record go_ComponentConfig =
  gcm_helm :: "slice option"

record go_ReleaseSpec =
  gsp_version :: string
  gsp_registry :: string
  gsp_disable_drain :: bool
  gsp_component_config :: "nat option"

record go_ReleaseStatus =
  gst_version :: string
  gst_conditions :: "slice option"
  gst_observed_generation :: int

record 'x go_Release =
  grl_type_meta :: "string \<times> string"
  grl_object_meta :: 'x
  grl_spec :: go_ReleaseSpec
  grl_status :: go_ReleaseStatus

record 'x go_ReleaseList =
  gls_type_meta :: "string \<times> string"
  gls_list_meta :: 'x
  gls_items :: "slice option"

text \<open>The objects of the heap: arrays of slices, structs behind pointers, and memory of other modules.\<close>

datatype 'x obj =
    StringArray "string list"
  | ConditionArray "'x list"
  | ChartConfigArray "go_ChartConfig list"
  | ReleaseArray "'x go_Release list"
  | JSONObj 'x
  | SecretValueSourceObj go_SecretValueSource
  | ChartValuesFromObj go_ChartValuesFrom
  | ChartConfigObj go_ChartConfig
  | ComponentConfigObj go_ComponentConfig
  | ReleaseSpecObj go_ReleaseSpec
  | ReleaseStatusObj go_ReleaseStatus
  | ReleaseObj "'x go_Release"
  | ReleaseListObj "'x go_ReleaseList"
  | ExternalObj 'x

type_synonym 'x heap = "'x obj list"

definition strings :: "('x obj, string list) kept" where
  "strings = \<lparr>put = StringArray, got = (\<lambda>obj. case obj of StringArray xs \<Rightarrow> Some xs | _ \<Rightarrow> None)\<rparr>"

definition condition_array :: "('x obj, 'x list) kept" where
  "condition_array = \<lparr>put = ConditionArray, got = (\<lambda>obj. case obj of ConditionArray xs \<Rightarrow> Some xs | _ \<Rightarrow> None)\<rparr>"

definition chart_configs :: "('x obj, go_ChartConfig list) kept" where
  "chart_configs = \<lparr>put = ChartConfigArray, got = (\<lambda>obj. case obj of ChartConfigArray xs \<Rightarrow> Some xs | _ \<Rightarrow> None)\<rparr>"

definition release_array :: "('x obj, 'x go_Release list) kept" where
  "release_array = \<lparr>put = ReleaseArray, got = (\<lambda>obj. case obj of ReleaseArray xs \<Rightarrow> Some xs | _ \<Rightarrow> None)\<rparr>"

definition json_object :: "('x obj, 'x) kept" where
  "json_object = \<lparr>put = JSONObj, got = (\<lambda>obj. case obj of JSONObj x \<Rightarrow> Some x | _ \<Rightarrow> None)\<rparr>"

definition secret_object :: "('x obj, go_SecretValueSource) kept" where
  "secret_object = \<lparr>put = SecretValueSourceObj, got = (\<lambda>obj. case obj of SecretValueSourceObj x \<Rightarrow> Some x | _ \<Rightarrow> None)\<rparr>"

definition values_from_object :: "('x obj, go_ChartValuesFrom) kept" where
  "values_from_object = \<lparr>put = ChartValuesFromObj, got = (\<lambda>obj. case obj of ChartValuesFromObj x \<Rightarrow> Some x | _ \<Rightarrow> None)\<rparr>"

definition chart_object :: "('x obj, go_ChartConfig) kept" where
  "chart_object = \<lparr>put = ChartConfigObj, got = (\<lambda>obj. case obj of ChartConfigObj x \<Rightarrow> Some x | _ \<Rightarrow> None)\<rparr>"

definition component_object :: "('x obj, go_ComponentConfig) kept" where
  "component_object = \<lparr>put = ComponentConfigObj, got = (\<lambda>obj. case obj of ComponentConfigObj x \<Rightarrow> Some x | _ \<Rightarrow> None)\<rparr>"

definition spec_object :: "('x obj, go_ReleaseSpec) kept" where
  "spec_object = \<lparr>put = ReleaseSpecObj, got = (\<lambda>obj. case obj of ReleaseSpecObj x \<Rightarrow> Some x | _ \<Rightarrow> None)\<rparr>"

definition status_object :: "('x obj, go_ReleaseStatus) kept" where
  "status_object = \<lparr>put = ReleaseStatusObj, got = (\<lambda>obj. case obj of ReleaseStatusObj x \<Rightarrow> Some x | _ \<Rightarrow> None)\<rparr>"

definition release_object :: "('x obj, 'x go_Release) kept" where
  "release_object = \<lparr>put = ReleaseObj, got = (\<lambda>obj. case obj of ReleaseObj x \<Rightarrow> Some x | _ \<Rightarrow> None)\<rparr>"

definition release_list_object :: "('x obj, 'x go_ReleaseList) kept" where
  "release_list_object = \<lparr>put = ReleaseListObj, got = (\<lambda>obj. case obj of ReleaseListObj x \<Rightarrow> Some x | _ \<Rightarrow> None)\<rparr>"

lemmas kept_defs = strings_def condition_array_def chart_configs_def release_array_def json_object_def
  secret_object_def values_from_object_def chart_object_def component_object_def spec_object_def status_object_def
  release_object_def release_list_object_def

section \<open>DeepCopyInto\<close>

text \<open>The copies that other modules define for their structs.\<close>

record 'x externals =
  JSON_DeepCopyInto :: "'x \<Rightarrow> ('x heap, 'x) io"
  Condition_DeepCopyInto :: "'x \<Rightarrow> ('x heap, 'x) io"
  ObjectMeta_DeepCopyInto :: "'x \<Rightarrow> ('x heap, 'x) io"
  ListMeta_DeepCopyInto :: "'x \<Rightarrow> ('x heap, 'x) io"

text \<open>\<open>*out = *in\<close>, and then the fields that refer to memory in their order.\<close>

definition SecretValueSource_DeepCopyInto :: "go_SecretValueSource \<Rightarrow> ('x heap, go_SecretValueSource) io" where
  "SecretValueSource_DeepCopyInto s =
     attempt (copy_slice strings ok (gsv_keys s)) (\<lambda>keys. ok (s\<lparr>gsv_keys := keys\<rparr>))"

definition ChartValuesFrom_DeepCopyInto :: "go_ChartValuesFrom \<Rightarrow> ('x heap, go_ChartValuesFrom) io" where
  "ChartValuesFrom_DeepCopyInto s =
     attempt (copy_pointer secret_object SecretValueSource_DeepCopyInto (gvf_secret_ref s)) (\<lambda>ref.
     ok (s\<lparr>gvf_secret_ref := ref\<rparr>))"

definition ChartConfig_DeepCopyInto :: "'x externals \<Rightarrow> go_ChartConfig \<Rightarrow> ('x heap, go_ChartConfig) io" where
  "ChartConfig_DeepCopyInto X s =
     attempt (copy_pointer json_object (JSON_DeepCopyInto X) (gcc_values s)) (\<lambda>vs.
     attempt (ChartValuesFrom_DeepCopyInto (gcc_values_from s)) (\<lambda>vf.
     ok (s\<lparr>gcc_values := vs, gcc_values_from := vf\<rparr>)))"

definition ComponentConfig_DeepCopyInto :: "'x externals \<Rightarrow> go_ComponentConfig \<Rightarrow> ('x heap, go_ComponentConfig) io" where
  "ComponentConfig_DeepCopyInto X s =
     attempt (copy_slice chart_configs (ChartConfig_DeepCopyInto X) (gcm_helm s)) (\<lambda>helm. ok (s\<lparr>gcm_helm := helm\<rparr>))"

definition ReleaseSpec_DeepCopyInto :: "'x externals \<Rightarrow> go_ReleaseSpec \<Rightarrow> ('x heap, go_ReleaseSpec) io" where
  "ReleaseSpec_DeepCopyInto X s =
     attempt (copy_pointer component_object (ComponentConfig_DeepCopyInto X) (gsp_component_config s)) (\<lambda>cc.
     ok (s\<lparr>gsp_component_config := cc\<rparr>))"

definition ReleaseStatus_DeepCopyInto :: "'x externals \<Rightarrow> go_ReleaseStatus \<Rightarrow> ('x heap, go_ReleaseStatus) io" where
  "ReleaseStatus_DeepCopyInto X s =
     attempt (copy_slice condition_array (Condition_DeepCopyInto X) (gst_conditions s)) (\<lambda>cs.
     ok (s\<lparr>gst_conditions := cs\<rparr>))"

definition Release_DeepCopyInto :: "'x externals \<Rightarrow> 'x go_Release \<Rightarrow> ('x heap, 'x go_Release) io" where
  "Release_DeepCopyInto X s =
     attempt (ObjectMeta_DeepCopyInto X (grl_object_meta s)) (\<lambda>om.
     attempt (ReleaseSpec_DeepCopyInto X (grl_spec s)) (\<lambda>spec.
     attempt (ReleaseStatus_DeepCopyInto X (grl_status s)) (\<lambda>status.
     ok (s\<lparr>grl_object_meta := om, grl_spec := spec, grl_status := status\<rparr>))))"

definition ReleaseList_DeepCopyInto :: "'x externals \<Rightarrow> 'x go_ReleaseList \<Rightarrow> ('x heap, 'x go_ReleaseList) io" where
  "ReleaseList_DeepCopyInto X s =
     attempt (ListMeta_DeepCopyInto X (gls_list_meta s)) (\<lambda>lm.
     attempt (copy_slice release_array (Release_DeepCopyInto X) (gls_items s)) (\<lambda>items.
     ok (s\<lparr>gls_list_meta := lm, gls_items := items\<rparr>)))"

section \<open>DeepCopy\<close>

text \<open>Nil for nil, else a new struct that \<^verbatim>\<open>DeepCopyInto\<close> fills.\<close>

definition ChartConfig_DeepCopy :: "'x externals \<Rightarrow> nat option \<Rightarrow> ('x heap, nat option) io" where
  "ChartConfig_DeepCopy X = copy_pointer chart_object (ChartConfig_DeepCopyInto X)"

definition ChartValuesFrom_DeepCopy :: "nat option \<Rightarrow> ('x heap, nat option) io" where
  "ChartValuesFrom_DeepCopy = copy_pointer values_from_object ChartValuesFrom_DeepCopyInto"

definition ComponentConfig_DeepCopy :: "'x externals \<Rightarrow> nat option \<Rightarrow> ('x heap, nat option) io" where
  "ComponentConfig_DeepCopy X = copy_pointer component_object (ComponentConfig_DeepCopyInto X)"

definition Release_DeepCopy :: "'x externals \<Rightarrow> nat option \<Rightarrow> ('x heap, nat option) io" where
  "Release_DeepCopy X = copy_pointer release_object (Release_DeepCopyInto X)"

definition ReleaseList_DeepCopy :: "'x externals \<Rightarrow> nat option \<Rightarrow> ('x heap, nat option) io" where
  "ReleaseList_DeepCopy X = copy_pointer release_list_object (ReleaseList_DeepCopyInto X)"

definition ReleaseSpec_DeepCopy :: "'x externals \<Rightarrow> nat option \<Rightarrow> ('x heap, nat option) io" where
  "ReleaseSpec_DeepCopy X = copy_pointer spec_object (ReleaseSpec_DeepCopyInto X)"

definition ReleaseStatus_DeepCopy :: "'x externals \<Rightarrow> nat option \<Rightarrow> ('x heap, nat option) io" where
  "ReleaseStatus_DeepCopy X = copy_pointer status_object (ReleaseStatus_DeepCopyInto X)"

definition SecretValueSource_DeepCopy :: "nat option \<Rightarrow> ('x heap, nat option) io" where
  "SecretValueSource_DeepCopy = copy_pointer secret_object SecretValueSource_DeepCopyInto"

text \<open>\<^verbatim>\<open>DeepCopyObject\<close> returns an interface value: nil itself for a nil pointer, not an interface that holds one.\<close>

datatype runtime_object = ReleaseObject nat | ReleaseListObject nat

definition Release_DeepCopyObject :: "'x externals \<Rightarrow> nat option \<Rightarrow> ('x heap, runtime_object option) io" where
  "Release_DeepCopyObject X p = attempt (Release_DeepCopy X p) (\<lambda>c. ok (map_option ReleaseObject c))"

definition ReleaseList_DeepCopyObject :: "'x externals \<Rightarrow> nat option \<Rightarrow> ('x heap, runtime_object option) io" where
  "ReleaseList_DeepCopyObject X p = attempt (ReleaseList_DeepCopy X p) (\<lambda>c. ok (map_option ReleaseListObject c))"

section \<open>What the structs stand for\<close>

text \<open>
  How the structs of other modules are read: a JSON value is its text, of the metadata the program uses
  the name, the namespace and the generation, of a list its resource version.
\<close>

record 'x readings =
  json_val :: "'x heap \<Rightarrow> 'x \<Rightarrow> string option"
  condition_val :: "'x heap \<Rightarrow> 'x \<Rightarrow> condition option"
  object_meta_val :: "'x heap \<Rightarrow> 'x \<Rightarrow> (string \<times> string \<times> int) option"
  list_meta_val :: "'x heap \<Rightarrow> 'x \<Rightarrow> string option"
  external_cells :: "'x heap \<Rightarrow> 'x \<Rightarrow> nat set"

abbreviation no_cells :: "'x heap \<Rightarrow> 'a \<Rightarrow> nat set" where
  "no_cells h x \<equiv> {}"

abbreviation items_of :: "'a list option \<Rightarrow> 'a list" where
  "items_of xs \<equiv> (case xs of None \<Rightarrow> [] | Some ys \<Rightarrow> ys)"

definition secret_val :: "'x heap \<Rightarrow> go_SecretValueSource \<Rightarrow> SecretValueSource option" where
  "secret_val h s = map_option (\<lambda>keys. \<lparr>svs_name = gsv_name s, svs_keys = items_of keys\<rparr>)
     (slice_val strings (\<lambda>h. Some) h (gsv_keys s))"

definition secret_cells :: "'x heap \<Rightarrow> go_SecretValueSource \<Rightarrow> nat set" where
  "secret_cells h s = slice_cells strings no_cells h (gsv_keys s)"

definition values_from_val :: "'x heap \<Rightarrow> go_ChartValuesFrom \<Rightarrow> SecretValueSource option option" where
  "values_from_val h s = pointer_val secret_object secret_val h (gvf_secret_ref s)"

definition values_from_cells :: "'x heap \<Rightarrow> go_ChartValuesFrom \<Rightarrow> nat set" where
  "values_from_cells h s = pointer_cells secret_object secret_cells h (gvf_secret_ref s)"

definition chart_val :: "'x readings \<Rightarrow> 'x heap \<Rightarrow> go_ChartConfig \<Rightarrow> ChartConfig option" where
  "chart_val R h s = map_option (\<lambda>(vs, ref). \<lparr>cc_chart = gcc_chart s, cc_values = vs, cc_secret_ref = ref\<rparr>)
     (both_val (pointer_val json_object (json_val R)) values_from_val h (gcc_values s, gcc_values_from s))"

definition chart_cells :: "'x readings \<Rightarrow> 'x heap \<Rightarrow> go_ChartConfig \<Rightarrow> nat set" where
  "chart_cells R h s =
     both_cells (pointer_cells json_object (external_cells R)) values_from_cells h (gcc_values s, gcc_values_from s)"

definition component_val :: "'x readings \<Rightarrow> 'x heap \<Rightarrow> go_ComponentConfig \<Rightarrow> ChartConfig list option" where
  "component_val R h s = map_option items_of (slice_val chart_configs (chart_val R) h (gcm_helm s))"

definition component_cells :: "'x readings \<Rightarrow> 'x heap \<Rightarrow> go_ComponentConfig \<Rightarrow> nat set" where
  "component_cells R h s = slice_cells chart_configs (chart_cells R) h (gcm_helm s)"

definition spec_val :: "'x readings \<Rightarrow> 'x heap \<Rightarrow> go_ReleaseSpec \<Rightarrow> ReleaseSpec option" where
  "spec_val R h s = map_option (\<lambda>cc. \<lparr>spec_version = gsp_version s, spec_registry = gsp_registry s,
       spec_disable_drain = gsp_disable_drain s, spec_component_config = cc\<rparr>)
     (pointer_val component_object (component_val R) h (gsp_component_config s))"

definition spec_cells :: "'x readings \<Rightarrow> 'x heap \<Rightarrow> go_ReleaseSpec \<Rightarrow> nat set" where
  "spec_cells R h s = pointer_cells component_object (component_cells R) h (gsp_component_config s)"

definition status_val :: "'x readings \<Rightarrow> 'x heap \<Rightarrow> go_ReleaseStatus \<Rightarrow> ReleaseStatus option" where
  "status_val R h s = map_option (\<lambda>cs. \<lparr>status_version = gst_version s, status_conditions = items_of cs,
       status_observed_generation = gst_observed_generation s\<rparr>)
     (slice_val condition_array (condition_val R) h (gst_conditions s))"

definition status_cells :: "'x readings \<Rightarrow> 'x heap \<Rightarrow> go_ReleaseStatus \<Rightarrow> nat set" where
  "status_cells R h s = slice_cells condition_array (external_cells R) h (gst_conditions s)"

text \<open>A Release stands for its type metadata and a Release of the model.\<close>

definition release_val :: "'x readings \<Rightarrow> 'x heap \<Rightarrow> 'x go_Release \<Rightarrow> ((string \<times> string) \<times> Release) option" where
  "release_val R h s = map_option (\<lambda>((name, ns, gen), spec, status). (grl_type_meta s,
       \<lparr>rel_name = name, rel_namespace = ns, rel_generation = gen, rel_spec = spec, rel_status = status\<rparr>))
     (both_val (object_meta_val R) (both_val (spec_val R) (status_val R)) h
       (grl_object_meta s, grl_spec s, grl_status s))"

definition release_cells :: "'x readings \<Rightarrow> 'x heap \<Rightarrow> 'x go_Release \<Rightarrow> nat set" where
  "release_cells R h s = both_cells (external_cells R) (both_cells (spec_cells R) (status_cells R)) h
     (grl_object_meta s, grl_spec s, grl_status s)"

definition release_list_val ::
  "'x readings \<Rightarrow> 'x heap \<Rightarrow> 'x go_ReleaseList \<Rightarrow> ((string \<times> string) \<times> string \<times> ((string \<times> string) \<times> Release) list) option" where
  "release_list_val R h s = map_option (\<lambda>(version, items). (gls_type_meta s, version, items_of items))
     (both_val (list_meta_val R) (slice_val release_array (release_val R)) h (gls_list_meta s, gls_items s))"

definition release_list_cells :: "'x readings \<Rightarrow> 'x heap \<Rightarrow> 'x go_ReleaseList \<Rightarrow> nat set" where
  "release_list_cells R h s =
     both_cells (external_cells R) (slice_cells release_array (release_cells R)) h (gls_list_meta s, gls_items s)"

section \<open>The copies keep their contract\<close>

interpretation secret_keys: copied_array ok "\<lambda>h. Some" no_cells strings
  by unfold_locales (simp add: strings_def)

interpretation secret: copier SecretValueSource_DeepCopyInto secret_val secret_cells
  unfolding SecretValueSource_DeepCopyInto_def [abs_def] secret_val_def [abs_def] secret_cells_def [abs_def]
  by (rule copier_struct [OF secret_keys.slice.copier_axioms]) simp_all

interpretation secret_ref: copied_object SecretValueSource_DeepCopyInto secret_val secret_cells secret_object
  by unfold_locales (simp add: secret_object_def)

interpretation values_from: copier ChartValuesFrom_DeepCopyInto values_from_val values_from_cells
proof -
  have "copier (\<lambda>s. attempt (copy_pointer secret_object SecretValueSource_DeepCopyInto (gvf_secret_ref s))
        (\<lambda>y. ok (s\<lparr>gvf_secret_ref := y\<rparr>)))
      (\<lambda>h s. map_option (\<lambda>v. v) (pointer_val secret_object secret_val h (gvf_secret_ref s)))
      (\<lambda>h s. pointer_cells secret_object secret_cells h (gvf_secret_ref s))"
    by (rule copier_struct [OF secret_ref.pointer.copier_axioms]) simp_all
  then show "copier (ChartValuesFrom_DeepCopyInto :: go_ChartValuesFrom \<Rightarrow> ('x heap, go_ChartValuesFrom) io)
      values_from_val values_from_cells"
    by (simp add: ChartValuesFrom_DeepCopyInto_def [abs_def] values_from_val_def [abs_def]
        values_from_cells_def [abs_def] option.map_ident)
qed

text \<open>What is documented of the copies of other modules: they are copies.\<close>

locale external_copies =
  json: copier "JSON_DeepCopyInto X" "json_val R" "external_cells R" +
  condition: copier "Condition_DeepCopyInto X" "condition_val R" "external_cells R" +
  object_meta: copier "ObjectMeta_DeepCopyInto X" "object_meta_val R" "external_cells R" +
  list_meta: copier "ListMeta_DeepCopyInto X" "list_meta_val R" "external_cells R"
  for X :: "'x externals" and R :: "'x readings"

sublocale external_copies \<subseteq> json_object: copied_object "JSON_DeepCopyInto X" "json_val R" "external_cells R" json_object
  by unfold_locales (simp add: json_object_def)

sublocale external_copies \<subseteq> chart: copier "ChartConfig_DeepCopyInto X" "chart_val R" "chart_cells R"
proof -
  have "ChartConfig_DeepCopyInto X = (\<lambda>s. attempt (copy_both (copy_pointer json_object (JSON_DeepCopyInto X))
      ChartValuesFrom_DeepCopyInto (gcc_values s, gcc_values_from s))
      (\<lambda>y. ok (s\<lparr>gcc_values := fst y, gcc_values_from := snd y\<rparr>)))"
    by (simp add: fun_eq_iff ChartConfig_DeepCopyInto_def attempt_both)
  then show "copier (ChartConfig_DeepCopyInto X) (chart_val R) (chart_cells R)"
    unfolding chart_val_def [abs_def] chart_cells_def [abs_def]
    by (simp only:) (rule copier_struct [OF copier_both [OF json_object.pointer.copier_axioms values_from.copier_axioms]],
      auto)
qed

sublocale external_copies \<subseteq> chart_configs: copied_array "ChartConfig_DeepCopyInto X" "chart_val R" "chart_cells R" chart_configs
  by unfold_locales (simp add: chart_configs_def)

sublocale external_copies \<subseteq> component: copier "ComponentConfig_DeepCopyInto X" "component_val R" "component_cells R"
  unfolding ComponentConfig_DeepCopyInto_def [abs_def] component_val_def [abs_def] component_cells_def [abs_def]
  by (rule copier_struct [OF chart_configs.slice.copier_axioms]) simp_all

sublocale external_copies \<subseteq> component_object: copied_object "ComponentConfig_DeepCopyInto X" "component_val R"
    "component_cells R" component_object
  by unfold_locales (simp add: component_object_def)

sublocale external_copies \<subseteq> spec: copier "ReleaseSpec_DeepCopyInto X" "spec_val R" "spec_cells R"
  unfolding ReleaseSpec_DeepCopyInto_def [abs_def] spec_val_def [abs_def] spec_cells_def [abs_def]
  by (rule copier_struct [OF component_object.pointer.copier_axioms]) simp_all

sublocale external_copies \<subseteq> conditions: copied_array "Condition_DeepCopyInto X" "condition_val R" "external_cells R"
    condition_array
  by unfold_locales (simp add: condition_array_def)

sublocale external_copies \<subseteq> status: copier "ReleaseStatus_DeepCopyInto X" "status_val R" "status_cells R"
  unfolding ReleaseStatus_DeepCopyInto_def [abs_def] status_val_def [abs_def] status_cells_def [abs_def]
  by (rule copier_struct [OF conditions.slice.copier_axioms]) simp_all

sublocale external_copies \<subseteq> release: copier "Release_DeepCopyInto X" "release_val R" "release_cells R"
proof -
  have "Release_DeepCopyInto X = (\<lambda>s. attempt (copy_both (ObjectMeta_DeepCopyInto X)
      (copy_both (ReleaseSpec_DeepCopyInto X) (ReleaseStatus_DeepCopyInto X)) (grl_object_meta s, grl_spec s, grl_status s))
      (\<lambda>y. ok (s\<lparr>grl_object_meta := fst y, grl_spec := fst (snd y), grl_status := snd (snd y)\<rparr>)))"
    by (simp add: fun_eq_iff Release_DeepCopyInto_def attempt_both)
  then show "copier (Release_DeepCopyInto X) (release_val R) (release_cells R)"
    unfolding release_val_def [abs_def] release_cells_def [abs_def]
    by (simp only:) (rule copier_struct [OF copier_both [OF object_meta.copier_axioms
      copier_both [OF spec.copier_axioms status.copier_axioms]]], auto)
qed

sublocale external_copies \<subseteq> release_object: copied_object "Release_DeepCopyInto X" "release_val R" "release_cells R" release_object
  by unfold_locales (simp add: release_object_def)

sublocale external_copies \<subseteq> release_array: copied_array "Release_DeepCopyInto X" "release_val R" "release_cells R" release_array
  by unfold_locales (simp add: release_array_def)

sublocale external_copies \<subseteq> release_list: copier "ReleaseList_DeepCopyInto X" "release_list_val R" "release_list_cells R"
proof -
  have "ReleaseList_DeepCopyInto X = (\<lambda>s. attempt (copy_both (ListMeta_DeepCopyInto X)
      (copy_slice release_array (Release_DeepCopyInto X)) (gls_list_meta s, gls_items s))
      (\<lambda>y. ok (s\<lparr>gls_list_meta := fst y, gls_items := snd y\<rparr>)))"
    by (simp add: fun_eq_iff ReleaseList_DeepCopyInto_def attempt_both)
  then show "copier (ReleaseList_DeepCopyInto X) (release_list_val R) (release_list_cells R)"
    unfolding release_list_val_def [abs_def] release_list_cells_def [abs_def]
    by (simp only:) (rule copier_struct [OF copier_both [OF list_meta.copier_axioms release_array.slice.copier_axioms]], auto)
qed

sublocale external_copies \<subseteq> release_list_object: copied_object "ReleaseList_DeepCopyInto X" "release_list_val R"
    "release_list_cells R" release_list_object
  by unfold_locales (simp add: release_list_object_def)

section \<open>The status a reconciliation started from\<close>

text \<open>
  \<^verbatim>\<open>Reconcile\<close> in memory: the copy of the status, the reconciliation, which changes the Release behind the
  pointer, and the comparison (\<^verbatim>\<open>equality.Semantic.DeepEqual\<close>) of the copy with what the Release has then.
  The receiver of \<^verbatim>\<open>release.Status.DeepCopy()\<close> is a field of that struct and never nil: the copy is that of
  the field.
\<close>

definition status_changed_by ::
  "'x externals \<Rightarrow> ('x heap \<Rightarrow> go_ReleaseStatus \<Rightarrow> go_ReleaseStatus \<Rightarrow> bool) \<Rightarrow> nat \<Rightarrow> ('x heap, 'a) io
     \<Rightarrow> ('x heap, bool \<times> 'a outcome) io" where
  "status_changed_by X deep_equal release reconcile =
     attempt (fetch_as release_object release) (\<lambda>rel.
     attempt (ReleaseStatus_DeepCopyInto X (grl_status rel)) (\<lambda>original.
     attempt (handle reconcile (\<lambda>err. ok (Err err)) (\<lambda>result. ok (Ok result))) (\<lambda>res.
     attempt (fetch_as release_object release) (\<lambda>rel.
     State (\<lambda>h. (Ok (\<not> deep_equal h original (grl_status rel), res), h))))))"

text \<open>A program that writes to nothing but \<open>A\<close> and what it allocates itself.\<close>

definition writes_only :: "nat set \<Rightarrow> ('x heap, 'a) io \<Rightarrow> bool" where
  "writes_only A m \<longleftrightarrow> (\<forall>h. agrees ({..<length h} - A) h (snd (run_state m h)))"

lemma fetch_asD:
  assumes "run_state (fetch_as k a) h = (Ok x, h')"
  shows "peek k h a = Some x \<and> h' = h"
  using assms
  by (auto simp: fetch_as_def fetch_def peek_def run_attempt split: if_splits option.splits outcome.splits)

lemma status_changed_byD:
  assumes "run_state (status_changed_by X deep_equal p reconcile) h = (Ok (changed, res), h')"
  obtains rel original h1 rel' where "peek release_object h p = Some rel"
    and "run_state (ReleaseStatus_DeepCopyInto X (grl_status rel)) h = (Ok original, h1)"
    and "snd (run_state reconcile h1) = h'" and "peek release_object h' p = Some rel'"
    and "changed \<longleftrightarrow> \<not> deep_equal h' original (grl_status rel')"
proof -
  obtain rel where rel: "run_state (fetch_as release_object p) h = (Ok rel, h)" "peek release_object h p = Some rel"
    using assms fetch_asD [of release_object p h]
    by (cases "run_state (fetch_as release_object p) h"; cases "fst (run_state (fetch_as release_object p) h)")
      (auto simp: status_changed_by_def run_attempt)
  obtain q h1 where q: "run_state (ReleaseStatus_DeepCopyInto X (grl_status rel)) h = (q, h1)" by fastforce
  with assms rel obtain original where original: "q = Ok original"
    by (cases q) (auto simp: status_changed_by_def run_attempt)
  obtain r h2 where r: "run_state reconcile h1 = (r, h2)" by fastforce
  obtain f h3 where f: "run_state (fetch_as release_object p) h2 = (f, h3)" by fastforce
  obtain rel' where "f = Ok rel'" "h3 = h'" "changed \<longleftrightarrow> \<not> deep_equal h' original (grl_status rel')"
    using assms rel q original r f
    by (cases r; cases f) (auto simp: status_changed_by_def run_attempt run_handle)
  with that rel(2) q original r f fetch_asD [of release_object p h2 rel' h3] show thesis by simp
qed

context external_copies
begin

lemma changed_status_seen:
  assumes "pointer_val release_object (release_val R) h (Some p) = Some (Some (tm, before))"
    and "writes_only {..<length h} reconcile"
    and "\<And>h a b v w. status_val R h a = Some v \<Longrightarrow> status_val R h b = Some w \<Longrightarrow> deep_equal h a b = equal v w"
    and "run_state (status_changed_by X deep_equal p reconcile) h = (Ok (changed, res), h')"
    and "pointer_val release_object (release_val R) h' (Some p) = Some (Some (tm', after))"
  shows "changed \<longleftrightarrow> \<not> equal (rel_status before) (rel_status after)"
proof -
  obtain rel original h1 rel' where rel: "peek release_object h p = Some rel" "peek release_object h' p = Some rel'"
    and copy: "run_state (ReleaseStatus_DeepCopyInto X (grl_status rel)) h = (Ok original, h1)"
    and body: "snd (run_state reconcile h1) = h'" and flag: "changed \<longleftrightarrow> \<not> deep_equal h' original (grl_status rel')"
    by (rule status_changed_byD [OF assms(4)])
  have vals: "status_val R h (grl_status rel) = Some (rel_status before)"
    "status_val R h' (grl_status rel') = Some (rel_status after)"
    using assms(1,5) rel by (auto simp: pointer_val_def release_val_def both_val_def bind_eq_Some_conv)
  obtain new where new: "h1 = h @ new" "status_val R h1 original = Some (rel_status before)"
    "status_cells R h1 original \<subseteq> new_cells h h1"
    using status.copied [OF vals(1)] copy by auto
  have "agrees ({..<length h1} - {..<length h}) h1 h'"
    using assms(2) body unfolding writes_only_def by blast
  moreover have "status_cells R h1 original \<subseteq> {..<length h1} - {..<length h}"
    using new(3) by (auto simp: new_cells_def)
  ultimately have "status_val R h' original = Some (rel_status before)"
    using status.framed [OF new(2)] agrees_mono by blast
  then show ?thesis using flag assms(3) [OF _ vals(2)] by simp
qed

lemmas release_separate = release_object.pointer.separate
lemmas release_list_separate = release_list_object.pointer.separate

end

section \<open>A memory for the other modules\<close>

text \<open>Structs of other modules with plain fields and a reference to bytes.\<close>

record ext =
  ext_condition :: condition
  ext_meta :: "string \<times> string \<times> int"
  ext_text :: string
  ext_bytes :: "nat option"

definition ext_object :: "(ext obj, ext) kept" where
  "ext_object = \<lparr>put = ExternalObj, got = (\<lambda>obj. case obj of ExternalObj x \<Rightarrow> Some x | _ \<Rightarrow> None)\<rparr>"

definition ext_into :: "ext \<Rightarrow> (ext heap, ext) io" where
  "ext_into s = attempt (copy_pointer ext_object ok (ext_bytes s)) (\<lambda>b. ok (s\<lparr>ext_bytes := b\<rparr>))"

definition ext_val :: "(ext \<Rightarrow> 'v) \<Rightarrow> ext heap \<Rightarrow> ext \<Rightarrow> 'v option" where
  "ext_val f h s = map_option (\<lambda>b. f (s\<lparr>ext_bytes := None\<rparr>)) (pointer_val ext_object (\<lambda>h. Some) h (ext_bytes s))"

definition ext_copies :: "ext externals" where
  "ext_copies = \<lparr>JSON_DeepCopyInto = ext_into, Condition_DeepCopyInto = ext_into,
     ObjectMeta_DeepCopyInto = ext_into, ListMeta_DeepCopyInto = ext_into\<rparr>"

definition ext_readings :: "ext readings" where
  "ext_readings = \<lparr>json_val = ext_val ext_text, condition_val = ext_val ext_condition, object_meta_val = ext_val ext_meta,
     list_meta_val = ext_val ext_text,
     external_cells = (\<lambda>h s. pointer_cells ext_object no_cells h (ext_bytes s))\<rparr>"

interpretation ext_object: copied_object ok "\<lambda>h. Some" no_cells ext_object
  by unfold_locales (simp add: ext_object_def)

lemma ext_copier: "copier ext_into (ext_val f) (\<lambda>h s. pointer_cells ext_object no_cells h (ext_bytes s))"
  unfolding ext_into_def [abs_def] ext_val_def [abs_def]
  by (rule copier_struct [OF ext_object.pointer.copier_axioms]) simp_all

interpretation ext: external_copies ext_copies ext_readings
  by (intro external_copies.intro) (simp_all add: ext_copies_def ext_readings_def ext_copier)

section \<open>Properties\<close>

text \<open>
  C38. A deep copy is a copy: of a Release behind a pointer it makes one that stands for the same value, the
  original still stands for it, what existed is unchanged, and the copy reaches none of the memory
  that existed before, so that it goes on standing for this value whatever is written there.
\<close>

theorem Release_DeepCopy_separate:
  assumes "external_copies X R" and "pointer_val release_object (release_val R) h p = Some v"
  shows "\<exists>q h'. run_state (Release_DeepCopy X p) h = (Ok q, h') \<and> take (length h) h' = h
     \<and> pointer_val release_object (release_val R) h' p = Some v
     \<and> pointer_cells release_object (release_cells R) h' q \<inter> {..<length h} = {}
     \<and> (\<forall>h2. agrees {length h..<length h'} h' h2 \<longrightarrow> pointer_val release_object (release_val R) h2 q = Some v)"
  unfolding Release_DeepCopy_def by (rule external_copies.release_separate [OF assms])

text \<open>
  C27. The status is written exactly when the reconciliation changed it: the reconciliation changes the
  Release in memory, and the status it is compared with afterwards is the one from before it,
  because that is a copy - provided the reconciliation writes to no memory but what existed and what
  it allocates, and the comparison is one of values.
\<close>

theorem Reconcile_sees_changes:
  assumes "external_copies X R"
    and "pointer_val release_object (release_val R) h (Some p) = Some (Some (tm, before))"
    and "writes_only {..<length h} reconcile"
    and "\<And>h a b v w. status_val R h a = Some v \<Longrightarrow> status_val R h b = Some w \<Longrightarrow> deep_equal h a b = equal v w"
    and "run_state (status_changed_by X deep_equal p reconcile) h = (Ok (changed, res), h')"
    and "pointer_val release_object (release_val R) h' (Some p) = Some (Some (tm', after))"
  shows "changed \<longleftrightarrow> \<not> equal (rel_status before) (rel_status after)"
  by (rule external_copies.changed_status_seen [OF assms])

section \<open>A Release in memory\<close>

text \<open>A Release with one chart configuration and one condition, and what a reconciliation does to the condition.\<close>

definition mem_ext :: ext where
  "mem_ext = \<lparr>ext_condition = \<lparr>cond_type = ''Applied'', cond_status = ConditionFalse, cond_generation = 1, cond_reason = ''Pending'',
       cond_message = [], cond_transition = 0\<rparr>, ext_meta = (''r'', ''ns'', 1), ext_text = ''{}'', ext_bytes = Some 0\<rparr>"

definition mem_heap :: "ext heap" where
  "mem_heap =
     [ExternalObj mem_ext,
      ConditionArray [mem_ext],
      StringArray [''values.yaml''],
      SecretValueSourceObj \<lparr>gsv_name = ''secret'', gsv_keys = Some \<lparr>sl_array = 2, sl_offset = 0, sl_len = 1\<rparr>\<rparr>,
      JSONObj mem_ext,
      ChartConfigArray [\<lparr>gcc_chart = ''metallb'', gcc_values = Some 4, gcc_values_from = \<lparr>gvf_secret_ref = Some 3\<rparr>\<rparr>],
      ComponentConfigObj \<lparr>gcm_helm = Some \<lparr>sl_array = 5, sl_offset = 0, sl_len = 1\<rparr>\<rparr>,
      ReleaseObj \<lparr>grl_type_meta = (''Release'', ''v1''), grl_object_meta = mem_ext,
        grl_spec = \<lparr>gsp_version = ''2'', gsp_registry = ''reg'', gsp_disable_drain = False, gsp_component_config = Some 6\<rparr>,
        grl_status = \<lparr>gst_version = ''1'', gst_conditions = Some \<lparr>sl_array = 1, sl_offset = 0, sl_len = 1\<rparr>,
                       gst_observed_generation = 1\<rparr>\<rparr>]"

definition set_in_place :: "(ext heap, unit) io" where
  "set_in_place = State (\<lambda>h. (Ok (), h[1 := ConditionArray
     [mem_ext\<lparr>ext_condition := (ext_condition mem_ext)\<lparr>cond_status := ConditionTrue\<rparr>\<rparr>]]))"

definition mem_release :: "condition_status \<Rightarrow> Release" where
  "mem_release status = \<lparr>rel_name = ''r'', rel_namespace = ''ns'', rel_generation = 1,
     rel_spec = \<lparr>spec_version = ''2'', spec_registry = ''reg'', spec_disable_drain = False,
        spec_component_config = Some [\<lparr>cc_chart = ''metallb'', cc_values = Some ''{}'',
          cc_secret_ref = Some \<lparr>svs_name = ''secret'', svs_keys = [''values.yaml'']\<rparr>\<rparr>]\<rparr>,
     rel_status = \<lparr>status_version = ''1'', status_conditions = [(ext_condition mem_ext)\<lparr>cond_status := status\<rparr>],
        status_observed_generation = 1\<rparr>\<rparr>"

lemma mem_reads: "pointer_val release_object (release_val ext_readings) mem_heap (Some 7)
    = Some (Some ((''Release'', ''v1''), mem_release ConditionFalse))"
  by code_simp

theorem Release_DeepCopy_separate_witness:
  "\<exists>q h'. run_state (Release_DeepCopy ext_copies (Some 7)) mem_heap = (Ok q, h')
     \<and> pointer_val release_object (release_val ext_readings) (h'[1 := ConditionArray []]) q
         = Some (Some ((''Release'', ''v1''), mem_release ConditionFalse))"
proof -
  obtain q h' where q: "run_state (Release_DeepCopy ext_copies (Some 7)) mem_heap = (Ok q, h')"
    "take (length mem_heap) h' = mem_heap"
    "\<forall>h2. agrees {length mem_heap..<length h'} h' h2 \<longrightarrow> pointer_val release_object (release_val ext_readings) h2 q
       = Some (Some ((''Release'', ''v1''), mem_release ConditionFalse))"
    using Release_DeepCopy_separate [OF ext.external_copies_axioms mem_reads] by blast
  have "agrees {length mem_heap..<length h'} h' (h'[1 := ConditionArray []])"
    by (simp add: agrees_def mem_heap_def)
  with q show ?thesis by blast
qed

text \<open>Without the copy the change would be missed: the struct of the Release is the same before and after.\<close>

lemma in_place_same_struct:
  "peek release_object (snd (run_state set_in_place mem_heap)) 7 = peek release_object mem_heap 7"
  by (simp add: set_in_place_def peek_def mem_heap_def)

lemma ok_runD:
  "(case m of (Ok (c, r), s) \<Rightarrow> r = x \<and> P s | _ \<Rightarrow> False) \<Longrightarrow> \<exists>c s. m = (Ok (c, x), s) \<and> P s"
  by (auto split: prod.splits outcome.splits)

theorem Reconcile_sees_changes_witness:
  "\<exists>h'. run_state (status_changed_by ext_copies (\<lambda>h a b. status_val ext_readings h a = status_val ext_readings h b) 7
       set_in_place) mem_heap = (Ok (True, Ok ()), h')"
proof -
  let ?run = "run_state (status_changed_by ext_copies (\<lambda>h a b. status_val ext_readings h a = status_val ext_readings h b) 7
       set_in_place) mem_heap"
  have "case ?run of (Ok (changed, res), h') \<Rightarrow> res = Ok () \<and>
      pointer_val release_object (release_val ext_readings) h' (Some 7)
        = Some (Some ((''Release'', ''v1''), mem_release ConditionTrue)) | _ \<Rightarrow> False"
    by code_simp
  from ok_runD [OF this] obtain changed h' where run: "?run = (Ok (changed, Ok ()), h')"
    and after: "pointer_val release_object (release_val ext_readings) h' (Some 7)
        = Some (Some ((''Release'', ''v1''), mem_release ConditionTrue))"
    by blast
  have "writes_only {..<length mem_heap} set_in_place"
    by (auto simp: writes_only_def agrees_def set_in_place_def mem_heap_def nth_list_update)
  from Reconcile_sees_changes [OF ext.external_copies_axioms mem_reads this _ run after, of "(=)"]
  have "changed \<longleftrightarrow> rel_status (mem_release ConditionFalse) \<noteq> rel_status (mem_release ConditionTrue)" by simp
  moreover have "rel_status (mem_release ConditionFalse) \<noteq> rel_status (mem_release ConditionTrue)" by code_simp
  ultimately have "changed = True" by simp
  with run show ?thesis by (intro exI [of _ h']) simp
qed

end
